(* ===== verification/Prelude.thy ===== *)
theory Prelude
  imports Main "HOL-Library.Word" "HOL-Library.Sublist"
begin

text \<open>
  The vocabulary that the component theories share: Go error values and their wrapping,
  results and panics, maps that may be nil, the iteration over a map, and the generic
  lemmas about them. Theories \<open>GoStrings\<close> and \<open>GoStrconv\<close> add the routines of Go's packages
  \<^verbatim>\<open>strings\<close>, \<^verbatim>\<open>unicode/utf8\<close> and \<^verbatim>\<open>strconv\<close> that the repository calls.

  A Go string is a sequence of bytes, and so is \<^typ>\<open>string\<close>: a \<^typ>\<open>char\<close> is one byte and
  \<^const>\<open>length\<close> is Go's \<^verbatim>\<open>len\<close>. Go's \<^verbatim>\<open>int\<close> and \<^verbatim>\<open>int64\<close> are \<open>64 word\<close>, read as two's
  complement by \<^const>\<open>sint\<close>.
\<close>

type_synonym bytes = string
type_synonym int64 = "64 word"


section \<open>Errors, results and panics\<close>

text \<open>
  A formatted message is kept as its format string with the operands in order
  (\<open>fmt.Sprintf\<close>); it is never rendered. \<open>ArgW\<close> is the operand of \<open>%w\<close>, the one that
  \<open>errors.Unwrap\<close> returns; \<open>ArgE\<close> is an error printed by \<open>%v\<close>. The errors of libraries
  outside the repository are \<open>LibError\<close> with a tag, or the constructor of the call that
  makes them: \<open>NewBadRequest\<close>, \<open>NewInternalError\<close> and \<open>NewNotFound\<close> of the Kubernetes API
  errors, \<open>UnretryableError\<close> of the Kueue job framework, \<open>*strconv.NumError\<close>.
\<close>

datatype num_err = ErrSyntax | ErrRange

datatype go_error =
    Errorf string "arg list"
  | ValidationError go_error
  | EvaluationError go_error
  | NumError string string num_err
  | BadRequest message
  | InternalError go_error
  | NotFound string
  | UnretryableError message
  | LibError string
and arg =
    ArgS string
  | ArgI int
  | ArgL "string list"
  | ArgT string
  | ArgE go_error
  | ArgW go_error
and message = Sprintf string "arg list"

type_synonym 'a result = "go_error + 'a"

text \<open>A call that may panic: \<open>Panic\<close> carries the runtime's reason.\<close>

datatype 'a outcome = Ret 'a | Panic string

primrec wrapped_arg :: "arg list \<Rightarrow> go_error option" where
  "wrapped_arg [] = None"
| "wrapped_arg (a # as) = (case a of ArgW e \<Rightarrow> Some e | _ \<Rightarrow> wrapped_arg as)"

text \<open>
  \<open>errors.Unwrap\<close>: the two error types of package \<open>cel\<close> have an \<open>Unwrap\<close> method,
  \<open>fmt.Errorf\<close> wraps its \<open>%w\<close> operand, and the API status errors wrap nothing.
\<close>

fun Unwrap :: "go_error \<Rightarrow> go_error option" where
  "Unwrap (Errorf f as) = wrapped_arg as"
| "Unwrap (ValidationError e) = Some e"
| "Unwrap (EvaluationError e) = Some e"
| "Unwrap _ = None"

lemma size_wrapped_arg: "wrapped_arg as = Some e \<Longrightarrow> size e < size_list size as"
  by (induction as) (auto split: arg.splits)

lemma size_Unwrap: "Unwrap e = Some e' \<Longrightarrow> size e' < size e"
  by (cases e) (auto dest: size_wrapped_arg)

text \<open>
  \<open>errors.As\<close> walks the chain of wrapped errors and stops at the first one of the wanted
  type. The chain is finite because each error is larger than the one it wraps.
\<close>

function errors_As :: "(go_error \<Rightarrow> bool) \<Rightarrow> go_error \<Rightarrow> go_error option" where
  "errors_As p e =
     (if p e then Some e
      else case Unwrap e of None \<Rightarrow> None | Some e' \<Rightarrow> errors_As p e')"
  by pat_completeness auto
termination
  by (relation "measure (size \<circ> snd)") (auto dest: size_Unwrap)

declare errors_As.simps [simp del]

definition is_ValidationError_val :: "go_error \<Rightarrow> bool" where
  "is_ValidationError_val e = (case e of ValidationError _ \<Rightarrow> True | _ \<Rightarrow> False)"

definition is_EvaluationError_val :: "go_error \<Rightarrow> bool" where
  "is_EvaluationError_val e = (case e of EvaluationError _ \<Rightarrow> True | _ \<Rightarrow> False)"

lemma errors_As_here [simp]: "p e \<Longrightarrow> errors_As p e = Some e"
  by (simp add: errors_As.simps)

lemma errors_As_sound: "errors_As p e = Some e' \<Longrightarrow> p e'"
proof (induction p e rule: errors_As.induct)
  case (1 p e)
  then show ?case
    by (simp add: errors_As.simps [of p e] split: if_splits option.splits)
qed

lemma is_ValidationError_val_simps [simp]:
  "is_ValidationError_val (ValidationError e)"
  "\<not> is_ValidationError_val (EvaluationError e)"
  "\<not> is_ValidationError_val (Errorf f as)"
  "\<not> is_ValidationError_val (LibError s)"
  "\<not> is_ValidationError_val (NumError s n k)"
  by (simp_all add: is_ValidationError_val_def)

lemma is_EvaluationError_val_simps [simp]:
  "is_EvaluationError_val (EvaluationError e)"
  "\<not> is_EvaluationError_val (ValidationError e)"
  "\<not> is_EvaluationError_val (Errorf f as)"
  "\<not> is_EvaluationError_val (LibError s)"
  "\<not> is_EvaluationError_val (NumError s n k)"
  by (simp_all add: is_EvaluationError_val_def)

definition is_ok :: "'a result \<Rightarrow> bool" where
  "is_ok r = (case r of Inl _ \<Rightarrow> False | Inr _ \<Rightarrow> True)"

lemma is_ok_simps [simp]: "\<not> is_ok (Inl e)" "is_ok (Inr x)"
  by (simp_all add: is_ok_def)

lemma is_ok_iff: "is_ok r \<longleftrightarrow> (\<exists>x. r = Inr x)"
  by (cases r) auto


section \<open>Maps that may be nil\<close>

text \<open>
  A \<open>map[string]string\<close> is \<^const>\<open>None\<close> when nil. Reading a nil map finds nothing;
  \<open>put_init\<close> is the idiom \<open>if m == nil { m = make(...) }; m[k] = v\<close>.
\<close>

type_synonym gomap = "(string \<rightharpoonup> string) option"

definition map_get :: "gomap \<Rightarrow> string \<Rightarrow> string option" where
  "map_get m k = (case m of None \<Rightarrow> None | Some f \<Rightarrow> f k)"

definition map_index :: "gomap \<Rightarrow> string \<Rightarrow> string" where
  "map_index m k = (case map_get m k of None \<Rightarrow> [] | Some v \<Rightarrow> v)"

definition init_map :: "gomap \<Rightarrow> gomap" where
  "init_map m = (case m of None \<Rightarrow> Some Map.empty | Some f \<Rightarrow> Some f)"

definition put_init :: "gomap \<Rightarrow> string \<Rightarrow> string \<Rightarrow> gomap" where
  "put_init m k v = map_option (\<lambda>f. f(k \<mapsto> v)) (init_map m)"

lemma map_get_simps [simp]: "map_get None k = None" "map_get (Some f) k = f k"
  by (simp_all add: map_get_def)

lemma map_get_init_map [simp]: "map_get (init_map m) k = map_get m k"
  by (cases m) (simp_all add: init_map_def)

lemma map_get_put_init [simp]:
  "map_get (put_init m k v) k' = (if k' = k then Some v else map_get m k')"
  by (cases m) (simp_all add: put_init_def init_map_def)

lemma put_init_init_map [simp]: "put_init (init_map m) k v = put_init m k v"
  by (cases m) (simp_all add: put_init_def init_map_def)

lemma init_map_not_nil [simp]: "init_map m \<noteq> None"
  by (cases m) (simp_all add: init_map_def)

lemma put_init_not_nil [simp]: "put_init m k v \<noteq> None"
  by (simp add: put_init_def)

lemma init_map_Some [simp]: "init_map (Some f) = Some f"
  by (simp add: init_map_def)

text \<open>
  A \<open>for k, v := range m\<close> visits every entry once in an order the language leaves open:
  the loop is modelled over a list of the entries, which is any enumeration of the map.
\<close>

definition enumerates :: "(string \<times> string) list \<Rightarrow> gomap \<Rightarrow> bool" where
  "enumerates kvs m \<longleftrightarrow> distinct (map fst kvs) \<and> (\<forall>k. map_of kvs k = map_get m k)"

lemma enumerates_distinct: "enumerates kvs m \<Longrightarrow> distinct (map fst kvs)"
  by (simp add: enumerates_def)

lemma enumerates_mem: "enumerates kvs m \<Longrightarrow> (k, v) \<in> set kvs \<longleftrightarrow> map_get m k = Some v"
  by (metis enumerates_def map_of_eq_Some_iff)

lemma enumerates_same_set:
  "enumerates kvs m \<Longrightarrow> enumerates kvs' m \<Longrightarrow> set kvs = set kvs'"
  by (auto simp: enumerates_mem)


section \<open>Lists\<close>

lemma list_all2_set1: "list_all2 P xs ys \<Longrightarrow> x \<in> set xs \<Longrightarrow> \<exists>y \<in> set ys. P x y"
  by (induction rule: list_all2_induct) auto

lemma list_all2_set2: "list_all2 P xs ys \<Longrightarrow> y \<in> set ys \<Longrightarrow> \<exists>x \<in> set xs. P x y"
  by (induction rule: list_all2_induct) auto

text \<open>
  The value of the last element at which \<open>f\<close> is defined: the reference for a sequence of
  writes, or of reloads, in which the last one wins.
\<close>

fun last_some :: "('a \<Rightarrow> 'b option) \<Rightarrow> 'a list \<Rightarrow> 'b option" where
  "last_some f [] = None"
| "last_some f (x # xs) = (case last_some f xs of None \<Rightarrow> f x | Some y \<Rightarrow> Some y)"

lemma last_some_None: "last_some f xs = None \<longleftrightarrow> (\<forall>x \<in> set xs. f x = None)"
  by (induction xs) (auto split: option.splits)

lemma last_some_Some: "last_some f xs = Some y \<Longrightarrow> \<exists>x \<in> set xs. f x = Some y"
  by (induction xs) (auto split: option.splits)


text \<open>A path cut at every slash: its elements, or the reference tokens of a JSON pointer.\<close>

fun split_slash :: "string \<Rightarrow> string list" where
  "split_slash [] = [[]]"
| "split_slash (c # cs) =
     (if c = CHR ''/'' then [] # split_slash cs
      else case split_slash cs of [] \<Rightarrow> [[c]] | t # ts \<Rightarrow> (c # t) # ts)"


section \<open>Simulation\<close>

text \<open>
  What a refinement proof supplies: steps of the detailed system keep an invariant and are
  seen by an observer as a step of the specification or as none.
\<close>

locale simulation =
  fixes cstep :: "'c \<Rightarrow> 'c \<Rightarrow> bool"
    and inv :: "'c \<Rightarrow> bool"
    and astep :: "'a \<Rightarrow> 'a \<Rightarrow> bool"
    and abs :: "'c \<Rightarrow> 'a"
  assumes inv_step: "inv s \<Longrightarrow> cstep s t \<Longrightarrow> inv t"
    and simulates: "inv s \<Longrightarrow> cstep s t \<Longrightarrow> abs t = abs s \<or> astep (abs s) (abs t)"
begin

lemma inv_steps: "cstep\<^sup>*\<^sup>* s t \<Longrightarrow> inv s \<Longrightarrow> inv t"
  by (induction rule: rtranclp_induct) (auto intro: inv_step)

lemma refines: "cstep\<^sup>*\<^sup>* s t \<Longrightarrow> inv s \<Longrightarrow> astep\<^sup>*\<^sup>* (abs s) (abs t)"
proof (induction rule: rtranclp_induct)
  case (step t u)
  from simulates [OF inv_steps [OF step.hyps(1) step.prems] step.hyps(2)] step
  show ?case by (metis rtranclp.rtrancl_into_rtrancl)
qed simp

text \<open>An invariant of the specification holds of what is observed.\<close>

lemma transfers:
  assumes "cstep\<^sup>*\<^sup>* s t" "inv s" "P (abs s)" "\<And>x y. astep x y \<Longrightarrow> P x \<Longrightarrow> P y"
  shows "P (abs t)"
  using refines [OF assms(1,2)] assms(3)
  by (induction rule: rtranclp_induct) (auto intro: assms(4))

end

end
