(* ===== verification/MutationTypes.thy ===== *)
theory MutationTypes
  imports Prelude
begin

text \<open>
  \<^verbatim>\<open>internal/cel/types.go\<close>: the mutation types and the mutation request with its validation.
  As in the source a mutation type is a string; the five constants are the valid ones.
\<close>

type_synonym MutationType = string

definition MutationTypeAnnotation :: MutationType where
  "MutationTypeAnnotation = ''annotation''"

definition MutationTypeLabel :: MutationType where
  "MutationTypeLabel = ''label''"

definition MutationTypeResource :: MutationType where
  "MutationTypeResource = ''resource''"

definition MutationTypeManagedBy :: MutationType where
  "MutationTypeManagedBy = ''managedBy''"

definition MutationTypeMultiKueue :: MutationType where
  "MutationTypeMultiKueue = ''multiKueue''"

definition ValidTypes :: "MutationType list" where
  "ValidTypes = [MutationTypeAnnotation, MutationTypeLabel, MutationTypeResource,
                 MutationTypeManagedBy, MutationTypeMultiKueue]"

definition IsValid :: "MutationType \<Rightarrow> bool" where
  "IsValid mt = List.member ValidTypes mt"

record MutationRequest =
  Type :: MutationType
  Key :: string
  Value :: string

definition Validate :: "MutationRequest \<Rightarrow> go_error option" where
  "Validate mr =
     (if \<not> IsValid (Type mr) then Some (Errorf ''invalid mutation type: %v'' [ArgS (Type mr)])
      else if Key mr = [] then Some (Errorf ''mutation key cannot be empty'' [])
      else if Value mr = [] \<and> Type mr \<noteq> MutationTypeMultiKueue
        then Some (Errorf ''mutation value cannot be empty'' [])
      else if Type mr = MutationTypeManagedBy \<and> Key mr \<noteq> ''managedBy''
        then Some (Errorf ''managedBy mutation must use key %q, got %q''
                     [ArgS ''managedBy'', ArgS (Key mr)])
      else None)"

lemmas mutation_type_defs =
  MutationTypeAnnotation_def MutationTypeLabel_def MutationTypeResource_def
  MutationTypeManagedBy_def MutationTypeMultiKueue_def

lemma mutation_types_distinct [simp]:
  "MutationTypeAnnotation \<noteq> MutationTypeLabel" "MutationTypeLabel \<noteq> MutationTypeAnnotation"
  "MutationTypeAnnotation \<noteq> MutationTypeResource" "MutationTypeResource \<noteq> MutationTypeAnnotation"
  "MutationTypeAnnotation \<noteq> MutationTypeManagedBy" "MutationTypeManagedBy \<noteq> MutationTypeAnnotation"
  "MutationTypeAnnotation \<noteq> MutationTypeMultiKueue" "MutationTypeMultiKueue \<noteq> MutationTypeAnnotation"
  "MutationTypeLabel \<noteq> MutationTypeResource" "MutationTypeResource \<noteq> MutationTypeLabel"
  "MutationTypeLabel \<noteq> MutationTypeManagedBy" "MutationTypeManagedBy \<noteq> MutationTypeLabel"
  "MutationTypeLabel \<noteq> MutationTypeMultiKueue" "MutationTypeMultiKueue \<noteq> MutationTypeLabel"
  "MutationTypeResource \<noteq> MutationTypeManagedBy" "MutationTypeManagedBy \<noteq> MutationTypeResource"
  "MutationTypeResource \<noteq> MutationTypeMultiKueue" "MutationTypeMultiKueue \<noteq> MutationTypeResource"
  "MutationTypeManagedBy \<noteq> MutationTypeMultiKueue" "MutationTypeMultiKueue \<noteq> MutationTypeManagedBy"
  by (simp_all add: mutation_type_defs)

lemma IsValid_iff: "IsValid mt \<longleftrightarrow> mt \<in> set ValidTypes"
  by (simp add: IsValid_def)

lemma IsValid_constants [simp]:
  "IsValid MutationTypeAnnotation" "IsValid MutationTypeLabel" "IsValid MutationTypeResource"
  "IsValid MutationTypeManagedBy" "IsValid MutationTypeMultiKueue"
  by (simp_all add: IsValid_iff ValidTypes_def)

lemma IsValid_cases [consumes 1, case_names Annotation Label Resource ManagedBy MultiKueue]:
  assumes "IsValid mt"
  obtains "mt = MutationTypeAnnotation" | "mt = MutationTypeLabel" | "mt = MutationTypeResource"
    | "mt = MutationTypeManagedBy" | "mt = MutationTypeMultiKueue"
  using assms by (auto simp: IsValid_iff ValidTypes_def)

lemma Validate_None_iff:
  "Validate mr = None \<longleftrightarrow>
     IsValid (Type mr) \<and> Key mr \<noteq> [] \<and>
     (Value mr \<noteq> [] \<or> Type mr = MutationTypeMultiKueue) \<and>
     (Type mr = MutationTypeManagedBy \<longrightarrow> Key mr = ''managedBy'')"
  by (auto simp: Validate_def)

end
