(* ===== verification/GoStrings.thy ===== *)
theory GoStrings
  imports Prelude
begin

text \<open>
  The routines of Go's package \<^verbatim>\<open>strings\<close> that the repository calls: \<open>HasPrefix\<close>,
  \<open>CutPrefix\<close>, \<open>Join\<close>, \<open>ReplaceAll\<close> and \<open>TrimSpace\<close>, with the part of \<open>unicode/utf8\<close> they
  rest on.
\<close>

section \<open>Prefixes and joins\<close>

definition HasPrefix :: "string \<Rightarrow> string \<Rightarrow> bool" where
  "HasPrefix s pre = prefix pre s"

definition CutPrefix :: "string \<Rightarrow> string \<Rightarrow> string \<times> bool" where
  "CutPrefix s pre = (if HasPrefix s pre then (drop (length pre) s, True) else (s, False))"

fun Join :: "string list \<Rightarrow> string \<Rightarrow> string" where
  "Join [] sep = []"
| "Join [s] sep = s"
| "Join (s # ss) sep = s @ sep @ Join ss sep"

lemma HasPrefix_append [simp]: "HasPrefix (pre @ t) pre"
  by (simp add: HasPrefix_def)

lemma CutPrefix_True: "CutPrefix s pre = (t, True) \<longleftrightarrow> s = pre @ t"
  by (auto simp: CutPrefix_def HasPrefix_def prefix_def split: if_splits)

lemma CutPrefix_False: "CutPrefix s pre = (t, False) \<longleftrightarrow> t = s \<and> \<not> HasPrefix s pre"
  by (auto simp: CutPrefix_def)

lemma CutPrefix_append [simp]: "CutPrefix (pre @ t) pre = (t, True)"
  by (simp add: CutPrefix_True)


section \<open>UTF-8 code points\<close>

definition byte :: "char \<Rightarrow> nat" where
  "byte c = of_char c"

definition byte_at :: "string \<Rightarrow> nat \<Rightarrow> nat \<Rightarrow> nat \<Rightarrow> bool" where
  "byte_at s i lo hi \<longleftrightarrow> i < length s \<and> lo \<le> byte (s ! i) \<and> byte (s ! i) \<le> hi"

text \<open>
  The size that \<open>utf8.DecodeRuneInString\<close> reports: the length of a well-formed encoding at
  the front, one for a byte that starts none, zero at the end of the string.
\<close>

definition rune_size :: "string \<Rightarrow> nat" where
  "rune_size s =
     (if s = [] then 0
      else if byte_at s 0 0xC2 0xDF \<and> byte_at s 1 0x80 0xBF then 2
      else if (byte_at s 0 0xE0 0xE0 \<and> byte_at s 1 0xA0 0xBF
               \<or> byte_at s 0 0xE1 0xEC \<and> byte_at s 1 0x80 0xBF
               \<or> byte_at s 0 0xED 0xED \<and> byte_at s 1 0x80 0x9F
               \<or> byte_at s 0 0xEE 0xEF \<and> byte_at s 1 0x80 0xBF)
              \<and> byte_at s 2 0x80 0xBF then 3
      else if (byte_at s 0 0xF0 0xF0 \<and> byte_at s 1 0x90 0xBF
               \<or> byte_at s 0 0xF1 0xF3 \<and> byte_at s 1 0x80 0xBF
               \<or> byte_at s 0 0xF4 0xF4 \<and> byte_at s 1 0x80 0x8F)
              \<and> byte_at s 2 0x80 0xBF \<and> byte_at s 3 0x80 0xBF then 4
      else 1)"

lemma rune_size_pos: "s \<noteq> [] \<Longrightarrow> 0 < rune_size s"
  by (simp add: rune_size_def)

function explode_runes :: "string \<Rightarrow> string list" where
  "explode_runes s =
     (if s = [] then [] else take (rune_size s) s # explode_runes (drop (rune_size s) s))"
  by pat_completeness auto
termination
  by (relation "measure length") (auto simp: rune_size_pos)

declare explode_runes.simps [simp del]

lemma explode_runes_Nil [simp]: "explode_runes [] = []"
  by (simp add: explode_runes.simps)

lemma concat_explode_runes: "concat (explode_runes s) = s"
proof (induction s rule: explode_runes.induct)
  case (1 s)
  then show ?case
    by (cases "s = []") (auto simp: explode_runes.simps [of s])
qed


section \<open>ReplaceAll\<close>

text \<open>
  \<open>strings.ReplaceAll(s, old, new)\<close>: non-overlapping occurrences from the left. An empty
  \<open>old\<close> matches before every code point and at the end.
\<close>

function replace_scan :: "string \<Rightarrow> string \<Rightarrow> string \<Rightarrow> string" where
  "replace_scan old new [] = []"
| "replace_scan old new (c # cs) =
     (if old \<noteq> [] \<and> prefix old (c # cs)
      then new @ replace_scan old new (drop (length old) (c # cs))
      else c # replace_scan old new cs)"
  by pat_completeness auto
termination
  by (relation "measure (\<lambda>(old, new, s). length s)") auto

definition ReplaceAll :: "string \<Rightarrow> string \<Rightarrow> string \<Rightarrow> string" where
  "ReplaceAll s old new =
     (if old = new then s
      else if old = [] then new @ concat (map (\<lambda>r. r @ new) (explode_runes s))
      else replace_scan old new s)"

text \<open>Replacing one byte is a map over the bytes.\<close>

lemma replace_scan_single:
  "replace_scan [c] new s = concat (map (\<lambda>d. if d = c then new else [d]) s)"
  by (induction s) auto

lemma ReplaceAll_single:
  "ReplaceAll s [c] new = concat (map (\<lambda>d. if d = c then new else [d]) s)"
proof (cases "[c] = new")
  case True
  then have "concat (map (\<lambda>d. if d = c then new else [d]) s) = s"
    by (induction s) auto
  with True show ?thesis by (simp add: ReplaceAll_def)
next
  case False
  then show ?thesis by (simp add: ReplaceAll_def replace_scan_single)
qed

lemma set_ReplaceAll_single:
  "set (ReplaceAll s [c] new) = (set s - {c}) \<union> (if c \<in> set s then set new else {})"
  by (auto simp: ReplaceAll_single split: if_splits)

text \<open>A string with no occurrence of a non-empty \<open>old\<close> is returned as it is.\<close>

lemma replace_scan_absent:
  "(\<And>pre suf. s \<noteq> pre @ old @ suf) \<Longrightarrow> replace_scan old new s = s"
proof (induction old new s rule: replace_scan.induct)
  case (1 old new)
  then show ?case by simp
next
  case (2 old new c cs)
  have "\<not> prefix old (c # cs)"
    using "2.prems" [of "[]"] by (auto simp: prefix_def)
  moreover have "cs \<noteq> pre @ old @ suf" for pre suf
    using "2.prems" [of "c # pre" suf] by simp
  ultimately show ?case using "2.IH"(2) by simp
qed


section \<open>TrimSpace\<close>

text \<open>
  \<open>strings.TrimSpace\<close> removes leading and trailing white space as \<open>unicode.IsSpace\<close> defines
  it: the six ASCII characters and the encodings of U+0085, U+00A0, U+1680, U+2000 to
  U+200A, U+2028, U+2029, U+202F, U+205F and U+3000.
\<close>

definition space_encodings :: "string list" where
  "space_encodings =
     map (map char_of)
       ([[9], [10], [11], [12], [13], [32], [0xC2, 0x85], [0xC2, 0xA0], [0xE1, 0x9A, 0x80]]
        @ map (\<lambda>b. [0xE2, 0x80, b])
            [0x80, 0x81, 0x82, 0x83, 0x84, 0x85, 0x86, 0x87, 0x88, 0x89, 0x8A, 0xA8, 0xA9, 0xAF]
        @ [[0xE2, 0x81, 0x9F], [0xE3, 0x80, 0x80 :: nat]])"

definition leading_space :: "string list \<Rightarrow> string \<Rightarrow> nat" where
  "leading_space encs s =
     (case find (\<lambda>e. e \<noteq> [] \<and> prefix e s) encs of None \<Rightarrow> 0 | Some e \<Rightarrow> length e)"

lemma leading_space_le: "leading_space encs s \<le> length s"
  by (auto simp: leading_space_def find_Some_iff dest: prefix_length_le split: option.splits)

function trim_front :: "string list \<Rightarrow> string \<Rightarrow> string" where
  "trim_front encs s =
     (if leading_space encs s = 0 then s else trim_front encs (drop (leading_space encs s) s))"
  by pat_completeness auto
termination
proof (relation "measure (\<lambda>(encs, s). length s)", goal_cases)
  case (2 encs s)
  then show ?case using leading_space_le [of encs s] by auto
qed simp

declare trim_front.simps [simp del]

definition TrimLeft_space :: "string \<Rightarrow> string" where
  "TrimLeft_space s = trim_front space_encodings s"

definition TrimRight_space :: "string \<Rightarrow> string" where
  "TrimRight_space s = rev (trim_front (map rev space_encodings) (rev s))"

definition TrimSpace :: "string \<Rightarrow> string" where
  "TrimSpace s = TrimRight_space (TrimLeft_space s)"

lemma trim_front_suffix: "suffix (trim_front encs s) s"
proof (induction encs s rule: trim_front.induct)
  case (1 encs s)
  then show ?case
    by (cases "leading_space encs s = 0")
      (auto simp: trim_front.simps [of encs s] intro: suffix_order.trans suffix_drop)
qed

lemma trim_front_done: "leading_space encs (trim_front encs s) = 0"
proof (induction encs s rule: trim_front.induct)
  case (1 encs s)
  then show ?case
    by (cases "leading_space encs s = 0") (auto simp: trim_front.simps [of encs s])
qed

lemma trim_front_stop: "leading_space encs s = 0 \<Longrightarrow> trim_front encs s = s"
  by (simp add: trim_front.simps)

text \<open>
  \<open>TrimSpace\<close> removes white space only, and all of it: the string is the result between two
  runs of space characters, and the result neither starts nor ends with one.
\<close>

lemma leading_space_0_iff:
  "leading_space encs s = 0 \<longleftrightarrow> (\<forall>e \<in> set encs. e \<noteq> [] \<longrightarrow> \<not> prefix e s)"
  by (auto simp: leading_space_def find_None_iff find_Some_iff split: option.splits)

lemma trim_front_split:
  "\<exists>ws. s = concat ws @ trim_front encs s \<and> set ws \<subseteq> set encs"
proof (induction encs s rule: trim_front.induct)
  case (1 encs s)
  show ?case
  proof (cases "leading_space encs s = 0")
    case True
    then show ?thesis by (intro exI [of _ "[]"]) (simp add: trim_front_stop)
  next
    case False
    then obtain e where e: "e \<in> set encs" "prefix e s" "leading_space encs s = length e"
      by (auto simp: leading_space_def find_Some_iff split: option.splits) (metis nth_mem)
    from "1.IH" [OF False] obtain ws where ws: "set ws \<subseteq> set encs"
      "drop (leading_space encs s) s = concat ws @ trim_front encs (drop (leading_space encs s) s)"
      by blast
    have "s = e @ drop (leading_space encs s) s" using e by (auto simp: prefix_def)
    with False ws e(1) show ?thesis
      by (intro exI [of _ "e # ws"]) (simp add: trim_front.simps [of encs s])
  qed
qed

lemma concat_map_rev: "rev (concat ws) = concat (map rev (rev ws))"
  by (simp add: rev_concat rev_map)

lemma space_encodings_nonempty: "e \<in> set space_encodings \<Longrightarrow> e \<noteq> []"
  by (auto simp: space_encodings_def)

lemma TrimLeft_space_front:
  "e \<in> set space_encodings \<Longrightarrow> \<not> prefix e (TrimLeft_space s)"
  using trim_front_done [of space_encodings s] space_encodings_nonempty
  by (auto simp: TrimLeft_space_def leading_space_0_iff)

lemma TrimRight_space_split:
  "\<exists>ws. s = TrimRight_space s @ concat ws \<and> set ws \<subseteq> set space_encodings"
proof -
  obtain ws where ws: "rev s = concat ws @ trim_front (map rev space_encodings) (rev s)"
    "set ws \<subseteq> set (map rev space_encodings)"
    using trim_front_split by blast
  from arg_cong [OF ws(1), of rev] have "s = TrimRight_space s @ concat (map rev (rev ws))"
    by (simp add: TrimRight_space_def concat_map_rev)
  moreover have "set (map rev (rev ws)) \<subseteq> set space_encodings" using ws(2) by auto
  ultimately show ?thesis by blast
qed

lemma TrimRight_space_back:
  assumes "e \<in> set space_encodings"
  shows "\<not> suffix e (TrimRight_space s)"
proof -
  have "\<forall>e \<in> set (map rev space_encodings). e \<noteq> [] \<longrightarrow>
      \<not> prefix e (trim_front (map rev space_encodings) (rev s))"
    using trim_front_done by (simp only: leading_space_0_iff [symmetric])
  with assms space_encodings_nonempty show ?thesis
    by (auto simp: TrimRight_space_def suffix_to_prefix)
qed

lemma TrimSpace_spec:
  "(\<exists>ws ws'. s = concat ws @ TrimSpace s @ concat ws' \<and>
      set ws \<subseteq> set space_encodings \<and> set ws' \<subseteq> set space_encodings) \<and>
   (\<forall>e \<in> set space_encodings. \<not> prefix e (TrimSpace s) \<and> \<not> suffix e (TrimSpace s))"
proof
  obtain ws where "s = concat ws @ TrimLeft_space s" "set ws \<subseteq> set space_encodings"
    using trim_front_split [of s space_encodings] by (auto simp: TrimLeft_space_def)
  moreover obtain ws' where right: "TrimLeft_space s = TrimSpace s @ concat ws'"
    and "set ws' \<subseteq> set space_encodings"
    using TrimRight_space_split [of "TrimLeft_space s"] by (auto simp: TrimSpace_def)
  ultimately show "\<exists>ws ws'. s = concat ws @ TrimSpace s @ concat ws' \<and>
      set ws \<subseteq> set space_encodings \<and> set ws' \<subseteq> set space_encodings" by metis
  have "\<not> prefix e (TrimSpace s)" if "e \<in> set space_encodings" for e
    using TrimLeft_space_front [OF that, of s] right by (metis prefix_prefix)
  then show "\<forall>e \<in> set space_encodings. \<not> prefix e (TrimSpace s) \<and> \<not> suffix e (TrimSpace s)"
    using TrimRight_space_back by (simp add: TrimSpace_def)
qed

end
