(* ===== verification/GoStrconv.thy ===== *)
theory GoStrconv
  imports Prelude
begin

text \<open>
  Decimal conversion of Go's 64-bit \<open>int\<close>: \<open>strconv.Itoa\<close> (and \<open>fmt.Sprintf("%d", i)\<close>),
  \<open>strconv.Atoi\<close> with its two errors, and the round trip between them.
\<close>

section \<open>Printing\<close>

definition digit_char :: "nat \<Rightarrow> char" where
  "digit_char d = char_of (48 + d)"

fun decimal :: "nat \<Rightarrow> string" where
  "decimal n = (if n < 10 then [digit_char n] else decimal (n div 10) @ [digit_char (n mod 10)])"

declare decimal.simps [simp del]

definition format_int :: "int \<Rightarrow> string" where
  "format_int i = (if i < 0 then CHR ''-'' # decimal (nat (- i)) else decimal (nat i))"

definition Itoa :: "int64 \<Rightarrow> string" where
  "Itoa w = format_int (sint w)"


section \<open>Parsing\<close>

definition is_digit :: "char \<Rightarrow> bool" where
  "is_digit c \<longleftrightarrow> 48 \<le> (of_char c :: nat) \<and> (of_char c :: nat) \<le> 57"

definition digit_val :: "char \<Rightarrow> nat" where
  "digit_val c = of_char c - 48"

text \<open>
  The digit loop of \<open>strconv.ParseUint\<close> at base ten and 64 bits: a byte that is no digit is
  a syntax error, and a value past the largest \<open>uint64\<close> is a range error at once.
\<close>

fun parse_digits :: "nat \<Rightarrow> string \<Rightarrow> num_err + nat" where
  "parse_digits n [] = Inr n"
| "parse_digits n (c # cs) =
     (if \<not> is_digit c then Inl ErrSyntax
      else let n' = n * 10 + digit_val c
           in if 2 ^ 64 \<le> n' then Inl ErrRange else parse_digits n' cs)"

text \<open>
  \<open>strconv.Atoi\<close>: an optional sign, at least one digit, and a value of the \<open>int\<close> range.
\<close>

definition split_sign :: "string \<Rightarrow> bool \<times> string" where
  "split_sign s = (case s of [] \<Rightarrow> (False, [])
     | c # cs \<Rightarrow> if c = CHR ''-'' then (True, cs)
                else if c = CHR ''+'' then (False, cs) else (False, s))"

definition Atoi :: "string \<Rightarrow> int64 result" where
  "Atoi s =
     (let (neg, ds) = split_sign s in
      if ds = [] then Inl (NumError ''Atoi'' s ErrSyntax)
      else case parse_digits 0 ds of
             Inl e \<Rightarrow> Inl (NumError ''Atoi'' s e)
           | Inr n \<Rightarrow>
               if \<not> neg \<and> 2 ^ 63 \<le> n \<or> neg \<and> 2 ^ 63 < n
               then Inl (NumError ''Atoi'' s ErrRange)
               else Inr (word_of_int (if neg then - int n else int n)))"


section \<open>The round trip\<close>

lemma digit_char_props:
  "d < 10 \<Longrightarrow> is_digit (digit_char d)" "d < 10 \<Longrightarrow> digit_val (digit_char d) = d"
  by (simp_all add: is_digit_def digit_char_def digit_val_def)

lemma parse_digits_append:
  "parse_digits n (xs @ ys) =
     (case parse_digits n xs of Inl e \<Rightarrow> Inl e | Inr m \<Rightarrow> parse_digits m ys)"
  by (induction n xs rule: parse_digits.induct) (auto simp: Let_def)

lemma parse_digits_decimal: "n < 2 ^ 64 \<Longrightarrow> parse_digits 0 (decimal n) = Inr n"
proof (induction n rule: decimal.induct)
  case (1 n)
  show ?case
  proof (cases "n < 10")
    case True
    with "1.prems" show ?thesis
      by (simp add: decimal.simps [of n] digit_char_props)
  next
    case False
    have "n div 10 < 2 ^ 64" using "1.prems" by simp
    with False "1.IH" have ih: "parse_digits 0 (decimal (n div 10)) = Inr (n div 10)"
      by simp
    from False "1.prems" show ?thesis
      by (simp add: decimal.simps [of n] parse_digits_append ih digit_char_props)
  qed
qed

lemma decimal_digits: "c \<in> set (decimal n) \<Longrightarrow> is_digit c"
proof (induction n rule: decimal.induct)
  case (1 n)
  then show ?case
    by (auto simp: decimal.simps [of n] digit_char_props split: if_splits)
qed

lemma decimal_nonempty [simp]: "decimal n \<noteq> []" "[] \<noteq> decimal n"
  by (subst decimal.simps; simp)+

lemma length_decimal: "n < 10 ^ d \<Longrightarrow> 0 < d \<Longrightarrow> length (decimal n) \<le> d"
proof (induction n arbitrary: d rule: decimal.induct)
  case (1 n)
  show ?case
  proof (cases "n < 10")
    case True
    with "1.prems" show ?thesis by (simp add: decimal.simps [of n])
  next
    case False
    with "1.prems" obtain d' where d: "d = Suc d'" "0 < d'"
      by (cases d; cases "d - 1") auto
    with "1.prems" have "n div 10 < 10 ^ d'" by simp
    from "1.IH" [OF False this d(2)] False d show ?thesis
      by (simp add: decimal.simps [of n])
  qed
qed

lemma not_digit_sign: "\<not> is_digit (CHR ''-'')" "\<not> is_digit (CHR ''+'')"
  by (simp_all add: is_digit_def)

lemma split_sign_decimal: "split_sign (decimal n) = (False, decimal n)"
proof (cases "decimal n")
  case (Cons c cs)
  then have "is_digit c" by (metis decimal_digits list.set_intros(1))
  with Cons not_digit_sign show ?thesis by (auto simp: split_sign_def)
qed simp

lemma split_sign_minus [simp]: "split_sign (CHR ''-'' # ds) = (True, ds)"
  by (simp add: split_sign_def)

lemma format_int_nonempty [simp]: "format_int i \<noteq> []" "[] \<noteq> format_int i"
  by (simp_all add: format_int_def)

lemma Itoa_nonempty [simp]: "Itoa w \<noteq> []"
  by (simp add: Itoa_def)

lemma sint_bounds: "- (2 ^ 63) \<le> sint (w :: int64)" "sint (w :: int64) < 2 ^ 63"
  using sint_ge [of w] sint_lt [of w] by simp_all

lemma Atoi_format_int:
  assumes "- (2 ^ 63) \<le> i" "i < 2 ^ 63"
  shows "Atoi (format_int i) = Inr (word_of_int i)"
proof (cases "i < 0")
  case True
  have "parse_digits 0 (decimal (nat (- i))) = Inr (nat (- i))"
    using assms by (intro parse_digits_decimal) simp
  with True assms show ?thesis by (simp add: Atoi_def format_int_def)
next
  case False
  have "parse_digits 0 (decimal (nat i)) = Inr (nat i)"
    using assms by (intro parse_digits_decimal) simp
  with False assms show ?thesis
    by (simp add: Atoi_def format_int_def split_sign_decimal)
qed

lemma length_format_int:
  assumes "0 \<le> i" "i < 2 ^ 63"
  shows "length (format_int i) \<le> 19"
proof -
  have "nat i < 10 ^ 19" using assms by simp
  from length_decimal [OF this] assms show ?thesis by (simp add: format_int_def)
qed

lemma sint_of_int64: "- (2 ^ 63) \<le> i \<Longrightarrow> i < 2 ^ 63 \<Longrightarrow> sint (word_of_int i :: int64) = i"
  by (simp add: sint_sbintrunc' signed_take_bit_int_eq_self)

lemma Atoi_Itoa [simp]: "Atoi (Itoa w) = Inr w"
  unfolding Itoa_def using Atoi_format_int [OF sint_bounds] by simp

lemma Itoa_inject [simp]: "Itoa v = Itoa w \<longleftrightarrow> v = w"
  by (metis Atoi_Itoa sum.inject(2))

text \<open>The sum of two non-negative \<open>int\<close> values: exact, or wrapped to a negative value.\<close>

lemma sint_add_nonneg:
  assumes "0 \<le> sint (a :: int64)" "0 \<le> sint b"
  shows "sint (a + b) = (if sint a + sint b < 2 ^ 63 then sint a + sint b
                         else sint a + sint b - 2 ^ 64)"
proof -
  have sum: "sint (a + b) = (sint a + sint b + 2 ^ 63) mod 2 ^ 64 - 2 ^ 63"
    by (simp add: sint_word_add signed_take_bit_eq_take_bit_shift take_bit_eq_mod)
  show ?thesis
  proof (cases "sint a + sint b < 2 ^ 63")
    case True
    with assms show ?thesis by (simp add: sum mod_pos_pos_trivial)
  next
    case False
    have "(sint a + sint b + 2 ^ 63) mod 2 ^ 64 = (sint a + sint b + 2 ^ 63 - 2 ^ 64) mod 2 ^ 64"
      by (simp only: minus_mod_self2)
    also have "\<dots> = sint a + sint b + 2 ^ 63 - 2 ^ 64"
      using False sint_bounds(2) [of a] sint_bounds(2) [of b] by (intro mod_pos_pos_trivial) simp_all
    finally show ?thesis using False by (simp add: sum)
  qed
qed

end
