(* ===== verification/CelCompiler.thy ===== *)
theory CelCompiler
  imports MutationTypes GoStrings GoStrconv
begin

text \<open>
  \<^verbatim>\<open>internal/cel/compiler.go\<close>: the CEL environment with the mutation functions that an
  expression may call, their validation of keys and values, the check of an expression's
  output type, and the compilation of a list of expressions.

  The CEL library itself and the Kubernetes name validation are not part of the repository:
  they are the parameters \<open>cel_go\<close> and \<open>validation\<close>, records of the functions the code calls.
\<close>

section \<open>Go values, CEL values and CEL types\<close>

text \<open>
  \<open>goval\<close> is a Go value of static type \<open>interface{}\<close>, split by the dynamic types that the
  type switches of the package tell apart; \<open>GoOther\<close> is any other dynamic type, with the
  name that \<open>%T\<close> prints. \<open>refval\<close> is CEL's \<open>ref.Val\<close>: a value with its native Go value,
  or an error made by \<open>types.NewErr\<close>.
\<close>

datatype goval =
    GoString string
  | GoInt64 int64
  | GoSlice "goval list"
  | GoRefSlice "refval list"
  | GoStringMap "string \<Rightarrow> goval option"
  | GoOther string
and refval =
    RefVal goval
  | NewErr string "arg list"

fun native :: "refval \<Rightarrow> goval" where
  "native (RefVal v) = v"
| "native (NewErr f as) = GoOther ''*errors.errorString''"

definition is_Err :: "refval \<Rightarrow> bool" where
  "is_Err v = (case v of RefVal _ \<Rightarrow> False | NewErr _ _ \<Rightarrow> True)"

fun as_string :: "goval \<Rightarrow> string option" where
  "as_string (GoString s) = Some s"
| "as_string _ = None"

fun as_int64 :: "goval \<Rightarrow> int64 option" where
  "as_int64 (GoInt64 i) = Some i"
| "as_int64 _ = None"

fun typeName :: "goval \<Rightarrow> string" where
  "typeName (GoString _) = ''string''"
| "typeName (GoInt64 _) = ''int64''"
| "typeName (GoSlice _) = ''[]interface {}''"
| "typeName (GoRefSlice _) = ''[]ref.Val''"
| "typeName (GoStringMap _) = ''map[string]interface {}''"
| "typeName (GoOther t) = t"

text \<open>
  A CEL type as its constructors build it: only \<open>MapType\<close> and \<open>ListType\<close> have the kinds
  \<open>MapKind\<close> and \<open>ListKind\<close>, and their \<open>Parameters\<close> are never empty.
\<close>

datatype celType =
    StringType
  | IntType
  | AnyType
  | MapType celType celType
  | ListType celType
  | OtherType string

datatype celKind = StringKind | IntKind | AnyKind | MapKind | ListKind | OtherKind

fun Kind :: "celType \<Rightarrow> celKind" where
  "Kind StringType = StringKind"
| "Kind IntType = IntKind"
| "Kind AnyType = AnyKind"
| "Kind (MapType _ _) = MapKind"
| "Kind (ListType _) = ListKind"
| "Kind (OtherType _) = OtherKind"

fun Parameters :: "celType \<Rightarrow> celType list" where
  "Parameters (MapType k v) = [k, v]"
| "Parameters (ListType e) = [e]"
| "Parameters _ = []"

datatype binding =
    UnaryBinding "refval \<Rightarrow> refval"
  | BinaryBinding "refval \<Rightarrow> refval \<Rightarrow> refval"
  | FunctionBinding "refval list \<Rightarrow> refval"

record overload =
  overloadId :: string
  argTypes :: "celType list"
  resultType :: celType
  overloadBinding :: binding

datatype envOption =
    Variable string celType
  | Function string "overload list"
  | StdLib


section \<open>The libraries the compiler calls\<close>

text \<open>\<open>k8s.io/apimachinery/pkg/util/validation\<close>: the list of complaints, empty when valid.\<close>

record validation =
  IsQualifiedName :: "string \<Rightarrow> string list"
  IsValidLabelValue :: "string \<Rightarrow> string list"

text \<open>
  \<open>cel-go\<close>: building an environment, compiling an expression in it, the output type of a
  checked expression with the text \<open>%v\<close> prints for it, and the program made from it. A program maps the variables of an
  evaluation to a value or an error.
\<close>

type_synonym activation = "string \<Rightarrow> goval option"
type_synonym celProgram = "activation \<Rightarrow> refval result"

record ('env, 'ast) cel_go =
  NewEnv :: "envOption list \<Rightarrow> 'env result"
  Compile :: "'env \<Rightarrow> string \<Rightarrow> 'ast result"
  OutputType :: "'ast \<Rightarrow> celType"
  TypeString :: "celType \<Rightarrow> string"
  Program :: "'env \<Rightarrow> 'ast \<Rightarrow> celProgram result"

record 'ast CompiledProgram =
  program :: celProgram
  ast :: 'ast
  expression :: string


section \<open>Validation of keys and values\<close>

definition maxAnnotationValueSize :: nat where
  "maxAnnotationValueSize = 256 * 1024"

definition validateKey :: "validation \<Rightarrow> string \<Rightarrow> string \<Rightarrow> go_error option" where
  "validateKey V key keyType =
     (if key = [] then Some (Errorf ''%s key cannot be empty'' [ArgS keyType])
      else let errs = IsQualifiedName V key in
        if errs \<noteq> [] then
          Some (Errorf ''%s key '%s' is invalid: %s''
                  [ArgS keyType, ArgS key, ArgS (Join errs '', '')])
        else None)"

definition validateLabelValue :: "validation \<Rightarrow> string \<Rightarrow> go_error option" where
  "validateLabelValue V value =
     (let errs = IsValidLabelValue V value in
      if errs \<noteq> [] then
        Some (Errorf ''label value '%s' is invalid: %s'' [ArgS value, ArgS (Join errs '', '')])
      else None)"

definition validateAnnotationValue :: "string \<Rightarrow> go_error option" where
  "validateAnnotationValue value =
     (if length value > maxAnnotationValueSize then
        Some (Errorf ''annotation value is too long: %d bytes, maximum allowed is %d bytes''
                [ArgI (int (length value)), ArgI (int maxAnnotationValueSize)])
      else None)"


section \<open>The mutation functions\<close>

text \<open>The \<open>map[string]interface{}\<close> in which a function returns its mutation request.\<close>

definition mutationMap :: "MutationType \<Rightarrow> string \<Rightarrow> string \<Rightarrow> refval" where
  "mutationMap t k v =
     RefVal (GoStringMap [''type'' \<mapsto> GoString t, ''key'' \<mapsto> GoString k, ''value'' \<mapsto> GoString v])"

definition mutationKeyErr :: "validation \<Rightarrow> MutationType \<Rightarrow> string \<Rightarrow> go_error option" where
  "mutationKeyErr V mutationType key =
     (if mutationType = MutationTypeAnnotation then validateKey V key ''annotation''
      else if mutationType = MutationTypeLabel then validateKey V key ''label''
      else None)"

definition mutationValueErr :: "validation \<Rightarrow> MutationType \<Rightarrow> string \<Rightarrow> go_error option" where
  "mutationValueErr V mutationType value =
     (if mutationType = MutationTypeAnnotation then validateAnnotationValue value
      else if mutationType = MutationTypeLabel then validateLabelValue V value
      else None)"

definition mutationBinding ::
    "validation \<Rightarrow> string \<Rightarrow> MutationType \<Rightarrow> refval \<Rightarrow> refval \<Rightarrow> refval" where
  "mutationBinding V name mutationType lhs rhs =
     (case (as_string (native lhs), as_string (native rhs)) of
        (Some key, Some value) \<Rightarrow>
          (if key = [] then NewErr ''%s key cannot be empty'' [ArgS name]
           else case mutationKeyErr V mutationType key of
             Some err \<Rightarrow> NewErr ''%s key validation failed: %v'' [ArgS name, ArgE err]
           | None \<Rightarrow>
               (case mutationValueErr V mutationType value of
                  Some err \<Rightarrow> NewErr ''%s value validation failed: %v'' [ArgS name, ArgE err]
                | None \<Rightarrow> mutationMap mutationType key value))
      | _ \<Rightarrow> NewErr ''%s function requires string arguments'' [ArgS name])"

definition createMutationFunction ::
    "validation \<Rightarrow> string \<Rightarrow> MutationType \<Rightarrow> celType \<Rightarrow> envOption" where
  "createMutationFunction V name mutationType returnType =
     Function name
       [\<lparr>overloadId = name @ ''_string_string_to_mutation'',
         argTypes = [StringType, StringType], resultType = returnType,
         overloadBinding = BinaryBinding (mutationBinding V name mutationType)\<rparr>]"

definition resourceKeyPrefix :: string where
  "resourceKeyPrefix = ''kueue.konflux-ci.dev/requests-''"

definition resourceBinding ::
    "validation \<Rightarrow> string \<Rightarrow> MutationType \<Rightarrow> refval \<Rightarrow> refval \<Rightarrow> refval" where
  "resourceBinding V name mutationType lhs rhs =
     (case as_string (native lhs) of
        None \<Rightarrow> NewErr ''%s function requires string key argument'' [ArgS name]
      | Some key \<Rightarrow>
          (if key = [] then NewErr ''%s key cannot be empty'' [ArgS name]
           else case as_int64 (native rhs) of
             None \<Rightarrow> NewErr ''%s function requires int value argument'' [ArgS name]
           | Some intValue \<Rightarrow>
               (if sint intValue < 0 then
                  NewErr ''%s value must be positive (>= 0), got %d''
                    [ArgS name, ArgI (sint intValue)]
                else let value = format_int (sint intValue) in
                  (case validateKey V key ''resource annotation'' of
                     Some err \<Rightarrow> NewErr ''%s key validation failed: %v'' [ArgS name, ArgE err]
                   | None \<Rightarrow>
                       (case validateAnnotationValue value of
                          Some err \<Rightarrow> NewErr ''%s value validation failed: %v'' [ArgS name, ArgE err]
                        | None \<Rightarrow> mutationMap mutationType (resourceKeyPrefix @ key) value)))))"

definition createResourceMutationFunction ::
    "validation \<Rightarrow> string \<Rightarrow> MutationType \<Rightarrow> celType \<Rightarrow> envOption" where
  "createResourceMutationFunction V name mutationType returnType =
     Function name
       [\<lparr>overloadId = name @ ''_string_int_to_mutation'',
         argTypes = [StringType, IntType], resultType = returnType,
         overloadBinding = BinaryBinding (resourceBinding V name mutationType)\<rparr>]"

definition priorityKey :: string where
  "priorityKey = ''kueue.x-k8s.io/priority-class''"

definition priorityBinding :: "string \<Rightarrow> refval \<Rightarrow> refval" where
  "priorityBinding name val =
     (case as_string (native val) of
        None \<Rightarrow> NewErr ''%s function requires string argument'' [ArgS name]
      | Some value \<Rightarrow> mutationMap MutationTypeLabel priorityKey value)"

definition createPriorityMutationFunction :: "string \<Rightarrow> celType \<Rightarrow> envOption" where
  "createPriorityMutationFunction name returnType =
     Function name
       [\<lparr>overloadId = name @ ''_string_to_mutation'',
         argTypes = [StringType], resultType = returnType,
         overloadBinding = UnaryBinding (priorityBinding name)\<rparr>]"

definition managedByBinding :: "string \<Rightarrow> refval \<Rightarrow> refval" where
  "managedByBinding name val =
     (case as_string (native val) of
        None \<Rightarrow> NewErr ''%s function requires string argument'' [ArgS name]
      | Some value \<Rightarrow>
          (if value = [] then NewErr ''%s value cannot be empty'' [ArgS name]
           else mutationMap MutationTypeManagedBy ''managedBy'' value))"

definition createManagedByFunction :: "string \<Rightarrow> celType \<Rightarrow> envOption" where
  "createManagedByFunction name returnType =
     Function name
       [\<lparr>overloadId = name @ ''_string_to_mutation'',
         argTypes = [StringType], resultType = returnType,
         overloadBinding = UnaryBinding (managedByBinding name)\<rparr>]"

definition multiKueueBinding0 :: "refval list \<Rightarrow> refval" where
  "multiKueueBinding0 args = mutationMap MutationTypeMultiKueue ''managedBy'' []"

definition multiKueueBinding1 :: "validation \<Rightarrow> string \<Rightarrow> refval \<Rightarrow> refval" where
  "multiKueueBinding1 V name val =
     (case as_string (native val) of
        None \<Rightarrow> NewErr ''%s function requires string argument for queue name'' [ArgS name]
      | Some queueName \<Rightarrow>
          (if queueName = [] then NewErr ''%s queue name cannot be empty'' [ArgS name]
           else case validateLabelValue V queueName of
             Some err \<Rightarrow> NewErr ''%s queue name validation failed: %v'' [ArgS name, ArgE err]
           | None \<Rightarrow> mutationMap MutationTypeMultiKueue ''managedBy'' queueName))"

definition createMultiKueueFunction :: "validation \<Rightarrow> string \<Rightarrow> celType \<Rightarrow> envOption" where
  "createMultiKueueFunction V name returnType =
     Function name
       [\<lparr>overloadId = name @ ''_to_mutation'', argTypes = [], resultType = returnType,
         overloadBinding = FunctionBinding multiKueueBinding0\<rparr>,
        \<lparr>overloadId = name @ ''_string_to_mutation'',
         argTypes = [StringType], resultType = returnType,
         overloadBinding = UnaryBinding (multiKueueBinding1 V name)\<rparr>]"

definition replaceBinding :: "string \<Rightarrow> refval list \<Rightarrow> refval" where
  "replaceBinding name args =
     (case args of
        [a, b, c] \<Rightarrow>
          (case (as_string (native a), as_string (native b), as_string (native c)) of
             (Some source, Some search, Some replacement) \<Rightarrow>
               RefVal (GoString (ReplaceAll source search replacement))
           | _ \<Rightarrow> NewErr ''%s function requires string arguments'' [ArgS name])
      | _ \<Rightarrow> NewErr ''%s function requires exactly 3 arguments'' [ArgS name])"

definition createReplaceFunction :: "string \<Rightarrow> envOption" where
  "createReplaceFunction name =
     Function name
       [\<lparr>overloadId = name @ ''_string_string_string_to_string'',
         argTypes = [StringType, StringType, StringType], resultType = StringType,
         overloadBinding = FunctionBinding (replaceBinding name)\<rparr>]"


section \<open>The environment and the compiler\<close>

definition mutationRequestType :: celType where
  "mutationRequestType = MapType StringType AnyType"

definition envOptions :: "validation \<Rightarrow> envOption list" where
  "envOptions V =
     [Variable ''pipelineRun'' (MapType StringType AnyType),
      Variable ''plrNamespace'' StringType,
      Variable ''pacEventType'' StringType,
      Variable ''pacTestEventType'' StringType,
      createMutationFunction V ''annotation'' MutationTypeAnnotation mutationRequestType,
      createMutationFunction V ''label'' MutationTypeLabel mutationRequestType,
      createResourceMutationFunction V ''resource'' MutationTypeResource mutationRequestType,
      createPriorityMutationFunction ''priority'' mutationRequestType,
      createManagedByFunction ''managedBy'' mutationRequestType,
      createMultiKueueFunction V ''multiKueue'' mutationRequestType,
      createReplaceFunction ''replace'',
      StdLib]"

definition createCELEnvironment ::
    "('env, 'ast) cel_go \<Rightarrow> validation \<Rightarrow> 'env result" where
  "createCELEnvironment C V =
     (case NewEnv C (envOptions V) of
        Inl err \<Rightarrow> Inl (Errorf ''failed to create type-safe CEL environment: %w'' [ArgW err])
      | Inr env \<Rightarrow> Inr env)"

definition isValidOutputType :: "celType \<Rightarrow> bool" where
  "isValidOutputType outputType =
     (case Kind outputType of
        MapKind \<Rightarrow> Kind (Parameters outputType ! 0) = StringKind
      | ListKind \<Rightarrow>
          (let elementType = Parameters outputType ! 0 in
           Kind elementType = MapKind \<and> Kind (Parameters elementType ! 0) = StringKind)
      | _ \<Rightarrow> False)"

definition validateExpressionReturnType ::
    "('env, 'ast) cel_go \<Rightarrow> 'ast \<Rightarrow> go_error option" where
  "validateExpressionReturnType C a =
     (if \<not> isValidOutputType (OutputType C a) then
        Some (Errorf ''expression must return MutationRequest-compatible map<string, any> or list<map<string, any>>, got %v''
                [ArgS (TypeString C (OutputType C a))])
      else None)"

definition compileSingleExpression ::
    "('env, 'ast) cel_go \<Rightarrow> 'env \<Rightarrow> string \<Rightarrow> 'ast CompiledProgram result" where
  "compileSingleExpression C env expr =
     (case Compile C env expr of
        Inl issues \<Rightarrow>
          Inl (Errorf ''type checking failed for expression %q: %w'' [ArgS expr, ArgW issues])
      | Inr a \<Rightarrow>
          (case validateExpressionReturnType C a of
             Some err \<Rightarrow>
               Inl (Errorf ''invalid return type for expression %q: %w'' [ArgS expr, ArgW err])
           | None \<Rightarrow>
               (case Program C env a of
                  Inl err \<Rightarrow>
                    Inl (Errorf ''program creation failed for expression %q: %w''
                           [ArgS expr, ArgW err])
                | Inr prog \<Rightarrow> Inr \<lparr>program = prog, ast = a, expression = expr\<rparr>)))"

text \<open>The loop over the expressions, with the index of the next one and the programs so far.\<close>

fun compileLoop ::
    "('env, 'ast) cel_go \<Rightarrow> 'env \<Rightarrow> nat \<Rightarrow> 'ast CompiledProgram list \<Rightarrow> string list
       \<Rightarrow> 'ast CompiledProgram list result" where
  "compileLoop C env i programs [] = Inr programs"
| "compileLoop C env i programs (expr # exprs) =
     (if expr = [] then Inl (Errorf ''expression %d cannot be empty'' [ArgI (int i)])
      else case compileSingleExpression C env expr of
        Inl err \<Rightarrow>
          Inl (Errorf ''failed to compile expression %d (%q): %w''
                 [ArgI (int i), ArgS expr, ArgW err])
      | Inr p \<Rightarrow> compileLoop C env (Suc i) (programs @ [p]) exprs)"

definition CompileCELPrograms ::
    "('env, 'ast) cel_go \<Rightarrow> validation \<Rightarrow> string list \<Rightarrow> 'ast CompiledProgram list result" where
  "CompileCELPrograms C V expressions =
     (if length expressions = 0 then Inl (Errorf ''expressions list cannot be empty'' [])
      else case createCELEnvironment C V of
        Inl err \<Rightarrow> Inl (Errorf ''failed to create CEL environment: %w'' [ArgW err])
      | Inr env \<Rightarrow> compileLoop C env 0 [] expressions)"


section \<open>What the functions return\<close>

lemma is_Err_simps [simp]: "\<not> is_Err (RefVal v)" "is_Err (NewErr f as)"
  by (simp_all add: is_Err_def)

lemma not_is_Err_mutationMap [simp]: "\<not> is_Err (mutationMap t k v)"
  by (simp add: mutationMap_def)

lemma as_string_Some [simp]: "as_string v = Some s \<longleftrightarrow> v = GoString s"
  by (cases v) auto

lemma as_int64_Some [simp]: "as_int64 v = Some i \<longleftrightarrow> v = GoInt64 i"
  by (cases v) auto

text \<open>
  The contract that the mutation functions of the environment share: a call returns an
  error, or the map of a request of the function's type whose key is not empty and is
  \<open>managedBy\<close> for the type of that name. The evaluator relies on it.
\<close>

locale mutation_function =
  fixes call :: "'a \<Rightarrow> refval"
    and ty :: MutationType
  assumes valid_type: "IsValid ty"
    and returns: "\<not> is_Err (call a) \<Longrightarrow>
      \<exists>k v. call a = mutationMap ty k v \<and> k \<noteq> [] \<and> (ty = MutationTypeManagedBy \<longrightarrow> k = ''managedBy'')"

lemma mutationBinding_ok:
  assumes "\<not> is_Err (mutationBinding V name t lhs rhs)"
  obtains k v where "native lhs = GoString k" "native rhs = GoString v" "k \<noteq> []"
    "mutationKeyErr V t k = None" "mutationValueErr V t v = None"
    "mutationBinding V name t lhs rhs = mutationMap t k v"
  using assms
  by (auto simp: mutationBinding_def split: option.splits if_splits)

lemma resourceBinding_ok:
  assumes "\<not> is_Err (resourceBinding V name t lhs rhs)"
  obtains k i where "native lhs = GoString k" "native rhs = GoInt64 i" "k \<noteq> []" "0 \<le> sint i"
    "validateKey V k ''resource annotation'' = None"
    "resourceBinding V name t lhs rhs = mutationMap t (resourceKeyPrefix @ k) (Itoa i)"
  using assms
  by (auto simp: resourceBinding_def Itoa_def Let_def split: option.splits if_splits)

lemma multiKueueBinding1_ok:
  assumes "\<not> is_Err (multiKueueBinding1 V name val)"
  obtains q where "native val = GoString q" "q \<noteq> []" "validateLabelValue V q = None"
    "multiKueueBinding1 V name val = mutationMap MutationTypeMultiKueue ''managedBy'' q"
  using assms
  by (auto simp: multiKueueBinding1_def split: option.splits if_splits)

interpretation annotation_fn: mutation_function
  "\<lambda>(lhs, rhs). mutationBinding V ''annotation'' MutationTypeAnnotation lhs rhs"
  MutationTypeAnnotation
  by unfold_locales (auto elim!: mutationBinding_ok)

interpretation label_fn: mutation_function
  "\<lambda>(lhs, rhs). mutationBinding V ''label'' MutationTypeLabel lhs rhs"
  MutationTypeLabel
  by unfold_locales (auto elim!: mutationBinding_ok)

interpretation resource_fn: mutation_function
  "\<lambda>(lhs, rhs). resourceBinding V ''resource'' MutationTypeResource lhs rhs"
  MutationTypeResource
  by unfold_locales (auto elim!: resourceBinding_ok simp: resourceKeyPrefix_def)

interpretation priority_fn: mutation_function "priorityBinding ''priority''" MutationTypeLabel
  by unfold_locales (auto simp: priorityBinding_def priorityKey_def split: option.splits)

interpretation managedBy_fn: mutation_function
  "managedByBinding ''managedBy''" MutationTypeManagedBy
  by unfold_locales (auto simp: managedByBinding_def split: option.splits if_splits)

interpretation multiKueue0_fn: mutation_function multiKueueBinding0 MutationTypeMultiKueue
  by unfold_locales (auto simp: multiKueueBinding0_def)

interpretation multiKueue1_fn: mutation_function
  "multiKueueBinding1 V ''multiKueue''" MutationTypeMultiKueue
  by unfold_locales (auto elim!: multiKueueBinding1_ok)


section \<open>Output types and compilation\<close>

lemma Kind_iff [simp]:
  "Kind t = StringKind \<longleftrightarrow> t = StringType"
  "Kind t = MapKind \<longleftrightarrow> (\<exists>k v. t = MapType k v)"
  "Kind t = ListKind \<longleftrightarrow> (\<exists>e. t = ListType e)"
  by (cases t; simp)+

lemma isValidOutputType_iff:
  "isValidOutputType t \<longleftrightarrow>
     (\<exists>v. t = MapType StringType v) \<or> (\<exists>v. t = ListType (MapType StringType v))"
  by (cases t) (auto simp: isValidOutputType_def Let_def)

lemma compileSingleExpression_ok:
  "compileSingleExpression C env e = Inr p \<longleftrightarrow>
     (\<exists>a prog. Compile C env e = Inr a \<and> isValidOutputType (OutputType C a) \<and>
        Program C env a = Inr prog \<and> p = \<lparr>program = prog, ast = a, expression = e\<rparr>)"
  by (auto simp: compileSingleExpression_def validateExpressionReturnType_def
           split: sum.splits option.splits if_splits)

lemma compileLoop_ok:
  "compileLoop C env i acc es = Inr ps \<longleftrightarrow>
     (\<exists>qs. ps = acc @ qs \<and>
        list_all2 (\<lambda>e q. e \<noteq> [] \<and> compileSingleExpression C env e = Inr q) es qs)"
proof (induction es arbitrary: i acc)
  case Nil
  then show ?case by auto
next
  case (Cons e es)
  then show ?case
    by (cases "compileSingleExpression C env e") (auto simp: list_all2_Cons1)
qed

lemma compiled_expressions:
  "list_all2 (\<lambda>e q. e \<noteq> [] \<and> compileSingleExpression C env e = Inr q) es qs \<Longrightarrow>
     map expression qs = es"
  by (induction es qs rule: list_all2_induct) (auto simp: compileSingleExpression_ok)

lemma createCELEnvironment_ok:
  "createCELEnvironment C V = Inr env \<longleftrightarrow> NewEnv C (envOptions V) = Inr env"
  by (auto simp: createCELEnvironment_def split: sum.splits)


lemma CompileCELPrograms_expressions:
  "CompileCELPrograms C V es = Inr ps \<Longrightarrow> map expression ps = es \<and> ps \<noteq> []"
  by (auto simp: CompileCELPrograms_def compileLoop_ok compiled_expressions
      split: sum.splits if_splits)


section \<open>Properties\<close>

text \<open>Concrete libraries for the instances below: every expression compiles, to a map.\<close>

definition sample_validation :: validation where
  "sample_validation =
     \<lparr>IsQualifiedName = (\<lambda>k. if k = [] \<or> 2 \<le> count_list k (CHR ''/'') then [''invalid name''] else []),
      IsValidLabelValue = (\<lambda>v. if 63 < length v then [''too long''] else [])\<rparr>"

definition sample_cel :: "(unit, string) cel_go" where
  "sample_cel =
     \<lparr>NewEnv = \<lambda>_. Inr (),
      Compile = \<lambda>_ e. if e = ''broken('' then Inl (LibError ''syntax'') else Inr e,
      OutputType = \<lambda>_. mutationRequestType,
      TypeString = \<lambda>_. ''map(string, any)'',
      Program = \<lambda>_ e. Inr (\<lambda>vars. Inr (mutationMap MutationTypeAnnotation ''source'' e))\<rparr>"

lemma validateKey_None:
  "validateKey V k t = None \<longleftrightarrow> k \<noteq> [] \<and> IsQualifiedName V k = []"
  by (simp add: validateKey_def Let_def)

lemma validateLabelValue_None: "validateLabelValue V v = None \<longleftrightarrow> IsValidLabelValue V v = []"
  by (simp add: validateLabelValue_def Let_def)

lemma validateAnnotationValue_None:
  "validateAnnotationValue v = None \<longleftrightarrow> length v \<le> maxAnnotationValueSize"
  by (auto simp: validateAnnotationValue_def)

lemmas validate_None = validateKey_None validateLabelValue_None validateAnnotationValue_None

lemma format_int_fits:
  "0 \<le> sint (i :: int64) \<Longrightarrow> validateAnnotationValue (format_int (sint i)) = None"
  using length_format_int [of "sint i"] sint_bounds(2) [of i]
  by (simp add: validateAnnotationValue_None maxAnnotationValueSize_def)

lemma format_int_small: "262144 < length (format_int (sint (i :: int64))) \<Longrightarrow> sint i < 0"
  using length_format_int [of "sint i"] sint_bounds(2) [of i] by (cases "0 \<le> sint i") auto

text \<open>
  (C25) Compilation succeeds exactly when the list is not empty, the environment can be
  built and every expression is non-empty, type checks, has one of the two allowed output
  types and yields a program; the programs come in the order of their expressions.
\<close>

theorem CompileCELPrograms_iff:
  "CompileCELPrograms C V es = Inr ps \<longleftrightarrow>
     es \<noteq> [] \<and>
     (\<exists>env. NewEnv C (envOptions V) = Inr env \<and>
        list_all2 (\<lambda>e p. e \<noteq> [] \<and>
           (\<exists>a prog. Compile C env e = Inr a \<and>
              ((\<exists>t. OutputType C a = MapType StringType t) \<or>
               (\<exists>t. OutputType C a = ListType (MapType StringType t))) \<and>
              Program C env a = Inr prog \<and> p = \<lparr>program = prog, ast = a, expression = e\<rparr>)) es ps)"
  by (auto simp: CompileCELPrograms_def createCELEnvironment_ok compileLoop_ok
      compileSingleExpression_ok isValidOutputType_iff createCELEnvironment_def split: sum.splits)

text \<open>
  A failed compilation names the first expression that is at fault: its position in
  the list, and why, when the expressions before it compile.
\<close>

lemma CompileCELPrograms_first_error:
  assumes "NewEnv C (envOptions V) = Inr env"
    and "list_all (\<lambda>e. e \<noteq> [] \<and> is_ok (compileSingleExpression C env e)) before"
    and "bad \<noteq> []" and "compileSingleExpression C env bad = Inl err"
  shows "CompileCELPrograms C V (before @ bad # after) =
           Inl (Errorf ''failed to compile expression %d (%q): %w''
                  [ArgI (int (length before)), ArgS bad, ArgW err])"
proof -
  have "compileLoop C env i acc (before @ bad # after) =
          Inl (Errorf ''failed to compile expression %d (%q): %w''
                 [ArgI (int (i + length before)), ArgS bad, ArgW err])" for i acc
    using assms(2-4)
    by (induction before arbitrary: i acc) (auto simp: is_ok_iff)
  from this [of 0 "[]"] assms(1) show ?thesis
    by (simp add: CompileCELPrograms_def createCELEnvironment_def)
qed

lemma CompileCELPrograms_first_error_witness:
  "CompileCELPrograms sample_cel sample_validation ([''priority(x)''] @ ''broken('' # []) =
     Inl (Errorf ''failed to compile expression %d (%q): %w''
            [ArgI (int (length [''priority(x)''])), ArgS ''broken('',
             ArgW (Errorf ''type checking failed for expression %q: %w''
                     [ArgS ''broken('', ArgW (LibError ''syntax'')])])"
  by (rule CompileCELPrograms_first_error [where env = "()"])
    (simp_all add: sample_cel_def compileSingleExpression_def validateExpressionReturnType_def
      mutationRequestType_def isValidOutputType_iff)

lemmas environment_defs =
  envOptions_def createMutationFunction_def createResourceMutationFunction_def
  createPriorityMutationFunction_def createManagedByFunction_def createMultiKueueFunction_def
  createReplaceFunction_def mutationRequestType_def

text \<open>
  The native values of a CEL type, and a call of an overload, which needs as many arguments as
  its binding takes.
\<close>

fun has_type :: "celType \<Rightarrow> goval \<Rightarrow> bool" where
  "has_type StringType v = (\<exists>s. v = GoString s)"
| "has_type IntType v = (\<exists>i. v = GoInt64 i)"
| "has_type (MapType k e) v = (k = StringType \<and> (\<exists>m. v = GoStringMap m \<and> (\<forall>x \<in> ran m. has_type e x)))"
| "has_type (ListType e) v =
     ((\<exists>vs. v = GoSlice vs \<and> list_all (has_type e) vs) \<or>
      (\<exists>rs. v = GoRefSlice rs \<and> list_all (\<lambda>r. has_type e (native r)) rs))"
| "has_type AnyType v = True"
| "has_type (OtherType t) v = (v = GoOther t)"

fun callBinding :: "binding \<Rightarrow> refval list \<Rightarrow> refval option" where
  "callBinding (UnaryBinding f) [a] = Some (f a)"
| "callBinding (BinaryBinding f) [a, b] = Some (f a b)"
| "callBinding (FunctionBinding f) args = Some (f args)"
| "callBinding _ _ = None"

text \<open>The complaints of the bindings about the number and the types of their arguments.\<close>

definition typeComplaints :: "string list" where
  "typeComplaints =
     [''%s function requires string arguments'', ''%s function requires string key argument'',
      ''%s function requires int value argument'', ''%s function requires string argument'',
      ''%s function requires string argument for queue name'', ''%s function requires exactly 3 arguments'']"

definition well_typed_result :: "overload \<Rightarrow> refval \<Rightarrow> bool" where
  "well_typed_result ov r =
     (case r of RefVal v \<Rightarrow> has_type (resultType ov) v | NewErr f as \<Rightarrow> f \<notin> set typeComplaints)"

text \<open>What the bindings return on arguments of the declared types.\<close>

definition request_or_complaint :: "refval \<Rightarrow> bool" where
  "request_or_complaint r \<longleftrightarrow>
     (\<exists>t k v. r = mutationMap t k v \<and> IsValid t \<and> k \<noteq> []) \<or>
     (\<exists>f as. r = NewErr f as \<and> f \<notin> set typeComplaints)"

lemma request_or_complaintD:
  assumes "request_or_complaint r"
  shows "is_Err r \<or> (\<exists>t k v. r = mutationMap t k v \<and> IsValid t \<and> k \<noteq> [])"
    "resultType ov = MapType StringType AnyType \<Longrightarrow> well_typed_result ov r"
  using assms by (auto simp: request_or_complaint_def well_typed_result_def mutationMap_def)

lemma request_or_complaint_intros:
  "IsValid t \<Longrightarrow> k \<noteq> [] \<Longrightarrow> request_or_complaint (mutationMap t k v)"
  "f \<notin> set typeComplaints \<Longrightarrow> request_or_complaint (NewErr f as)"
  by (auto simp: request_or_complaint_def)

lemma bindings_request_or_complaint:
  "native a = GoString s \<Longrightarrow> native b = GoString s' \<Longrightarrow> IsValid t \<Longrightarrow>
     request_or_complaint (mutationBinding V n t a b)"
  "native a = GoString s \<Longrightarrow> native b = GoInt64 i \<Longrightarrow> IsValid t \<Longrightarrow>
     request_or_complaint (resourceBinding V n t a b)"
  "native a = GoString s \<Longrightarrow> request_or_complaint (priorityBinding n a)"
  "native a = GoString s \<Longrightarrow> request_or_complaint (managedByBinding n a)"
  "request_or_complaint (multiKueueBinding0 args)"
  "native a = GoString s \<Longrightarrow> request_or_complaint (multiKueueBinding1 V n a)"
  by (auto simp: mutationBinding_def resourceBinding_def priorityBinding_def managedByBinding_def
      multiKueueBinding0_def multiKueueBinding1_def Let_def resourceKeyPrefix_def priorityKey_def typeComplaints_def
      intro!: request_or_complaint_intros split: option.split)

lemma typed_args:
  "list_all2 has_type (t # ts) (map native args) \<longleftrightarrow>
     (\<exists>a as. args = a # as \<and> has_type t (native a) \<and> list_all2 has_type ts (map native as))"
  by (auto simp: list_all2_Cons1)

text \<open>
  (C35) The bindings agree with the signatures under which they are declared. Called with
  arguments of the declared types, every function of the environment takes as many arguments
  as are declared, returns a value of its declared result type or a complaint about the
  content of an argument, never about their number or types; a value that a function other
  than \<open>replace\<close> returns is the map of a mutation request with a valid type and a key, and its
  declared type is one that an expression may have.
\<close>

theorem environment_type_sound:
  assumes "Function n os \<in> set (envOptions V)" and "ov \<in> set os"
    and "list_all2 has_type (argTypes ov) (map native args)"
  shows "\<exists>r. callBinding (overloadBinding ov) args = Some r \<and> well_typed_result ov r \<and>
    (n \<noteq> ''replace'' \<longrightarrow> isValidOutputType (resultType ov) \<and>
       (is_Err r \<or> (\<exists>t k v. r = mutationMap t k v \<and> IsValid t \<and> k \<noteq> [])))"
proof -
  have "\<exists>r. callBinding (overloadBinding ov) args = Some r \<and>
      (if n = ''replace'' then well_typed_result ov r
       else request_or_complaint r \<and> resultType ov = MapType StringType AnyType)"
    using assms
    by (auto simp: environment_defs typed_args replaceBinding_def well_typed_result_def
        bindings_request_or_complaint)
  then obtain r where r: "callBinding (overloadBinding ov) args = Some r"
    "if n = ''replace'' then well_typed_result ov r
     else request_or_complaint r \<and> resultType ov = MapType StringType AnyType" by blast
  show ?thesis
  proof (intro exI [of _ r] conjI impI)
    show "well_typed_result ov r"
      using r(2) request_or_complaintD(2) [of r ov] by (simp split: if_splits)
    assume "n \<noteq> ''replace''"
    with r(2) have "request_or_complaint r" "resultType ov = MapType StringType AnyType" by simp_all
    then show "isValidOutputType (resultType ov)" "is_Err r \<or> (\<exists>t k v. r = mutationMap t k v \<and> IsValid t \<and> k \<noteq> [])"
      by (simp add: isValidOutputType_iff, intro request_or_complaintD(1))
  qed (rule r(1))
qed

text \<open>A call of \<open>resource\<close> with a string and a number, as the witness.\<close>

theorem environment_type_sound_witness:
  "\<exists>ov r. argTypes ov = [StringType, IntType] \<and>
     callBinding (overloadBinding ov) [RefVal (GoString ''cpu''), RefVal (GoInt64 2)] = Some r \<and>
     well_typed_result ov r \<and> (is_Err r \<or> (\<exists>t k v. r = mutationMap t k v \<and> IsValid t \<and> k \<noteq> []))"
proof -
  let ?ov = "\<lparr>overloadId = ''resource_string_int_to_mutation'', argTypes = [StringType, IntType],
    resultType = mutationRequestType,
    overloadBinding = BinaryBinding (resourceBinding sample_validation ''resource'' MutationTypeResource)\<rparr>"
  have "Function ''resource'' [?ov] \<in> set (envOptions sample_validation)" "?ov \<in> set [?ov]"
    by (simp_all add: envOptions_def createResourceMutationFunction_def)
  from environment_type_sound [OF this, of "[RefVal (GoString ''cpu''), RefVal (GoInt64 2)]"]
  show ?thesis by (intro exI [of _ ?ov]) simp
qed

text \<open>
  (C34) What the functions accept. \<open>annotation\<close>, \<open>label\<close> and \<open>resource\<close> accept exactly the
  qualified names as keys; the size limit of an annotation value never rejects the value
  of \<open>resource\<close>, which accepts every non-negative count; \<open>managedBy\<close> rejects only the
  empty value and \<open>multiKueue\<close> also a queue name that is no label value.
\<close>

theorem mutation_functions_accept:
  "(\<not> is_Err (mutationBinding V ''annotation'' MutationTypeAnnotation (RefVal (GoString k)) (RefVal (GoString v))))
     = (k \<noteq> [] \<and> IsQualifiedName V k = [] \<and> length v \<le> 262144) \<and>
   (\<not> is_Err (mutationBinding V ''label'' MutationTypeLabel (RefVal (GoString k)) (RefVal (GoString v))))
     = (k \<noteq> [] \<and> IsQualifiedName V k = [] \<and> IsValidLabelValue V v = []) \<and>
   (\<not> is_Err (resourceBinding V ''resource'' MutationTypeResource (RefVal (GoString k)) (RefVal (GoInt64 i))))
     = (k \<noteq> [] \<and> IsQualifiedName V k = [] \<and> 0 \<le> sint i) \<and>
   (\<not> is_Err (managedByBinding ''managedBy'' (RefVal (GoString v)))) = (v \<noteq> []) \<and>
   (\<not> is_Err (multiKueueBinding1 V ''multiKueue'' (RefVal (GoString v))))
     = (v \<noteq> [] \<and> IsValidLabelValue V v = [])"
  by (intro conjI)
    (auto simp: mutationBinding_def resourceBinding_def managedByBinding_def multiKueueBinding1_def
      mutationKeyErr_def mutationValueErr_def Let_def validateKey_def validateLabelValue_def
      validateAnnotationValue_def maxAnnotationValueSize_def not_less
      dest: format_int_small split: option.splits)

text \<open>
  (C36) The \<open>resource\<close> function validates the key it is given and not the annotation key it
  builds. A valid key with a domain part, such as \<open>nvidia.com/gpu\<close>, is accepted, and the
  request's key is then rejected by the same validation, because a qualified name has at
  most one slash.
\<close>

theorem resource_key_unchecked:
  assumes "\<And>n. 2 \<le> count_list n (CHR ''/'') \<Longrightarrow> IsQualifiedName V n \<noteq> []"
    and "IsQualifiedName V k = []" and "CHR ''/'' \<in> set k" and "0 \<le> sint i"
  shows "\<exists>K v. resourceBinding V ''resource'' MutationTypeResource (RefVal (GoString k)) (RefVal (GoInt64 i)) =
             mutationMap MutationTypeResource K v \<and> IsQualifiedName V K \<noteq> []"
proof -
  have "k \<noteq> []" using assms(3) by auto
  then have "resourceBinding V ''resource'' MutationTypeResource (RefVal (GoString k)) (RefVal (GoInt64 i)) =
      mutationMap MutationTypeResource (resourceKeyPrefix @ k) (format_int (sint i))"
    using assms(2,4) by (auto simp: resourceBinding_def Let_def validateKey_def format_int_fits)
  moreover have "count_list k (CHR ''/'') \<noteq> 0"
    using assms(3) by (simp add: count_list_0_iff)
  then have "2 \<le> count_list (resourceKeyPrefix @ k) (CHR ''/'')"
    by (simp add: resourceKeyPrefix_def)
  ultimately show ?thesis using assms(1) by blast
qed

theorem resource_key_unchecked_witness:
  "\<exists>K v. resourceBinding sample_validation ''resource'' MutationTypeResource
             (RefVal (GoString ''nvidia.com/gpu'')) (RefVal (GoInt64 1)) =
           mutationMap MutationTypeResource K v \<and> IsQualifiedName sample_validation K \<noteq> []"
  by (rule resource_key_unchecked) (simp_all add: sample_validation_def)

text \<open>
  \<open>replace\<close> with a one-character search string removes every occurrence of that
  character that the replacement does not put back, and keeps the other characters: the
  use the documentation makes of it to turn a platform name into a resource name.
\<close>

lemma replace_single_character:
  "\<exists>r. replaceBinding ''replace'' [RefVal (GoString s), RefVal (GoString [c]), RefVal (GoString new)] =
         RefVal (GoString r) \<and>
       set r = (set s - {c}) \<union> (if c \<in> set s then set new else {})"
  by (simp add: replaceBinding_def set_ReplaceAll_single)

end
