(* ===== verification/PipelineRun.thy ===== *)
theory PipelineRun
  imports Prelude
begin

text \<open>
  The objects the program works on: the Tekton \<open>PipelineRun\<close>, with the fields the
  repository reads or writes and everything else in one field, its status conditions, the
  constants of \<^verbatim>\<open>pkg/common/constants.go\<close>, and the Tekton API functions the program calls.
\<close>

section \<open>Constants of pkg/common\<close>

definition ManagedByMultiKueueLabel :: string where
  "ManagedByMultiKueueLabel = ''kueue.x-k8s.io/multikueue''"

definition QueueLabel :: string where
  "QueueLabel = ''kueue.x-k8s.io/queue-name''"

definition ConfigKey :: string where
  "ConfigKey = ''config.yaml''"

definition ConfigMapName :: string where
  "ConfigMapName = ''tekton-kueue-config''"

text \<open>The values of \<open>spec.status\<close> that the program uses (package \<open>tekv1\<close>); "" is running.\<close>

definition PipelineRunSpecStatusPending :: string where
  "PipelineRunSpecStatusPending = ''PipelineRunPending''"

definition PipelineRunSpecStatusStoppedRunFinally :: string where
  "PipelineRunSpecStatusStoppedRunFinally = ''StoppedRunFinally''"

lemmas spec_status_defs = PipelineRunSpecStatusPending_def PipelineRunSpecStatusStoppedRunFinally_def

lemma spec_status_distinct [simp]:
  "PipelineRunSpecStatusPending \<noteq> []" "[] \<noteq> PipelineRunSpecStatusPending"
  "PipelineRunSpecStatusStoppedRunFinally \<noteq> []" "[] \<noteq> PipelineRunSpecStatusStoppedRunFinally"
  "PipelineRunSpecStatusPending \<noteq> PipelineRunSpecStatusStoppedRunFinally"
  "PipelineRunSpecStatusStoppedRunFinally \<noteq> PipelineRunSpecStatusPending"
  by (simp_all add: spec_status_defs)


section \<open>PipelineRuns\<close>

datatype condition_status = ConditionTrue | ConditionFalse | ConditionUnknown

record condition =
  CondType :: string
  CondStatus :: condition_status
  CondReason :: string
  CondMessage :: string
  CondTime :: int

text \<open>
  \<open>Rest\<close> stands for every field of the object that no line of the repository reads or
  writes by name. \<open>SpecStatus\<close> and \<open>ManagedBy\<close> are \<open>spec.status\<close> and \<open>spec.managedBy\<close>
  (a nil pointer is \<^const>\<open>None\<close>), \<open>Conditions\<close> is \<open>status.conditions\<close>.
\<close>

record 'r PipelineRun =
  Name :: string
  Namespace :: string
  Labels :: gomap
  Annotations :: gomap
  ManagedFields :: "string list"
  SpecStatus :: string
  ManagedBy :: "string option"
  Conditions :: "condition list"
  Rest :: 'r

text \<open>
  Two runs that agree outside labels, annotations and \<open>spec.managedBy\<close>: the frame of the
  CEL mutators.
\<close>

definition same_frame :: "'r PipelineRun \<Rightarrow> 'r PipelineRun \<Rightarrow> bool" where
  "same_frame p q \<longleftrightarrow>
     Name p = Name q \<and> Namespace p = Namespace q \<and> ManagedFields p = ManagedFields q \<and>
     SpecStatus p = SpecStatus q \<and> Conditions p = Conditions q \<and> Rest p = Rest q"

lemma same_frame_refl [simp]: "same_frame p p"
  by (simp add: same_frame_def)

lemma same_frame_trans: "same_frame p q \<Longrightarrow> same_frame q s \<Longrightarrow> same_frame p s"
  by (simp add: same_frame_def)

lemma same_frame_sym: "same_frame p q \<Longrightarrow> same_frame q p"
  by (simp add: same_frame_def)

lemma same_frame_updates [simp]:
  "same_frame p (q\<lparr>Labels := l\<rparr>) = same_frame p q"
  "same_frame p (q\<lparr>Annotations := l\<rparr>) = same_frame p q"
  "same_frame p (q\<lparr>ManagedBy := b\<rparr>) = same_frame p q"
  "same_frame (q\<lparr>Labels := l\<rparr>) p = same_frame q p"
  "same_frame (q\<lparr>Annotations := l\<rparr>) p = same_frame q p"
  "same_frame (q\<lparr>ManagedBy := b\<rparr>) p = same_frame q p"
  by (simp_all add: same_frame_def)

lemma same_frame_SpecStatus: "same_frame p q \<Longrightarrow> SpecStatus p = SpecStatus q"
  by (simp add: same_frame_def)


text \<open>A run as a user submits it, for concrete instances.\<close>

definition sample_run :: "unit PipelineRun" where
  "sample_run = \<lparr>Name = ''run'', Namespace = ''team-a'', Labels = None, Annotations = None,
     ManagedFields = [], SpecStatus = [], ManagedBy = None, Conditions = [], Rest = ()\<rparr>"

lemma sample_run_simps [simp]:
  "Name sample_run = ''run''" "Namespace sample_run = ''team-a''" "Labels sample_run = None"
  "Annotations sample_run = None" "ManagedFields sample_run = []" "SpecStatus sample_run = []"
  "ManagedBy sample_run = None" "Conditions sample_run = []"
  by (simp_all add: sample_run_def)

end
