(* ===== verification/Metrics.thy ===== *)
theory Metrics
  imports Prelude
begin

text \<open>
  The Prometheus counters of \<^verbatim>\<open>internal/cel/metrics.go\<close> and
  \<^verbatim>\<open>internal/webhook/v1/metrics.go\<close>. A counter vector with the one label \<open>result\<close> is a
  function from the label's value to the count; \<open>WithLabelValues(l).Inc()\<close> adds one at \<open>l\<close>.
\<close>

type_synonym counter_vec = "string \<Rightarrow> nat"

record metrics =
  celEvaluationsTotal :: counter_vec
  celMutationsTotal :: counter_vec
  configReloadTotal :: counter_vec
  configReloadFailureTotal :: counter_vec

definition Inc :: "string \<Rightarrow> counter_vec \<Rightarrow> counter_vec" where
  "Inc l c = c(l := Suc (c l))"

definition RecordEvaluationFailure :: "metrics \<Rightarrow> metrics" where
  "RecordEvaluationFailure m = m\<lparr>celEvaluationsTotal := Inc ''failure'' (celEvaluationsTotal m)\<rparr>"

definition RecordEvaluationSuccess :: "metrics \<Rightarrow> metrics" where
  "RecordEvaluationSuccess m = m\<lparr>celEvaluationsTotal := Inc ''success'' (celEvaluationsTotal m)\<rparr>"

definition RecordMutationFailure :: "metrics \<Rightarrow> metrics" where
  "RecordMutationFailure m = m\<lparr>celMutationsTotal := Inc ''failure'' (celMutationsTotal m)\<rparr>"

definition RecordMutationSuccess :: "metrics \<Rightarrow> metrics" where
  "RecordMutationSuccess m = m\<lparr>celMutationsTotal := Inc ''success'' (celMutationsTotal m)\<rparr>"

definition RecordReloadFailure :: "metrics \<Rightarrow> metrics" where
  "RecordReloadFailure m = m\<lparr>configReloadTotal := Inc ''failure'' (configReloadTotal m)\<rparr>"

definition RecordReloadSuccess :: "metrics \<Rightarrow> metrics" where
  "RecordReloadSuccess m = m\<lparr>configReloadTotal := Inc ''success'' (configReloadTotal m)\<rparr>"

text \<open>The counters at process start.\<close>

definition zero_metrics :: metrics where
  "zero_metrics = \<lparr>celEvaluationsTotal = \<lambda>_. 0, celMutationsTotal = \<lambda>_. 0,
                   configReloadTotal = \<lambda>_. 0, configReloadFailureTotal = \<lambda>_. 0\<rparr>"

lemmas metrics_defs =
  RecordEvaluationFailure_def RecordEvaluationSuccess_def
  RecordMutationFailure_def RecordMutationSuccess_def
  RecordReloadFailure_def RecordReloadSuccess_def

lemma Inc_apply: "Inc l c l' = (if l' = l then Suc (c l') else c l')"
  by (simp add: Inc_def)

end
