(* ===== verification/CelEvaluator.thy ===== *)
theory CelEvaluator
  imports CelCompiler PipelineRun Metrics
begin

text \<open>
  \<^verbatim>\<open>internal/cel/evaluator.go\<close>: running a compiled program on a PipelineRun and turning its
  result into validated mutation requests.

  \<open>tekton\<close> holds what the package calls of the Tekton API types: the defaults and the
  validation of a spec, and the JSON encoding of a run with the decoding of such bytes into
  a \<open>map[string]interface{}\<close>, both of which run code of that package. A pointer is an
  option. A function that records metrics takes the counters and returns them.
\<close>

record 'r tekton =
  SetDefaults :: "'r PipelineRun \<Rightarrow> 'r PipelineRun"
  SpecValidate :: "'r PipelineRun \<Rightarrow> string option"
  json_Marshal :: "'r PipelineRun \<Rightarrow> bytes result"
  json_Unmarshal :: "bytes \<Rightarrow> (string \<Rightarrow> goval option) result"

section \<open>Converting results\<close>

definition extractMutationType :: "(string \<Rightarrow> goval option) \<Rightarrow> MutationType result" where
  "extractMutationType mapVal =
     (case mapVal ''type'' of
        None \<Rightarrow> Inl (Errorf ''missing required 'type' field'' [])
      | Some typeVal \<Rightarrow>
          (case as_string typeVal of
             None \<Rightarrow> Inl (Errorf (CHR 0x27 # ''type' field must be a string, got %T'') [ArgT (typeName typeVal)])
           | Some typeStr \<Rightarrow>
               (if \<not> IsValid typeStr then
                  Inl (Errorf ''invalid mutation type: %q, must be one of: %v''
                         [ArgS typeStr, ArgL ValidTypes])
                else Inr typeStr)))"

definition extractStringField ::
    "(string \<Rightarrow> goval option) \<Rightarrow> string \<Rightarrow> string result" where
  "extractStringField mapVal fieldName =
     (case mapVal fieldName of
        None \<Rightarrow> Inl (Errorf ''missing required '%s' field'' [ArgS fieldName])
      | Some fieldVal \<Rightarrow>
          (case as_string fieldVal of
             None \<Rightarrow> Inl (Errorf (CHR 0x27 # ''%s' field must be a string, got %T'')
                            [ArgS fieldName, ArgT (typeName fieldVal)])
           | Some fieldStr \<Rightarrow> Inr fieldStr))"

definition convertSingleMutation :: "goval \<Rightarrow> MutationRequest result" where
  "convertSingleMutation val =
     (case val of
        GoStringMap mapVal \<Rightarrow>
          (case extractMutationType mapVal of
             Inl err \<Rightarrow> Inl err
           | Inr mutationType \<Rightarrow>
               (case extractStringField mapVal ''key'' of
                  Inl err \<Rightarrow> Inl err
                | Inr k \<Rightarrow>
                    (if k = [] then Inl (Errorf (CHR 0x27 # ''key' field cannot be empty'') [])
                     else case extractStringField mapVal ''value'' of
                       Inl err \<Rightarrow> Inl err
                     | Inr v \<Rightarrow> Inr \<lparr>Type = mutationType, Key = k, Value = v\<rparr>)))
      | _ \<Rightarrow> Inl (Errorf ''expected MutationRequest-compatible map, got %T''
                     [ArgT (typeName val)]))"

text \<open>The loop over the items, with the index of the next one and the requests so far.\<close>

fun convertListLoop ::
    "nat \<Rightarrow> MutationRequest list \<Rightarrow> goval list \<Rightarrow> MutationRequest list result" where
  "convertListLoop i mutations [] = Inr mutations"
| "convertListLoop i mutations (item # items) =
     (case convertSingleMutation item of
        Inl err \<Rightarrow> Inl (Errorf ''failed to convert list item %d: %w'' [ArgI (int i), ArgW err])
      | Inr mutation \<Rightarrow> convertListLoop (Suc i) (mutations @ [mutation]) items)"

definition convertListToMutations :: "goval list \<Rightarrow> MutationRequest list result" where
  "convertListToMutations items = convertListLoop 0 [] items"

definition convertToMutationRequests :: "refval \<Rightarrow> MutationRequest list result" where
  "convertToMutationRequests r =
     (case native r of
        GoSlice v \<Rightarrow> convertListToMutations v
      | GoRefSlice v \<Rightarrow> convertListToMutations (map native v)
      | GoStringMap v \<Rightarrow>
          (case convertSingleMutation (GoStringMap v) of
             Inl err \<Rightarrow> Inl (Errorf ''failed to convert single mutation: %w'' [ArgW err])
           | Inr mutation \<Rightarrow> Inr [mutation])
      | nativeResult \<Rightarrow>
          Inl (Errorf ''expected MutationRequest-compatible map or list, got %T''
                 [ArgT (typeName nativeResult)]))"


section \<open>Evaluation\<close>

definition structToCELMap :: "'r tekton \<Rightarrow> 'r PipelineRun \<Rightarrow> (string \<Rightarrow> goval option) result" where
  "structToCELMap T v =
     (case json_Marshal T v of
        Inl err \<Rightarrow> Inl err
      | Inr b \<Rightarrow> json_Unmarshal T b)"

definition eventTypeLabel :: string where
  "eventTypeLabel = ''pipelinesascode.tekton.dev/event-type''"

definition testEventTypeLabel :: string where
  "testEventTypeLabel = ''pac.test.appstudio.openshift.io/event-type''"

definition evalVars :: "'r PipelineRun \<Rightarrow> (string \<Rightarrow> goval option) \<Rightarrow> activation" where
  "evalVars plr pipelineRunMap =
     (let pacEventType = (if Labels plr \<noteq> None then map_index (Labels plr) eventTypeLabel else []);
          pacTestEventType = (if Labels plr \<noteq> None then map_index (Labels plr) testEventTypeLabel else [])
      in [''pipelineRun'' \<mapsto> GoStringMap pipelineRunMap,
          ''plrNamespace'' \<mapsto> GoString (Namespace plr),
          ''pacEventType'' \<mapsto> GoString pacEventType,
          ''pacTestEventType'' \<mapsto> GoString pacTestEventType])"

text \<open>The loop that validates every request: the first failure, with its index.\<close>

fun firstInvalid :: "nat \<Rightarrow> MutationRequest list \<Rightarrow> (nat \<times> go_error) option" where
  "firstInvalid i [] = None"
| "firstInvalid i (mutation # mutations) =
     (case Validate mutation of
        Some err \<Rightarrow> Some (i, err)
      | None \<Rightarrow> firstInvalid (Suc i) mutations)"

definition Evaluate ::
    "'r tekton \<Rightarrow> 'ast CompiledProgram \<Rightarrow> 'r PipelineRun option \<Rightarrow> metrics
       \<Rightarrow> MutationRequest list result \<times> metrics" where
  "Evaluate T cp pipelineRun m =
     (case pipelineRun of
        None \<Rightarrow> (Inl (Errorf ''pipelineRun cannot be nil'' []), m)
      | Some plr \<Rightarrow>
          (case structToCELMap T plr of
             Inl err \<Rightarrow>
               (Inl (ValidationError
                  (Errorf ''failed to convert PipelineRun to map: %w'' [ArgW err])), m)
           | Inr pipelineRunMap \<Rightarrow>
               (case program cp (evalVars plr pipelineRunMap) of
                  Inl err \<Rightarrow>
                    (Inl (EvaluationError
                       (Errorf ''failed to evaluate CEL expression %q: %w''
                          [ArgS (expression cp), ArgW err])),
                     RecordEvaluationFailure m)
                | Inr out \<Rightarrow>
                    (case convertToMutationRequests out of
                       Inl err \<Rightarrow>
                         (Inl (EvaluationError
                            (Errorf ''failed to convert result to MutationRequests for expression %q: %w''
                               [ArgS (expression cp), ArgW err])),
                          RecordEvaluationFailure m)
                     | Inr mutations \<Rightarrow>
                         (case firstInvalid 0 mutations of
                            Some (i, err) \<Rightarrow>
                              (Inl (EvaluationError
                                 (Errorf ''invalid mutation at index %d for expression %q: %w''
                                    [ArgI (int i), ArgS (expression cp), ArgW err])),
                               RecordEvaluationFailure m)
                          | None \<Rightarrow> (Inr mutations, m))))))"

definition GetExpression :: "'ast CompiledProgram \<Rightarrow> string" where
  "GetExpression cp = expression cp"


section \<open>Properties of the conversion\<close>

lemma convertSingleMutation_mutationMap [simp]:
  "convertSingleMutation (native (mutationMap t k v)) =
     (if \<not> IsValid t then
        Inl (Errorf ''invalid mutation type: %q, must be one of: %v'' [ArgS t, ArgL ValidTypes])
      else if k = [] then Inl (Errorf (CHR 0x27 # ''key' field cannot be empty'') [])
      else Inr \<lparr>Type = t, Key = k, Value = v\<rparr>)"
  by (simp add: mutationMap_def convertSingleMutation_def extractMutationType_def
      extractStringField_def)

lemma extractMutationType_ok:
  "extractMutationType m = Inr t \<longleftrightarrow> m ''type'' = Some (GoString t) \<and> IsValid t"
  by (auto simp: extractMutationType_def split: option.splits if_splits)

lemma extractStringField_ok:
  "extractStringField m f = Inr s \<longleftrightarrow> m f = Some (GoString s)"
  by (auto simp: extractStringField_def split: option.splits)

lemma convertSingleMutation_ok:
  "convertSingleMutation v = Inr mr \<longleftrightarrow>
     (\<exists>m. v = GoStringMap m \<and> m ''type'' = Some (GoString (Type mr)) \<and> IsValid (Type mr) \<and>
        m ''key'' = Some (GoString (Key mr)) \<and> Key mr \<noteq> [] \<and>
        m ''value'' = Some (GoString (Value mr)))"
  by (cases v; cases mr)
    (auto simp: convertSingleMutation_def extractMutationType_def extractStringField_def
          split: sum.splits option.splits if_splits)

lemma convertListLoop_ok:
  "convertListLoop i acc vs = Inr mrs \<longleftrightarrow>
     (\<exists>ms. mrs = acc @ ms \<and> list_all2 (\<lambda>v mr. convertSingleMutation v = Inr mr) vs ms)"
proof (induction vs arbitrary: i acc)
  case Nil
  then show ?case by auto
next
  case (Cons v vs)
  then show ?case
    by (cases "convertSingleMutation v") (auto simp: list_all2_Cons1)
qed

lemma convertListToMutations_ok:
  "convertListToMutations vs = Inr mrs \<longleftrightarrow>
     list_all2 (\<lambda>v mr. convertSingleMutation v = Inr mr) vs mrs"
  by (simp add: convertListToMutations_def convertListLoop_ok)

lemma firstInvalid_None: "firstInvalid i mrs = None \<longleftrightarrow> (\<forall>mr \<in> set mrs. Validate mr = None)"
  by (induction i mrs rule: firstInvalid.induct) (auto split: option.splits)

text \<open>What the evaluator gets from a mutation function of the environment.\<close>

context mutation_function
begin

lemma converts:
  assumes "\<not> is_Err (call a)"
  obtains mr where "convertSingleMutation (native (call a)) = Inr mr"
    "Type mr = ty" "Key mr \<noteq> []" "ty = MutationTypeManagedBy \<longrightarrow> Key mr = ''managedBy''"
    "call a = mutationMap (Type mr) (Key mr) (Value mr)"
proof -
  from returns [OF assms] obtain k v where kv: "call a = mutationMap ty k v" "k \<noteq> []"
    "ty = MutationTypeManagedBy \<longrightarrow> k = ''managedBy''" by blast
  then show thesis
    using valid_type by (intro that [of "\<lparr>Type = ty, Key = k, Value = v\<rparr>"]) simp_all
qed

lemma converted_valid_iff:
  assumes "convertSingleMutation (native (call a)) = Inr mr" "\<not> is_Err (call a)"
  shows "Validate mr = None \<longleftrightarrow> Value mr \<noteq> [] \<or> ty = MutationTypeMultiKueue"
proof (rule converts [OF assms(2)])
  fix mr'
  assume "convertSingleMutation (native (call a)) = Inr mr'" "Type mr' = ty" "Key mr' \<noteq> []"
    "ty = MutationTypeManagedBy \<longrightarrow> Key mr' = ''managedBy''"
  with assms(1) valid_type show ?thesis
    unfolding Validate_None_iff by auto
qed

end


section \<open>Properties of Evaluate\<close>

lemma Evaluate_None [simp]:
  "Evaluate T cp None m = (Inl (Errorf ''pipelineRun cannot be nil'' []), m)"
  by (simp add: Evaluate_def)

lemma Evaluate_Some_cases:
  obtains (marshal) e where "structToCELMap T p = Inl e"
      "Evaluate T cp (Some p) m =
         (Inl (ValidationError (Errorf ''failed to convert PipelineRun to map: %w'' [ArgW e])), m)"
  | (failed) e where "is_ok (structToCELMap T p)"
      "Evaluate T cp (Some p) m = (Inl (EvaluationError e), RecordEvaluationFailure m)"
  | (ok) pm out mrs where "structToCELMap T p = Inr pm" "program cp (evalVars p pm) = Inr out"
      "convertToMutationRequests out = Inr mrs" "\<forall>mr \<in> set mrs. Validate mr = None"
      "Evaluate T cp (Some p) m = (Inr mrs, m)"
proof (cases "structToCELMap T p")
  case (Inl e)
  then show thesis by (intro marshal) (simp_all add: Evaluate_def)
next
  case map: (Inr pm)
  show thesis
  proof (cases "program cp (evalVars p pm)")
    case (Inl e)
    with map show thesis by (intro failed) (simp_all add: Evaluate_def)
  next
    case out: (Inr out)
    show thesis
    proof (cases "convertToMutationRequests out")
      case (Inl e)
      with map out show thesis by (intro failed) (simp_all add: Evaluate_def)
    next
      case conv: (Inr mrs)
      show thesis
      proof (cases "firstInvalid 0 mrs")
        case None
        with map out conv have "Evaluate T cp (Some p) m = (Inr mrs, m)"
          by (simp add: Evaluate_def)
        with map out conv None show thesis
          by (intro ok) (simp_all only: firstInvalid_None)
      next
        case (Some ie)
        with map out conv show thesis
          by (cases ie) (intro failed, simp_all add: Evaluate_def)
      qed
    qed
  qed
qed

lemma Evaluate_ok:
  assumes "Evaluate T cp p m = (Inr mrs, m')"
  shows "m' = m" "\<forall>mr \<in> set mrs. Validate mr = None"
proof -
  from assms obtain plr where plr: "p = Some plr" by (cases p) auto
  have "m' = m \<and> (\<forall>mr \<in> set mrs. Validate mr = None)"
    using assms unfolding plr by (cases rule: Evaluate_Some_cases [of T plr cp m]) auto
  then show "m' = m" "\<forall>mr \<in> set mrs. Validate mr = None" by simp_all
qed

lemma Evaluate_error_kind:
  assumes "Evaluate T cp (Some p) m = (Inl e, m')"
  shows "(\<exists>e'. e = EvaluationError e') \<and> m' = RecordEvaluationFailure m \<or>
         (\<exists>e'. e = ValidationError e') \<and> m' = m \<and> \<not> is_ok (structToCELMap T p)"
  using assms by (cases rule: Evaluate_Some_cases [of T p cp m]) auto



section \<open>Properties\<close>

text \<open>Concrete libraries: nothing to default or to complain about, and an empty JSON object.\<close>

definition sample_tekton :: "unit tekton" where
  "sample_tekton = \<lparr>SetDefaults = \<lambda>p. p, SpecValidate = \<lambda>p. None,
     json_Marshal = \<lambda>p. Inr ''{}'', json_Unmarshal = \<lambda>b. Inr Map.empty\<rparr>"

definition sample_program :: "(activation \<Rightarrow> refval result) \<Rightarrow> unit CompiledProgram" where
  "sample_program f = \<lparr>program = f, ast = (), expression = ''expr''\<rparr>"

text \<open>
  The values that a call of a mutation function of the environment can return.
\<close>

inductive function_result :: "validation \<Rightarrow> refval \<Rightarrow> bool" for V where
  annotation: "function_result V (mutationBinding V ''annotation'' MutationTypeAnnotation a b)"
| label: "function_result V (mutationBinding V ''label'' MutationTypeLabel a b)"
| resource: "function_result V (resourceBinding V ''resource'' MutationTypeResource a b)"
| priority: "function_result V (priorityBinding ''priority'' a)"
| managedBy: "function_result V (managedByBinding ''managedBy'' a)"
| multiKueue: "function_result V (multiKueueBinding0 as)"
| multiKueue_queue: "function_result V (multiKueueBinding1 V ''multiKueue'' a)"

definition well_made :: "refval \<Rightarrow> MutationRequest \<Rightarrow> bool" where
  "well_made r mr \<longleftrightarrow>
     r = mutationMap (Type mr) (Key mr) (Value mr) \<and>
     convertSingleMutation (native r) = Inr mr \<and>
     (Validate mr = None \<longleftrightarrow> Value mr \<noteq> [] \<or> Type mr = MutationTypeMultiKueue)"

context mutation_function
begin

lemma makes_well:
  assumes "\<not> is_Err (call a)"
  obtains mr where "well_made (call a) mr" "Type mr = ty"
proof (rule converts [OF assms])
  fix mr
  assume *: "convertSingleMutation (native (call a)) = Inr mr" "Type mr = ty"
    "call a = mutationMap (Type mr) (Key mr) (Value mr)"
  with converted_valid_iff [OF *(1) assms] show thesis
    by (intro that [of mr]) (simp_all add: well_made_def)
qed

end

lemma mutationMap_inject [simp]:
  "mutationMap t k v = mutationMap t' k' v' \<longleftrightarrow> t = t' \<and> k = k' \<and> v = v'"
proof
  assume "mutationMap t k v = mutationMap t' k' v'"
  then have eq: "[''type'' \<mapsto> GoString t, ''key'' \<mapsto> GoString k, ''value'' \<mapsto> GoString v] =
    [''type'' \<mapsto> GoString t', ''key'' \<mapsto> GoString k', ''value'' \<mapsto> GoString v']"
    by (simp add: mutationMap_def)
  from fun_cong [OF eq, of "''type''"] fun_cong [OF eq, of "''key''"] fun_cong [OF eq, of "''value''"]
  show "t = t' \<and> k = k' \<and> v = v'" by simp
qed simp

lemma function_result_well_made:
  assumes "function_result V r" "\<not> is_Err r"
  obtains mr where "well_made r mr"
    "Type mr = MutationTypeResource \<longrightarrow> (\<exists>i. Value mr = Itoa i \<and> 0 \<le> sint i)"
  using assms
proof (cases rule: function_result.cases)
  case (annotation a b)
  from annotation assms(2) that show thesis
    using annotation_fn.makes_well [of V "(a, b)"] by force
next
  case (label a b)
  from label assms(2) that show thesis using label_fn.makes_well [of V "(a, b)"] by force
next
  case (resource a b)
  with assms(2) obtain mr where mr: "well_made r mr" "Type mr = MutationTypeResource"
    using resource_fn.makes_well [of V "(a, b)"] by force
  from resource assms(2) obtain i k where "0 \<le> sint i"
    "r = mutationMap MutationTypeResource (resourceKeyPrefix @ k) (Itoa i)"
    by (auto elim: resourceBinding_ok)
  moreover have "r = mutationMap (Type mr) (Key mr) (Value mr)"
    using mr(1) by (simp only: well_made_def)
  ultimately have "\<exists>i. Value mr = Itoa i \<and> 0 \<le> sint i" by (metis mutationMap_inject)
  with mr(1) show thesis by (intro that [of mr]) simp_all
next
  case (priority a)
  with assms(2) that show thesis using priority_fn.makes_well [of a] by force
next
  case (managedBy a)
  with assms(2) that show thesis using managedBy_fn.makes_well [of a] by force
next
  case (multiKueue as)
  with assms(2) that show thesis using multiKueue0_fn.makes_well [of as] by force
next
  case (multiKueue_queue a)
  with assms(2) that show thesis using multiKueue1_fn.makes_well [of V a] by force
qed

text \<open>
  (C24) Every request that \<open>Evaluate\<close> hands on is valid: its type is one of the five, its
  key is not empty, its value is empty only for \<open>multiKueue\<close>, and a \<open>managedBy\<close> request has
  the key of that name. A successful evaluation leaves the counters alone, also when its
  result is empty.
\<close>

theorem Evaluate_requests_valid:
  assumes "Evaluate T cp p m = (Inr mrs, m')"
  shows "m' = m \<and>
    (\<forall>mr \<in> set mrs. Type mr \<in> set ValidTypes \<and> Key mr \<noteq> [] \<and>
       (Value mr = [] \<longrightarrow> Type mr = MutationTypeMultiKueue) \<and>
       (Type mr = MutationTypeManagedBy \<longrightarrow> Key mr = ''managedBy''))"
  using Evaluate_ok [OF assms] by (auto simp: Validate_None_iff IsValid_iff)

theorem Evaluate_requests_valid_witness:
  "\<exists>mr. Evaluate sample_tekton (sample_program (\<lambda>vars. Inr (multiKueueBinding0 []))) (Some sample_run)
           zero_metrics = (Inr [mr], zero_metrics) \<and>
        Type mr \<in> set ValidTypes \<and> Key mr \<noteq> []"
proof -
  let ?mr = "\<lparr>Type = MutationTypeMultiKueue, Key = ''managedBy'', Value = []\<rparr>"
  have "Evaluate sample_tekton (sample_program (\<lambda>vars. Inr (multiKueueBinding0 []))) (Some sample_run)
      zero_metrics = (Inr [?mr], zero_metrics)"
    by (simp add: Evaluate_def structToCELMap_def sample_tekton_def sample_program_def
        multiKueueBinding0_def mutationMap_def convertToMutationRequests_def convertSingleMutation_def
        extractMutationType_def extractStringField_def Validate_def)
  with Evaluate_requests_valid [OF this] show ?thesis by auto
qed

text \<open>
  A failing \<open>Evaluate\<close> says whose fault it is: a run that cannot be converted to a
  CEL value is a \<open>ValidationError\<close> and is not counted; anything else is an
  \<open>EvaluationError\<close>, and the failure counter goes up by one.
\<close>

lemma Evaluate_failures:
  assumes "Evaluate T cp (Some p) m = (Inl e, m')"
  shows "(\<exists>e'. e = ValidationError e') \<and> \<not> is_ok (structToCELMap T p) \<and> m' = m \<or>
         (\<exists>e'. e = EvaluationError e') \<and> is_ok (structToCELMap T p) \<and>
           celEvaluationsTotal m' = (celEvaluationsTotal m)(''failure'' := celEvaluationsTotal m ''failure'' + 1) \<and>
           celMutationsTotal m' = celMutationsTotal m"
  using assms
  by (cases rule: Evaluate_Some_cases [of T p cp m]) (auto simp: metrics_defs Inc_def)

lemma well_made_list:
  assumes "\<And>r. r \<in> set rs \<Longrightarrow> function_result V r \<and> \<not> is_Err r"
  obtains mrs where "list_all2 well_made rs mrs"
    "\<forall>mr \<in> set mrs. Type mr = MutationTypeResource \<longrightarrow> (\<exists>i. Value mr = Itoa i \<and> 0 \<le> sint i)"
proof -
  have "\<exists>mrs. list_all2 well_made rs mrs \<and>
    (\<forall>mr \<in> set mrs. Type mr = MutationTypeResource \<longrightarrow> (\<exists>i. Value mr = Itoa i \<and> 0 \<le> sint i))"
    using assms
  proof (induction rs)
    case (Cons r rs)
    then obtain mrs where mrs: "list_all2 well_made rs mrs"
      "\<forall>mr \<in> set mrs. Type mr = MutationTypeResource \<longrightarrow> (\<exists>i. Value mr = Itoa i \<and> 0 \<le> sint i)"
      by auto
    from Cons.prems have "function_result V r" "\<not> is_Err r" by auto
    then obtain mr where "well_made r mr"
      "Type mr = MutationTypeResource \<longrightarrow> (\<exists>i. Value mr = Itoa i \<and> 0 \<le> sint i)"
      by (rule function_result_well_made)
    with mrs show ?case by (intro exI [of _ "mr # mrs"]) simp
  qed simp
  with that show thesis by blast
qed

text \<open>Two calls of the functions that the expressions of the README make, for the witness below.\<close>

abbreviation sample_resource_call :: refval where
  "sample_resource_call \<equiv> resourceBinding sample_validation ''resource'' MutationTypeResource
     (RefVal (GoString ''vm'')) (RefVal (GoInt64 2))"

abbreviation sample_priority_call :: refval where
  "sample_priority_call \<equiv> priorityBinding ''priority'' (RefVal (GoString ''high''))"

lemma sample_resource_call:
  "sample_resource_call = mutationMap MutationTypeResource (resourceKeyPrefix @ ''vm'') (format_int 2)"
  by (simp add: resourceBinding_def sample_validation_def validateKey_def format_int_def
      validateAnnotationValue_def maxAnnotationValueSize_def decimal.simps)

lemma sample_priority_call:
  "sample_priority_call = mutationMap MutationTypeLabel priorityKey ''high''"
  by (simp add: priorityBinding_def)

lemma sample_calls_succeed:
  assumes "r \<in> set [sample_resource_call, sample_priority_call]"
  shows "function_result sample_validation r \<and> \<not> is_Err r"
proof -
  from assms consider "r = sample_resource_call" | "r = sample_priority_call" by auto
  then show ?thesis
    by cases (metis function_result.resource sample_resource_call not_is_Err_mutationMap,
      metis function_result.priority sample_priority_call not_is_Err_mutationMap)
qed

text \<open>
  (C23) A list expression made of calls of the mutation functions: when no call fails and
  every request but a \<open>multiKueue\<close> one has a value, \<open>Evaluate\<close> returns exactly the requests
  the calls made, in order, and a \<open>resource\<close> request carries the decimal text of a
  non-negative \<open>int\<close>, so that the parse in the mutator cannot fail on it.
\<close>

theorem Evaluate_function_calls:
  assumes "structToCELMap T p = Inr pm"
    and "program cp (evalVars p pm) = Inr (RefVal (GoRefSlice rs))"
    and "\<And>r. r \<in> set rs \<Longrightarrow> function_result V r \<and> \<not> is_Err r"
    and "\<And>t k. mutationMap t k [] \<in> set rs \<Longrightarrow> t = MutationTypeMultiKueue"
  shows "\<exists>mrs. Evaluate T cp (Some p) m = (Inr mrs, m) \<and>
           rs = map (\<lambda>mr. mutationMap (Type mr) (Key mr) (Value mr)) mrs \<and>
           (\<forall>mr \<in> set mrs. Type mr = MutationTypeResource \<longrightarrow>
              (\<exists>i. Value mr = Itoa i \<and> Atoi (Value mr) = Inr i \<and> 0 \<le> sint i))"
proof -
  obtain mrs where all: "list_all2 well_made rs mrs"
    and num: "\<forall>mr \<in> set mrs. Type mr = MutationTypeResource \<longrightarrow> (\<exists>i. Value mr = Itoa i \<and> 0 \<le> sint i)"
    using assms(3) by (rule well_made_list)
  from all have eq: "rs = map (\<lambda>mr. mutationMap (Type mr) (Key mr) (Value mr)) mrs"
    by (induction rule: list_all2_induct) (auto simp: well_made_def)
  from all have "convertListToMutations (map native rs) = Inr mrs"
    unfolding convertListToMutations_ok list_all2_map1
    by (rule list_all2_mono) (auto simp: well_made_def)
  then have conv: "convertToMutationRequests (RefVal (GoRefSlice rs)) = Inr mrs"
    by (simp add: convertToMutationRequests_def)
  have "Validate mr = None" if "mr \<in> set mrs" for mr
  proof -
    from list_all2_set2 [OF all that] obtain r where r: "r \<in> set rs" "well_made r mr" by blast
    then have "Value mr = [] \<Longrightarrow> Type mr = MutationTypeMultiKueue"
      using assms(4) [of "Type mr" "Key mr"] by (simp only: well_made_def)
    with r(2) show ?thesis unfolding well_made_def by blast
  qed
  then have "firstInvalid 0 mrs = None" by (simp add: firstInvalid_None)
  with assms(1,2) conv have "Evaluate T cp (Some p) m = (Inr mrs, m)" by (simp add: Evaluate_def)
  with eq num show ?thesis by (intro exI [of _ mrs]) auto
qed

theorem Evaluate_function_calls_witness:
  "\<exists>mrs. Evaluate sample_tekton (sample_program (\<lambda>vars. Inr (RefVal (GoRefSlice
       [sample_resource_call, sample_priority_call])))) (Some sample_run) zero_metrics
       = (Inr mrs, zero_metrics) \<and> length mrs = 2"
proof -
  let ?calls = "[sample_resource_call, sample_priority_call]"
  let ?prog = "sample_program (\<lambda>vars. Inr (RefVal (GoRefSlice ?calls)))"
  have run: "structToCELMap sample_tekton sample_run = Inr Map.empty"
    by (simp add: structToCELMap_def sample_tekton_def)
  have prog: "program ?prog (evalVars sample_run Map.empty) = Inr (RefVal (GoRefSlice ?calls))"
    by (simp add: sample_program_def)
  have valued: "t = MutationTypeMultiKueue" if "mutationMap t k [] \<in> set ?calls" for t k
    using that by (auto simp: sample_resource_call sample_priority_call)
  obtain mrs where mrs: "Evaluate sample_tekton ?prog (Some sample_run) zero_metrics =
      (Inr mrs, zero_metrics)" "?calls = map (\<lambda>mr. mutationMap (Type mr) (Key mr) (Value mr)) mrs"
    by (rule exE [OF Evaluate_function_calls [OF run prog sample_calls_succeed valued]])
      (assumption, assumption, elim conjE, rule that)
  from arg_cong [OF mrs(2), of length] have "length mrs = 2" by simp
  with mrs(1) show ?thesis by (intro exI [of _ mrs] conjI)
qed

text \<open>
  The expression \<open>annotation(k, pacEventType)\<close> of the README fails to evaluate on a run
  without the event type label: the variable is then the empty string, which the function
  accepts as a value and the validation of the request rejects.
\<close>

lemma missing_event_type_fails:
  assumes "structToCELMap T p = Inr pm"
    and "map_get (Labels p) eventTypeLabel = None"
    and "k \<noteq> []" and "IsQualifiedName V k = []"
    and "program cp = (\<lambda>vars. Inr (mutationBinding V ''annotation'' MutationTypeAnnotation
           (RefVal (GoString k)) (RefVal (the (vars ''pacEventType'')))))"
  shows "Evaluate T cp (Some p) m =
     (Inl (EvaluationError (Errorf ''invalid mutation at index %d for expression %q: %w''
        [ArgI 0, ArgS (expression cp), ArgW (Errorf ''mutation value cannot be empty'' [])])),
      RecordEvaluationFailure m)"
proof -
  have vars: "evalVars p pm ''pacEventType'' = Some (GoString [])"
    using assms(2) by (simp add: evalVars_def map_index_def)
  have "mutationBinding V ''annotation'' MutationTypeAnnotation (RefVal (GoString k)) (RefVal (GoString [])) =
      mutationMap MutationTypeAnnotation k []"
    using assms(3,4)
    by (simp add: mutationBinding_def mutationKeyErr_def mutationValueErr_def validateKey_def
        validateAnnotationValue_def)
  with vars assms(5) have out: "program cp (evalVars p pm) = Inr (mutationMap MutationTypeAnnotation k [])"
    by simp
  have "convertToMutationRequests (mutationMap MutationTypeAnnotation k []) =
      Inr [\<lparr>Type = MutationTypeAnnotation, Key = k, Value = []\<rparr>]"
    using convertSingleMutation_mutationMap [of MutationTypeAnnotation k "[]"] assms(3)
    by (simp add: convertToMutationRequests_def mutationMap_def)
  with assms(1,3) out show ?thesis by (simp add: Evaluate_def Validate_def)
qed

end
