(* ===== verification/MutatorInterface.thy ===== *)
theory MutatorInterface
  imports PipelineRun Metrics
begin

text \<open>
  The interface \<open>PipelineRunMutator\<close> of \<^verbatim>\<open>internal/webhook/v1/config_store.go\<close>: one method
  that changes a PipelineRun in place and may fail. An interface value is modelled by its
  method on a run that is not nil; it returns the error, the run as it is afterwards (also
  after a failure) and the counters.

  The locale states what the webhook relies on: a mutator touches labels, annotations and
  \<open>spec.managedBy\<close> only, never removes an entry from one of them, and fails with one of the
  two error types of package \<open>cel\<close>.
\<close>

type_synonym 'r mutator =
  "'r PipelineRun \<Rightarrow> metrics \<Rightarrow> go_error option \<times> 'r PipelineRun \<times> metrics"

text \<open>Nothing that \<open>p\<close> has is missing from \<open>q\<close>.\<close>

definition keeps_entries :: "'r PipelineRun \<Rightarrow> 'r PipelineRun \<Rightarrow> bool" where
  "keeps_entries p q \<longleftrightarrow>
     (\<forall>k. map_get (Labels p) k \<noteq> None \<longrightarrow> map_get (Labels q) k \<noteq> None) \<and>
     (\<forall>k. map_get (Annotations p) k \<noteq> None \<longrightarrow> map_get (Annotations q) k \<noteq> None) \<and>
     (ManagedBy p \<noteq> None \<longrightarrow> ManagedBy q \<noteq> None)"

lemma keeps_entries_refl [simp]: "keeps_entries p p"
  by (simp add: keeps_entries_def)

lemma keeps_entries_trans: "keeps_entries p q \<Longrightarrow> keeps_entries q s \<Longrightarrow> keeps_entries p s"
  by (simp add: keeps_entries_def)

locale pipeline_run_mutator =
  fixes mut :: "'r mutator"
  assumes frame: "mut p m = (e, q, m') \<Longrightarrow> same_frame p q"
    and keeps: "mut p m = (e, q, m') \<Longrightarrow> keeps_entries p q"
    and error_kind: "mut p m = (Some err, q, m') \<Longrightarrow>
      is_ValidationError_val err \<or> is_EvaluationError_val err"
    and reloads: "mut p m = (e, q, m') \<Longrightarrow> configReloadTotal m' = configReloadTotal m"

end
