(* ===== verification/CelMutator.thy ===== *)
theory CelMutator
  imports CelEvaluator MutatorInterface
begin

text \<open>
  \<^verbatim>\<open>internal/cel/mutator.go\<close>: a \<open>CELMutator\<close> evaluates its programs on a copy of the
  PipelineRun with defaults applied, collects all the requests, and then applies them in
  order to the run itself. Go changes the run in place, so every operation returns the run
  as it is when the call ends, with or without an error.
\<close>

record 'ast CELMutator =
  programs :: "'ast CompiledProgram list"

definition NewCELMutator :: "'ast CompiledProgram list \<Rightarrow> 'ast CELMutator" where
  "NewCELMutator ps = \<lparr>programs = ps\<rparr>"

section \<open>Applying one request\<close>

definition mutate :: "'r PipelineRun \<Rightarrow> MutationRequest \<Rightarrow> go_error option \<times> 'r PipelineRun" where
  "mutate plr mutation =
     (if Type mutation = MutationTypeLabel then
        (None, plr\<lparr>Labels := put_init (Labels plr) (Key mutation) (Value mutation)\<rparr>)
      else if Type mutation = MutationTypeAnnotation then
        (None, plr\<lparr>Annotations := put_init (Annotations plr) (Key mutation) (Value mutation)\<rparr>)
      else if Type mutation = MutationTypeResource then
        (let plr = plr\<lparr>Annotations := init_map (Annotations plr)\<rparr> in
         case Atoi (Value mutation) of
           Inl err \<Rightarrow>
             (Some (Errorf ''failed to parse resource value %q as integer: %w''
                      [ArgS (Value mutation), ArgW err]), plr)
         | Inr newValue \<Rightarrow>
             (case map_get (Annotations plr) (Key mutation) of
                Some existingValue \<Rightarrow>
                  (case Atoi existingValue of
                     Inl err \<Rightarrow>
                       (Some (Errorf ''failed to parse existing resource value %q as integer for key %q: %w''
                                [ArgS existingValue, ArgS (Key mutation), ArgW err]), plr)
                   | Inr existingInt \<Rightarrow>
                       (if sint existingInt < 0 then
                          (Some (Errorf ''negative resource value %q for key %q is not allowed''
                                   [ArgS existingValue, ArgS (Key mutation)]), plr)
                        else
                          (None, plr\<lparr>Annotations := put_init (Annotations plr) (Key mutation)
                                       (Itoa (newValue + existingInt))\<rparr>)))
              | None \<Rightarrow>
                  (None, plr\<lparr>Annotations := put_init (Annotations plr) (Key mutation)
                               (Itoa newValue)\<rparr>)))
      else if Type mutation = MutationTypeManagedBy then
        (None, plr\<lparr>ManagedBy := Some (Value mutation)\<rparr>)
      else if Type mutation = MutationTypeMultiKueue then
        (let plr = plr\<lparr>ManagedBy := Some ManagedByMultiKueueLabel\<rparr> in
         if Value mutation \<noteq> [] then
           (None, plr\<lparr>Labels := put_init (Labels plr) QueueLabel (Value mutation)\<rparr>)
         else (None, plr))
      else (None, plr))"

section \<open>Evaluating all programs and applying all requests\<close>

fun evaluateLoop ::
    "'r tekton \<Rightarrow> 'r PipelineRun \<Rightarrow> MutationRequest list \<Rightarrow> 'ast CompiledProgram list \<Rightarrow> metrics
       \<Rightarrow> MutationRequest list result \<times> metrics" where
  "evaluateLoop T plr allMutations [] m = (Inr allMutations, m)"
| "evaluateLoop T plr allMutations (p # ps) m =
     (case Evaluate T p (Some plr) m of
        (Inl err, m') \<Rightarrow> (Inl err, m')
      | (Inr mutations, m') \<Rightarrow> evaluateLoop T plr (allMutations @ mutations) ps m')"

definition evaluate ::
    "'r tekton \<Rightarrow> 'ast CELMutator \<Rightarrow> 'r PipelineRun \<Rightarrow> metrics
       \<Rightarrow> MutationRequest list result \<times> metrics" where
  "evaluate T cm plr m =
     (case evaluateLoop T plr [] (programs cm) m of
        (Inl err, m') \<Rightarrow> (Inl err, m')
      | (Inr allMutations, m') \<Rightarrow> (Inr allMutations, RecordEvaluationSuccess m'))"

fun applyLoop ::
    "'r PipelineRun \<Rightarrow> MutationRequest list \<Rightarrow> go_error option \<times> 'r PipelineRun" where
  "applyLoop plr [] = (None, plr)"
| "applyLoop plr (mutation # mutations) =
     (case mutate plr mutation of
        (Some err, plr') \<Rightarrow>
          (Some (EvaluationError
             (Errorf ''failed to apply mutation (type: %s, key: %s): %w''
                [ArgS (Type mutation), ArgS (Key mutation), ArgW err])), plr')
      | (None, plr') \<Rightarrow> applyLoop plr' mutations)"

text \<open>The body of \<open>Mutate\<close> after its nil check.\<close>

definition MutateRun :: "'r tekton \<Rightarrow> 'ast CELMutator \<Rightarrow> 'r mutator" where
  "MutateRun T cm plr m =
     (if length (programs cm) = 0 then (None, plr, RecordMutationSuccess m)
      else
        let plrCopy = SetDefaults T plr in
        case SpecValidate T plrCopy of
          Some errs \<Rightarrow>
            (Some (ValidationError (Errorf ''invalid pipelinerun: %v'' [ArgS errs])), plr, m)
        | None \<Rightarrow>
            (case evaluate T cm plrCopy m of
               (Inl err, m') \<Rightarrow> (Some err, plr, m')
             | (Inr mutations, m') \<Rightarrow>
                 (case applyLoop plr mutations of
                    (Some err, plr') \<Rightarrow> (Some err, plr', RecordMutationFailure m')
                  | (None, plr') \<Rightarrow> (None, plr', RecordMutationSuccess m'))))"

definition Mutate ::
    "'r tekton \<Rightarrow> 'ast CELMutator \<Rightarrow> 'r PipelineRun option \<Rightarrow> metrics
       \<Rightarrow> go_error option \<times> 'r PipelineRun option \<times> metrics" where
  "Mutate T cm pipelineRun m =
     (case pipelineRun of
        None \<Rightarrow> (Some (Errorf ''pipelineRun cannot be nil'' []), None, m)
      | Some plr \<Rightarrow>
          (case MutateRun T cm plr m of (err, plr', m') \<Rightarrow> (err, Some plr', m')))"


section \<open>The frame of a request\<close>

lemma mutate_frame: "mutate p mr = (e, q) \<Longrightarrow> same_frame p q"
  by (auto simp: mutate_def Let_def split: if_splits sum.splits option.splits)

lemma mutate_keeps: "mutate p mr = (e, q) \<Longrightarrow> keeps_entries p q"
  by (auto simp: mutate_def Let_def keeps_entries_def split: if_splits sum.splits option.splits)

lemma applyLoop_frame: "applyLoop p mrs = (e, q) \<Longrightarrow> same_frame p q"
  by (induction p mrs rule: applyLoop.induct)
    (auto split: prod.splits option.splits dest!: mutate_frame intro: same_frame_trans)

lemma applyLoop_keeps: "applyLoop p mrs = (e, q) \<Longrightarrow> keeps_entries p q"
  by (induction p mrs rule: applyLoop.induct)
    (auto split: prod.splits option.splits dest!: mutate_keeps intro: keeps_entries_trans)

lemma applyLoop_error_kind:
  "applyLoop p mrs = (Some e, q) \<Longrightarrow> is_EvaluationError_val e"
  by (induction p mrs rule: applyLoop.induct) (auto split: prod.splits option.splits)

lemma applyLoop_append:
  "applyLoop p (xs @ ys) =
     (case applyLoop p xs of (Some e, q) \<Rightarrow> (Some e, q) | (None, q) \<Rightarrow> applyLoop q ys)"
  by (induction p xs rule: applyLoop.induct) (auto split: prod.splits option.splits)


section \<open>What a call of Mutate can do\<close>

lemma evaluateLoop_ok:
  "evaluateLoop T p acc ps m = (Inr mrs, m') \<Longrightarrow>
     m' = m \<and> (\<exists>mss. mrs = acc @ concat mss \<and>
        list_all2 (\<lambda>cp ms. Evaluate T cp (Some p) m = (Inr ms, m)) ps mss)"
proof (induction ps arbitrary: acc m)
  case Nil
  then show ?case by simp
next
  case (Cons cp ps)
  from Cons.prems obtain ms m1 where ev: "Evaluate T cp (Some p) m = (Inr ms, m1)"
    and rest: "evaluateLoop T p (acc @ ms) ps m1 = (Inr mrs, m')"
    by (auto split: prod.splits sum.splits)
  have "m1 = m" using Evaluate_ok(1) [OF ev] .
  with Cons.IH [OF rest] obtain mss where "m' = m" "mrs = (acc @ ms) @ concat mss"
    "list_all2 (\<lambda>cp ms. Evaluate T cp (Some p) m = (Inr ms, m)) ps mss" by auto
  with ev \<open>m1 = m\<close> show ?case by (intro conjI exI [of _ "ms # mss"]) simp_all
qed

lemma evaluateLoop_error:
  "evaluateLoop T p acc ps m = (Inl e, m') \<Longrightarrow>
     (\<exists>e'. e = EvaluationError e') \<and> m' = RecordEvaluationFailure m \<or>
     (\<exists>e'. e = ValidationError e') \<and> m' = m"
proof (induction ps arbitrary: acc m)
  case Nil
  then show ?case by simp
next
  case (Cons cp ps)
  then show ?case
    by (auto split: prod.splits sum.splits dest!: Evaluate_error_kind dest: Evaluate_ok(1))
qed

lemma evaluateLoop_first_error:
  "evaluateLoop T p acc ps m = (Inl e, m') \<Longrightarrow> \<exists>cp \<in> set ps. Evaluate T cp (Some p) m = (Inl e, m')"
proof (induction ps arbitrary: acc)
  case (Cons cp ps)
  then show ?case
    by (cases "Evaluate T cp (Some p) m") (auto split: sum.splits dest: Evaluate_ok(1))
qed simp

lemma evaluate_ok:
  assumes "evaluate T cm p m = (Inr mrs, m')"
  shows "m' = RecordEvaluationSuccess m"
    and "\<exists>mss. mrs = concat mss \<and>
           list_all2 (\<lambda>cp ms. Evaluate T cp (Some p) m = (Inr ms, m)) (programs cm) mss"
  using assms by (auto simp: evaluate_def split: prod.splits sum.splits dest!: evaluateLoop_ok)

lemma evaluate_valid:
  assumes "evaluate T cm p m = (Inr mrs, m')" and "mr \<in> set mrs"
  shows "Validate mr = None"
proof -
  from evaluate_ok(2) [OF assms(1)] obtain mss where "mrs = concat mss"
    and all: "list_all2 (\<lambda>cp ms. Evaluate T cp (Some p) m = (Inr ms, m)) (programs cm) mss" by blast
  with assms(2) obtain ms where ms: "ms \<in> set mss" "mr \<in> set ms" by auto
  from list_all2_set2 [OF all] ms(1) obtain cp where "cp \<in> set (programs cm)" "Evaluate T cp (Some p) m = (Inr ms, m)"
    by blast
  then show ?thesis using Evaluate_ok(2) ms(2) by blast
qed

lemma evaluate_error:
  assumes "evaluate T cm p m = (Inl e, m')"
  shows "(\<exists>e'. e = EvaluationError e') \<and> m' = RecordEvaluationFailure m \<or>
         (\<exists>e'. e = ValidationError e') \<and> m' = m"
  using assms by (auto simp: evaluate_def split: prod.splits sum.splits dest!: evaluateLoop_error)

text \<open>Which programs fail, and whether the run can be converted, decides how an evaluation ends.\<close>

lemma evaluate_outcome:
  assumes "evaluate T cm p m = (r, m')" "programs cm \<noteq> []"
  obtains (unreadable) e where "r = Inl (ValidationError e)" "m' = m" "\<not> is_ok (structToCELMap T p)"
  | (fails) e cp err m1 where "r = Inl (EvaluationError e)" "m' = RecordEvaluationFailure m"
      "is_ok (structToCELMap T p)" "cp \<in> set (programs cm)" "Evaluate T cp (Some p) m = (Inl err, m1)"
  | (succeeds) mrs where "r = Inr mrs" "m' = RecordEvaluationSuccess m" "is_ok (structToCELMap T p)"
      "\<forall>cp \<in> set (programs cm). \<forall>err m1. Evaluate T cp (Some p) m \<noteq> (Inl err, m1)"
proof (cases r)
  case (Inl e)
  with assms(1) have loop: "evaluateLoop T p [] (programs cm) m = (Inl e, m')"
    by (auto simp: evaluate_def split: prod.splits sum.splits)
  from evaluateLoop_first_error [OF this] obtain cp where
    cp: "cp \<in> set (programs cm)" "Evaluate T cp (Some p) m = (Inl e, m')" by blast
  from Evaluate_failures [OF cp(2)] evaluateLoop_error [OF loop] Inl cp show thesis
    using unreadable fails by auto
next
  case (Inr mrs)
  with assms(1) evaluate_ok [of T cm p m mrs m'] obtain mss where m': "m' = RecordEvaluationSuccess m"
    and all: "list_all2 (\<lambda>cp ms. Evaluate T cp (Some p) m = (Inr ms, m)) (programs cm) mss" by auto
  from list_all2_set1 [OF all]
  have evs: "\<forall>cp \<in> set (programs cm). \<exists>ms. Evaluate T cp (Some p) m = (Inr ms, m)" by blast
  with assms(2) have "is_ok (structToCELMap T p)"
    by (cases "programs cm") (auto simp: Evaluate_def is_ok_iff split: sum.splits)
  with Inr m' evs show thesis by (intro succeeds) auto
qed

lemma MutateRun_cases:
  obtains (skip) "programs cm = []" "MutateRun T cm p m = (None, p, RecordMutationSuccess m)"
  | (invalid) e where "programs cm \<noteq> []"
      "MutateRun T cm p m = (Some (ValidationError e), p, m)"
  | (failed) e where "programs cm \<noteq> []" "SpecValidate T (SetDefaults T p) = None"
      "MutateRun T cm p m = (Some (EvaluationError e), p, RecordEvaluationFailure m)"
  | (stuck) mrs e q where "programs cm \<noteq> []"
      "evaluate T cm (SetDefaults T p) m = (Inr mrs, RecordEvaluationSuccess m)"
      "applyLoop p mrs = (Some e, q)" "SpecValidate T (SetDefaults T p) = None"
      "MutateRun T cm p m = (Some e, q, RecordMutationFailure (RecordEvaluationSuccess m))"
  | (ok) mrs q where "programs cm \<noteq> []"
      "evaluate T cm (SetDefaults T p) m = (Inr mrs, RecordEvaluationSuccess m)"
      "applyLoop p mrs = (None, q)" "SpecValidate T (SetDefaults T p) = None"
      "MutateRun T cm p m = (None, q, RecordMutationSuccess (RecordEvaluationSuccess m))"
proof (cases "programs cm = []")
  case True
  then show thesis by (intro skip) (simp_all add: MutateRun_def)
next
  case ne: False
  show thesis
  proof (cases "SpecValidate T (SetDefaults T p)")
    case (Some errs)
    with ne show thesis by (intro invalid) (simp_all add: MutateRun_def)
  next
    case val: None
    obtain r m1 where ev: "evaluate T cm (SetDefaults T p) m = (r, m1)" by (rule prod.exhaust)
    show thesis
    proof (cases r)
      case (Inl e)
      with ev have "evaluate T cm (SetDefaults T p) m = (Inl e, m1)" by simp
      from evaluate_error [OF this] ne val ev Inl show thesis
        using invalid failed by (auto simp: MutateRun_def)
    next
      case (Inr mrs)
      with ev have ev': "evaluate T cm (SetDefaults T p) m = (Inr mrs, m1)" by simp
      from evaluate_ok(1) [OF this] have m1: "m1 = RecordEvaluationSuccess m" .
      obtain oe q where ap: "applyLoop p mrs = (oe, q)" by (rule prod.exhaust)
      from ne val ev' m1 ap show thesis
        by (cases oe) (auto simp: MutateRun_def intro: stuck ok)
    qed
  qed
qed

text \<open>The CEL mutator provides the interface.\<close>

interpretation cel_mutator: pipeline_run_mutator "MutateRun T cm"
proof unfold_locales
  fix p q :: "'a PipelineRun" and m m' e
  assume run: "MutateRun T cm p m = (e, q, m')"
  show "same_frame p q"
    using run by (cases rule: MutateRun_cases [of cm T p m]) (auto dest: applyLoop_frame)
  show "keeps_entries p q"
    using run by (cases rule: MutateRun_cases [of cm T p m]) (auto dest: applyLoop_keeps)
  show "configReloadTotal m' = configReloadTotal m"
    using run by (cases rule: MutateRun_cases [of cm T p m]) (auto simp: metrics_defs)
next
  fix p q :: "'a PipelineRun" and m m' err
  assume "MutateRun T cm p m = (Some err, q, m')"
  then show "is_ValidationError_val err \<or> is_EvaluationError_val err"
    by (cases rule: MutateRun_cases [of cm T p m]) (auto dest: applyLoop_error_kind)
qed


section \<open>Resource requests add up\<close>

text \<open>
  The abstract view of a resource annotation: the non-negative quantity it stands for, zero
  when it is absent, \<^const>\<open>None\<close> when its text is no non-negative \<open>int\<close>.
\<close>

definition quantity :: "'r PipelineRun \<Rightarrow> string \<Rightarrow> int option" where
  "quantity p k =
     (case map_get (Annotations p) k of
        None \<Rightarrow> Some 0
      | Some s \<Rightarrow> (case Atoi s of Inl _ \<Rightarrow> None
                  | Inr w \<Rightarrow> if sint w < 0 then None else Some (sint w)))"

definition is_resource :: "MutationRequest \<Rightarrow> bool" where
  "is_resource mr \<longleftrightarrow> Type mr = MutationTypeResource"

text \<open>A request as the \<open>resource\<close> function makes it: its value prints a non-negative \<open>int\<close>.\<close>

definition amount :: "MutationRequest \<Rightarrow> int" where
  "amount mr = (case Atoi (Value mr) of Inl _ \<Rightarrow> 0 | Inr w \<Rightarrow> sint w)"

definition numeric_request :: "MutationRequest \<Rightarrow> bool" where
  "numeric_request mr = (case Atoi (Value mr) of Inl _ \<Rightarrow> False | Inr w \<Rightarrow> 0 \<le> sint w)"

definition requested :: "string \<Rightarrow> MutationRequest list \<Rightarrow> int" where
  "requested k mrs = (\<Sum>mr \<leftarrow> mrs. if is_resource mr \<and> Key mr = k then amount mr else 0)"

lemma numeric_request_amount: "numeric_request mr \<Longrightarrow> 0 \<le> amount mr"
  by (auto simp: numeric_request_def amount_def split: sum.splits)

lemma requested_nonneg:
  "(\<And>mr. mr \<in> set mrs \<Longrightarrow> is_resource mr \<Longrightarrow> numeric_request mr) \<Longrightarrow> 0 \<le> requested k mrs"
  by (auto simp: requested_def numeric_request_amount intro!: sum_list_nonneg)

lemma requested_simps [simp]:
  "requested k [] = 0"
  "requested k (mr # mrs) = (if is_resource mr \<and> Key mr = k then amount mr else 0) + requested k mrs"
  by (simp_all add: requested_def)

lemma quantity_nonneg: "quantity p k = Some n \<Longrightarrow> 0 \<le> n"
  by (auto simp: quantity_def split: option.splits sum.splits if_splits)

text \<open>
  One resource request on a run whose annotation is a quantity: the quantities add, as long
  as the sum fits an \<open>int\<close>; past that the stored text is a negative number.
\<close>

lemma mutate_resource:
  assumes "is_resource mr" "numeric_request mr" "quantity p (Key mr) = Some n"
  shows "\<exists>q. mutate p mr = (None, q) \<and>
           map_get (Annotations q) (Key mr) =
             Some (format_int (if n + amount mr < 2 ^ 63 then n + amount mr else n + amount mr - 2 ^ 64)) \<and>
           (\<forall>k. k \<noteq> Key mr \<longrightarrow> map_get (Annotations q) k = map_get (Annotations p) k)"
proof -
  from assms(2) obtain w where w: "Atoi (Value mr) = Inr w" "0 \<le> sint w" "amount mr = sint w"
    by (auto simp: numeric_request_def amount_def split: sum.splits)
  show ?thesis
  proof (cases "map_get (Annotations p) (Key mr)")
    case None
    with assms(3) have "n = 0" by (simp add: quantity_def)
    with None w assms(1) sint_bounds [of w] show ?thesis
      by (simp add: mutate_def is_resource_def Itoa_def)
  next
    case (Some s)
    with assms(3) obtain v where v: "Atoi s = Inr v" "0 \<le> sint v" "n = sint v"
      by (auto simp: quantity_def split: sum.splits if_splits)
    with Some w assms(1) show ?thesis
      using sint_add_nonneg [OF w(2) v(2)]
      by (auto simp: mutate_def is_resource_def Itoa_def add.commute)
  qed
qed

lemma quantity_format_int:
  "map_get (Annotations q) k = Some (format_int i) \<Longrightarrow> 0 \<le> i \<Longrightarrow> i < 2 ^ 63 \<Longrightarrow>
     quantity q k = Some i"
  by (simp add: quantity_def Atoi_format_int sint_of_int64)

lemma quantity_cong:
  "map_get (Annotations q) k = map_get (Annotations p) k \<Longrightarrow> quantity q k = quantity p k"
  by (simp add: quantity_def)

lemma mutate_other:
  "\<not> is_resource mr \<Longrightarrow>
     \<exists>q. mutate p mr = (None, q) \<and>
         (\<forall>k. (Type mr = MutationTypeAnnotation \<longrightarrow> k \<noteq> Key mr) \<longrightarrow>
            map_get (Annotations q) k = map_get (Annotations p) k)"
  by (auto simp: mutate_def is_resource_def Let_def)

text \<open>
  The whole loop refines addition on the quantities of a set \<open>K\<close> of keys: it succeeds and
  every quantity grows by what was requested of it, when the keys of all resource requests
  are in \<open>K\<close>, no annotation request overwrites a key of \<open>K\<close>, and no sum leaves the \<open>int\<close> range.
\<close>

lemma applyLoop_quantities:
  assumes "\<And>mr. mr \<in> set mrs \<Longrightarrow> is_resource mr \<Longrightarrow> numeric_request mr \<and> Key mr \<in> K"
    and "\<And>mr. mr \<in> set mrs \<Longrightarrow> Type mr = MutationTypeAnnotation \<Longrightarrow> Key mr \<notin> K"
    and "\<And>k. k \<in> K \<Longrightarrow> quantity p k = Some (n k)"
    and "\<And>k. k \<in> K \<Longrightarrow> n k + requested k mrs < 2 ^ 63"
  shows "\<exists>q. applyLoop p mrs = (None, q) \<and>
           (\<forall>k \<in> K. quantity q k = Some (n k + requested k mrs))"
  using assms
proof (induction mrs arbitrary: p n)
  case Nil
  then show ?case by simp
next
  case (Cons mr mrs)
  define n' where "n' k = (if is_resource mr \<and> Key mr = k then amount mr else 0) + n k" for k
  have later: "0 \<le> requested k mrs" for k
    using Cons.prems(1) by (intro requested_nonneg) simp
  have "\<exists>q. mutate p mr = (None, q) \<and> (\<forall>k \<in> K. quantity q k = Some (n' k))"
  proof (cases "is_resource mr")
    case True
    with Cons.prems(1) have num: "numeric_request mr" and key: "Key mr \<in> K" by auto
    have fits: "n (Key mr) + amount mr < 2 ^ 63" "0 \<le> n (Key mr) + amount mr"
      using Cons.prems(4) [OF key] True later [of "Key mr"] numeric_request_amount [OF num]
        quantity_nonneg [OF Cons.prems(3) [OF key]] by auto
    from mutate_resource [OF True num Cons.prems(3) [OF key]] fits obtain q where
      "mutate p mr = (None, q)"
      "map_get (Annotations q) (Key mr) = Some (format_int (n (Key mr) + amount mr))"
      "\<forall>k. k \<noteq> Key mr \<longrightarrow> map_get (Annotations q) k = map_get (Annotations p) k" by auto
    with fits Cons.prems(3) True show ?thesis
      by (intro exI [of _ q])
        (auto simp: n'_def add.commute intro: quantity_format_int quantity_cong [THEN trans])
  next
    case False
    from mutate_other [OF this, of p] obtain q where q: "mutate p mr = (None, q)"
      and same: "\<And>k. (Type mr = MutationTypeAnnotation \<Longrightarrow> k \<noteq> Key mr) \<Longrightarrow>
        map_get (Annotations q) k = map_get (Annotations p) k" by blast
    have "quantity q k = Some (n' k)" if "k \<in> K" for k
      using that False Cons.prems(2,3) by (subst quantity_cong [OF same]) (auto simp: n'_def)
    with q show ?thesis by blast
  qed
  then obtain q where q: "mutate p mr = (None, q)" "\<And>k. k \<in> K \<Longrightarrow> quantity q k = Some (n' k)"
    by blast
  have "n' k + requested k mrs < 2 ^ 63" if "k \<in> K" for k
    using Cons.prems(4) [OF that] by (simp add: n'_def)
  from Cons.IH [of q n', OF _ _ q(2) this] Cons.prems(1,2) q(1) show ?case
    by (auto simp: n'_def add.assoc add.left_commute)
qed


section \<open>The last writer wins\<close>

text \<open>What one request writes to the label \<open>k\<close>, and to \<open>spec.managedBy\<close>, if it does.\<close>

definition label_write :: "string \<Rightarrow> MutationRequest \<Rightarrow> string option" where
  "label_write k mr =
     (if Type mr = MutationTypeLabel \<and> Key mr = k then Some (Value mr)
      else if Type mr = MutationTypeMultiKueue \<and> k = QueueLabel \<and> Value mr \<noteq> [] then Some (Value mr)
      else None)"

definition managedBy_write :: "MutationRequest \<Rightarrow> string option" where
  "managedBy_write mr =
     (if Type mr = MutationTypeManagedBy then Some (Value mr)
      else if Type mr = MutationTypeMultiKueue then Some ManagedByMultiKueueLabel
      else None)"

definition or_else :: "'a option \<Rightarrow> 'a option \<Rightarrow> 'a option" where
  "or_else a b = (case a of None \<Rightarrow> b | Some x \<Rightarrow> Some x)"

lemma or_else_simps [simp]: "or_else None b = b" "or_else (Some x) b = Some x"
  by (simp_all add: or_else_def)

lemma last_some_Cons: "last_some f (x # xs) = or_else (last_some f xs) (f x)"
  by (simp add: or_else_def)

lemma or_else_assoc: "or_else (or_else a b) c = or_else a (or_else b c)"
  by (cases a) simp_all

lemma mutate_labels:
  "mutate p mr = (None, q) \<Longrightarrow> map_get (Labels q) k = or_else (label_write k mr) (map_get (Labels p) k)"
  by (auto simp: mutate_def Let_def label_write_def split: if_splits sum.splits option.splits)

lemma mutate_managedBy:
  "mutate p mr = (None, q) \<Longrightarrow> ManagedBy q = or_else (managedBy_write mr) (ManagedBy p)"
  by (auto simp: mutate_def Let_def managedBy_write_def split: if_splits sum.splits option.splits)

lemma applyLoop_writes:
  "applyLoop p mrs = (None, q) \<Longrightarrow>
     map_get (Labels q) k = or_else (last_some (label_write k) mrs) (map_get (Labels p) k) \<and>
     ManagedBy q = or_else (last_some managedBy_write mrs) (ManagedBy p)"
proof (induction mrs arbitrary: p)
  case (Cons mr mrs)
  then obtain p1 where one: "mutate p mr = (None, p1)" and rest: "applyLoop p1 mrs = (None, q)"
    by (auto split: prod.splits option.splits)
  from Cons.IH [OF rest] mutate_labels [OF one, of k] mutate_managedBy [OF one] show ?case
    by (simp add: last_some_Cons or_else_assoc del: last_some.simps)
qed simp


section \<open>Properties\<close>

text \<open>Two programs for the instances: one asks for two virtual machines, one for a queue.\<close>

definition vmKey :: string where
  "vmKey = ''kueue.konflux-ci.dev/requests-vm''"

definition sample_requests :: "MutationRequest list" where
  "sample_requests =
     [\<lparr>Type = MutationTypeResource, Key = vmKey, Value = ''2''\<rparr>,
      \<lparr>Type = MutationTypeResource, Key = vmKey, Value = ''3''\<rparr>,
      \<lparr>Type = MutationTypeLabel, Key = ''team'', Value = ''a''\<rparr>,
      \<lparr>Type = MutationTypeMultiKueue, Key = ''managedBy'', Value = ''fast''\<rparr>]"

definition sample_cel_mutator :: "unit CELMutator" where
  "sample_cel_mutator = NewCELMutator
     [sample_program (\<lambda>vars. Inr (RefVal (GoRefSlice
        (map (\<lambda>mr. mutationMap (Type mr) (Key mr) (Value mr)) sample_requests))))]"

lemma sample_requests_valid: "mr \<in> set sample_requests \<Longrightarrow> Validate mr = None"
  by (auto simp: sample_requests_def Validate_None_iff vmKey_def)

lemma convert_mutationMaps:
  assumes "\<And>mr. mr \<in> set mrs \<Longrightarrow> Validate mr = None"
  shows "convertToMutationRequests
     (RefVal (GoRefSlice (map (\<lambda>mr. mutationMap (Type mr) (Key mr) (Value mr)) mrs))) = Inr mrs"
proof -
  have "list_all2 (\<lambda>mr mr'. convertSingleMutation
      (native (mutationMap (Type mr) (Key mr) (Value mr))) = Inr mr') mrs mrs"
    using assms by (auto simp: list_all2_same Validate_None_iff)
  then show ?thesis
    by (simp add: convertToMutationRequests_def convertListToMutations_ok list_all2_map1)
qed

lemma sample_tekton_simps [simp]:
  "SetDefaults sample_tekton p = p" "SpecValidate sample_tekton p = None"
  "structToCELMap sample_tekton p = Inr Map.empty"
  by (simp_all add: sample_tekton_def structToCELMap_def)

lemma sample_evaluate [simp]:
  "evaluate sample_tekton sample_cel_mutator p m = (Inr sample_requests, RecordEvaluationSuccess m)"
proof -
  have "firstInvalid 0 sample_requests = None"
    using sample_requests_valid by (simp add: firstInvalid_None)
  with convert_mutationMaps [OF sample_requests_valid] show ?thesis
    by (simp add: evaluate_def sample_cel_mutator_def NewCELMutator_def Evaluate_def sample_program_def)
qed

lemma sample_programs [simp]: "programs sample_cel_mutator \<noteq> []"
  by (simp add: sample_cel_mutator_def NewCELMutator_def)

lemma Atoi_digit: "Atoi ''2'' = Inr 2" "Atoi ''3'' = Inr 3"
  by (simp_all add: Atoi_def split_sign_def is_digit_def digit_val_def)

text \<open>
  (C11) Resource requests add up. When the expressions evaluate to \<open>mrs\<close>, every quantity of
  the run grows by the sum of what \<open>mrs\<close> requests of it, whatever the order and however many
  expressions contribute, provided the resource values are non-negative numbers, the
  annotations already present are too, no sum leaves the \<open>int64\<close> range, and no
  \<open>annotation\<close> request overwrites one of the keys.
\<close>

theorem resource_requests_add_up:
  assumes "programs cm \<noteq> []" and "SpecValidate T (SetDefaults T p) = None"
    and "evaluate T cm (SetDefaults T p) m = (Inr mrs, m')"
    and "\<And>mr. mr \<in> set mrs \<Longrightarrow> Type mr = MutationTypeResource \<Longrightarrow> numeric_request mr \<and> Key mr \<in> K"
    and "\<And>mr. mr \<in> set mrs \<Longrightarrow> Type mr = MutationTypeAnnotation \<Longrightarrow> Key mr \<notin> K"
    and "\<And>k. k \<in> K \<Longrightarrow> quantity p k = Some (n k)"
    and "\<And>k. k \<in> K \<Longrightarrow> n k + requested k mrs < 2 ^ 63"
  shows "\<exists>q. MutateRun T cm p m = (None, q, RecordMutationSuccess (RecordEvaluationSuccess m)) \<and>
             (\<forall>k \<in> K. quantity q k = Some (n k + requested k mrs))"
proof -
  from applyLoop_quantities [of mrs K p n] assms(4-7) obtain q where
    q: "applyLoop p mrs = (None, q)" "\<forall>k \<in> K. quantity q k = Some (n k + requested k mrs)"
    by (auto simp: is_resource_def)
  have "m' = RecordEvaluationSuccess m" using evaluate_ok(1) [OF assms(3)] .
  with q assms(1-3) show ?thesis by (simp add: MutateRun_def)
qed

theorem resource_requests_add_up_witness:
  "\<exists>q m'. MutateRun sample_tekton sample_cel_mutator sample_run zero_metrics = (None, q, m') \<and>
          quantity q vmKey = Some 5"
proof -
  have two: "requested vmKey sample_requests = 5"
    by (simp add: sample_requests_def is_resource_def amount_def Atoi_digit)
  have "\<exists>q. MutateRun sample_tekton sample_cel_mutator sample_run zero_metrics =
        (None, q, RecordMutationSuccess (RecordEvaluationSuccess zero_metrics)) \<and>
      (\<forall>k \<in> {vmKey}. quantity q k = Some ((\<lambda>_. 0) k + requested k sample_requests))"
    by (rule resource_requests_add_up [where m' = "RecordEvaluationSuccess zero_metrics"])
      (auto simp: two, auto simp: sample_requests_def numeric_request_def Atoi_digit quantity_def)
  with two show ?thesis by auto
qed

text \<open>
  (C21) What \<open>Mutate\<close> leaves behind, for every outcome. A nil run is an error that moves no
  counter. Without expressions the run is kept and a successful mutation is counted. A run that
  is invalid or cannot be converted to a CEL value is a \<open>ValidationError\<close>: it is kept and no
  counter moves. When an expression fails, the call is an \<open>EvaluationError\<close>, the run is kept,
  one failed evaluation is counted and no mutation. Otherwise one successful evaluation is
  counted for the whole list of expressions, and one mutation, as successful exactly when the
  call returns no error; its only errors are \<open>EvaluationError\<close>s.
\<close>

theorem Mutate_accounting:
  assumes "Mutate T cm (Some p) m = (e, q, m')"
  shows "(\<exists>err. Mutate T cm None m = (Some err, None, m)) \<and>
    (if programs cm = [] then
       e = None \<and> q = Some p \<and> m' = m\<lparr>celMutationsTotal := Inc ''success'' (celMutationsTotal m)\<rparr>
     else if SpecValidate T (SetDefaults T p) \<noteq> None \<or> \<not> is_ok (structToCELMap T (SetDefaults T p)) then
       (\<exists>e'. e = Some (ValidationError e')) \<and> q = Some p \<and> m' = m
     else if \<exists>cp \<in> set (programs cm). \<exists>err m1. Evaluate T cp (Some (SetDefaults T p)) m = (Inl err, m1) then
       (\<exists>e'. e = Some (EvaluationError e')) \<and> q = Some p \<and>
       m' = m\<lparr>celEvaluationsTotal := Inc ''failure'' (celEvaluationsTotal m)\<rparr>
     else
       (e = None \<or> (\<exists>e'. e = Some (EvaluationError e'))) \<and>
       m' = m\<lparr>celEvaluationsTotal := Inc ''success'' (celEvaluationsTotal m),
              celMutationsTotal := Inc (if e = None then ''success'' else ''failure'') (celMutationsTotal m)\<rparr>)"
proof -
  let ?p = "SetDefaults T p"
  have nil: "\<exists>err. Mutate T cm None m = (Some err, None, m)" by (simp add: Mutate_def)
  consider (skip) "programs cm = []" | (invalid) errs where "programs cm \<noteq> []" "SpecValidate T ?p = Some errs"
    | (run) "programs cm \<noteq> []" "SpecValidate T ?p = None" by auto
  then show ?thesis
  proof cases
    case run
    obtain r m1 where ev: "evaluate T cm ?p m = (r, m1)" by (rule prod.exhaust)
    from this run(1) show ?thesis
    proof (cases rule: evaluate_outcome)
      case (succeeds mrs)
      obtain oe p' where ap: "applyLoop p mrs = (oe, p')" by (rule prod.exhaust)
      have "\<exists>e'. err = EvaluationError e'" if "oe = Some err" for err
        using applyLoop_error_kind [of p mrs err p'] ap that
        by (auto simp: is_EvaluationError_val_def split: go_error.splits)
      with assms nil run ev succeeds ap show ?thesis
        by (cases oe) (auto simp: Mutate_def MutateRun_def metrics_defs)
    qed (use assms nil run ev in \<open>auto simp: Mutate_def MutateRun_def metrics_defs\<close>)
  qed (use assms nil in \<open>auto simp: Mutate_def MutateRun_def metrics_defs\<close>)
qed

theorem Mutate_accounting_witness:
  "\<exists>q m'. Mutate sample_tekton sample_cel_mutator (Some sample_run) zero_metrics = (None, q, m') \<and>
          celMutationsTotal m' ''success'' = 1 \<and> celMutationsTotal m' ''failure'' = 0"
proof -
  obtain e q m' where mut:
    "Mutate sample_tekton sample_cel_mutator (Some sample_run) zero_metrics = (e, q, m')"
    by (rule prod_cases3)
  moreover have "e = None"
    using mut by (simp add: Mutate_def MutateRun_def sample_requests_def mutate_def Atoi_digit
        quantity_def Itoa_def Atoi_format_int)
  ultimately show ?thesis
    using Mutate_accounting [OF mut] by (auto simp: zero_metrics_def Inc_apply split: if_splits)
qed

text \<open>
  The last writer wins. After a list of requests has been applied, every label and
  \<open>spec.managedBy\<close> has the value of the last request that writes it, or its old value when
  none does; a \<open>multiKueue\<close> request with a queue name writes the queue label too.
\<close>

lemma requests_last_writer_wins:
  assumes "applyLoop p mrs = (None, q)"
  shows "(\<forall>k. map_get (Labels q) k =
            (case last_some (label_write k) mrs of Some v \<Rightarrow> Some v | None \<Rightarrow> map_get (Labels p) k)) \<and>
         ManagedBy q =
            (case last_some managedBy_write mrs of Some v \<Rightarrow> Some v | None \<Rightarrow> ManagedBy p)"
  using applyLoop_writes [OF assms] by (auto simp: or_else_def split: option.splits)

end
