(* ===== verification/ConfigStore.thy ===== *)
theory ConfigStore
  imports CelMutator
begin

text \<open>
  \<^verbatim>\<open>pkg/config/config_type.go\<close> and \<^verbatim>\<open>internal/webhook/v1/config_store.go\<close>: the webhook's
  configuration and the store that holds it with the mutators compiled from it. Both
  operations run under the store's lock, so here they are atomic; theory
  \<open>ConfigStoreConcurrency\<close> takes them apart into the steps the lock orders.

  \<open>Y\<close> stands for the YAML decoder of \<open>k8s.io/apimachinery\<close>, applied to a zero \<open>Config\<close>.
\<close>

record CEL =
  Expressions :: "string list"

record Config =
  QueueName :: string
  MultiKueueOverride :: bool
  CfgCEL :: CEL

type_synonym yaml = "bytes \<Rightarrow> Config result"

record 'r ConfigStore =
  config :: "Config option"
  mutators :: "'r mutator list"

definition emptyStore :: "'r ConfigStore" where
  "emptyStore = \<lparr>config = None, mutators = []\<rparr>"

definition GetConfigAndMutators :: "'r ConfigStore \<Rightarrow> Config option \<times> 'r mutator list" where
  "GetConfigAndMutators s = (config s, mutators s)"

definition validateConfig :: "Config \<Rightarrow> go_error option" where
  "validateConfig cfg =
     (if QueueName cfg = [] then
        Some (Errorf ''queue name is not set in the PipelineRunCustomDefaulter'' [])
      else None)"

definition parseConfig :: "yaml \<Rightarrow> bytes \<Rightarrow> Config result" where
  "parseConfig Y raw = (case Y raw of Inl err \<Rightarrow> Inl err | Inr cfg \<Rightarrow> Inr cfg)"

text \<open>
  The part of \<open>Update\<close> between taking the lock and writing the fields: parse, validate and
  compile. Each of its failures is counted and returned by \<open>Update\<close>.
\<close>

definition prepareUpdate ::
    "('env, 'ast) cel_go \<Rightarrow> validation \<Rightarrow> 'r tekton \<Rightarrow> yaml \<Rightarrow> bytes
       \<Rightarrow> (Config \<times> 'r mutator list) result" where
  "prepareUpdate C V T Y rawConfig =
     (case parseConfig Y rawConfig of
        Inl err \<Rightarrow> Inl err
      | Inr cfg \<Rightarrow>
          (case validateConfig cfg of
             Some err \<Rightarrow> Inl err
           | None \<Rightarrow>
               (if length (Expressions (CfgCEL cfg)) \<noteq> 0 then
                  (case CompileCELPrograms C V (Expressions (CfgCEL cfg)) of
                     Inl err \<Rightarrow> Inl err
                   | Inr ps \<Rightarrow> Inr (cfg, [MutateRun T (NewCELMutator ps)]))
                else Inr (cfg, []))))"

definition Update ::
    "('env, 'ast) cel_go \<Rightarrow> validation \<Rightarrow> 'r tekton \<Rightarrow> yaml \<Rightarrow> bytes \<Rightarrow> 'r ConfigStore
       \<Rightarrow> metrics \<Rightarrow> go_error option \<times> 'r ConfigStore \<times> metrics" where
  "Update C V T Y rawConfig s m =
     (case prepareUpdate C V T Y rawConfig of
        Inl err \<Rightarrow> (Some err, s, RecordReloadFailure m)
      | Inr (cfg, muts) \<Rightarrow>
          (None, s\<lparr>mutators := muts, config := Some cfg\<rparr>, RecordReloadSuccess m))"


section \<open>The store's invariant\<close>

text \<open>
  The mutators are the ones compiled from the stored configuration, whose queue name is
  set; before the first accepted configuration the store is empty.
\<close>

definition mutators_for ::
    "('env, 'ast) cel_go \<Rightarrow> validation \<Rightarrow> 'r tekton \<Rightarrow> Config \<Rightarrow> 'r mutator list \<Rightarrow> bool" where
  "mutators_for C V T cfg muts \<longleftrightarrow>
     (if Expressions (CfgCEL cfg) = [] then muts = []
      else \<exists>ps. CompileCELPrograms C V (Expressions (CfgCEL cfg)) = Inr ps \<and>
                muts = [MutateRun T (NewCELMutator ps)])"

definition consistent_pair ::
    "('env, 'ast) cel_go \<Rightarrow> validation \<Rightarrow> 'r tekton \<Rightarrow> Config option \<Rightarrow> 'r mutator list \<Rightarrow> bool" where
  "consistent_pair C V T c muts \<longleftrightarrow>
     (case c of None \<Rightarrow> muts = []
      | Some cfg \<Rightarrow> QueueName cfg \<noteq> [] \<and> mutators_for C V T cfg muts)"

definition store_ok ::
    "('env, 'ast) cel_go \<Rightarrow> validation \<Rightarrow> 'r tekton \<Rightarrow> 'r ConfigStore \<Rightarrow> bool" where
  "store_ok C V T s \<longleftrightarrow> consistent_pair C V T (config s) (mutators s)"

lemma store_ok_empty [simp]: "store_ok C V T emptyStore"
  by (simp add: store_ok_def consistent_pair_def emptyStore_def)

lemma prepareUpdate_ok:
  "prepareUpdate C V T Y raw = Inr (cfg, muts) \<longleftrightarrow>
     Y raw = Inr cfg \<and> QueueName cfg \<noteq> [] \<and> mutators_for C V T cfg muts"
  by (auto simp: prepareUpdate_def parseConfig_def validateConfig_def mutators_for_def
           split: sum.splits if_splits)

lemma prepareUpdate_consistent:
  "prepareUpdate C V T Y raw = Inr (cfg, muts) \<Longrightarrow> consistent_pair C V T (Some cfg) muts"
  by (simp add: prepareUpdate_ok consistent_pair_def)

lemma Update_cases:
  obtains (rejected) e where "prepareUpdate C V T Y raw = Inl e"
      "Update C V T Y raw s m = (Some e, s, RecordReloadFailure m)"
  | (accepted) cfg muts where "prepareUpdate C V T Y raw = Inr (cfg, muts)"
      "Update C V T Y raw s m =
         (None, s\<lparr>mutators := muts, config := Some cfg\<rparr>, RecordReloadSuccess m)"
  by (cases "prepareUpdate C V T Y raw") (auto simp: Update_def)

lemma Update_store_ok:
  "store_ok C V T s \<Longrightarrow> Update C V T Y raw s m = (e, s', m') \<Longrightarrow> store_ok C V T s'"
  by (cases rule: Update_cases [of C V T Y raw s m])
    (auto simp: store_ok_def prepareUpdate_consistent)

lemma consistent_pair_mutators:
  assumes "consistent_pair C V T c muts" "mu \<in> set muts"
  shows "pipeline_run_mutator mu"
  using assms cel_mutator.pipeline_run_mutator_axioms
  by (auto simp: consistent_pair_def mutators_for_def split: option.splits if_splits)


section \<open>The interface of the store\<close>

text \<open>
  What the admission webhook and the ConfigMap reconciler rely on: a failed update leaves
  what a read returns as it was, a successful one publishes a configuration with a queue
  name, and the mutators that are read keep the mutator contract.
\<close>

locale config_source =
  fixes upd :: "bytes \<Rightarrow> 's \<Rightarrow> metrics \<Rightarrow> go_error option \<times> 's \<times> metrics"
    and get :: "'s \<Rightarrow> Config option \<times> 'r mutator list"
    and ok :: "'s \<Rightarrow> bool"
  assumes failed_keeps: "upd raw s m = (Some err, s', m') \<Longrightarrow> get s' = get s"
    and accepted_sets: "upd raw s m = (None, s', m') \<Longrightarrow>
      \<exists>cfg muts. get s' = (Some cfg, muts) \<and> QueueName cfg \<noteq> []"
    and upd_ok: "ok s \<Longrightarrow> upd raw s m = (e, s', m') \<Longrightarrow> ok s'"
    and get_mutators: "ok s \<Longrightarrow> get s = (c, muts) \<Longrightarrow> mu \<in> set muts \<Longrightarrow> pipeline_run_mutator mu"
    and get_queue: "ok s \<Longrightarrow> get s = (Some cfg, muts) \<Longrightarrow> QueueName cfg \<noteq> []"
begin

text \<open>A run of updates, in order; the errors are dropped as the caller only logs them.\<close>

fun runs :: "bytes list \<Rightarrow> 's \<Rightarrow> metrics \<Rightarrow> 's \<times> metrics" where
  "runs [] s m = (s, m)"
| "runs (raw # raws) s m = (case upd raw s m of (e, s', m') \<Rightarrow> runs raws s' m')"

lemma runs_ok: "ok s \<Longrightarrow> ok (fst (runs raws s m))"
  by (induction raws s m rule: runs.induct) (auto split: prod.splits dest: upd_ok)

lemma runs_append: "runs (xs @ ys) s m = (case runs xs s m of (s', m') \<Rightarrow> runs ys s' m')"
  by (induction xs s m rule: runs.induct) (auto split: prod.split)

lemma upd_loaded:
  "fst (get s) \<noteq> None \<Longrightarrow> upd raw s m = (e, s', m') \<Longrightarrow> fst (get s') \<noteq> None"
  using failed_keeps accepted_sets by (cases e) fastforce+

lemma runs_loaded: "fst (get s) \<noteq> None \<Longrightarrow> fst (get (fst (runs raws s m))) \<noteq> None"
proof (induction raws s m rule: runs.induct)
  case (2 raw raws s m)
  obtain e s' m' where u: "upd raw s m = (e, s', m')" by (rule prod_cases3)
  from "2.IH" [OF u [symmetric] refl upd_loaded [OF "2.prems" u]] u show ?case by simp
qed simp

end

interpretation config_store: config_source
  "Update C V T Y" GetConfigAndMutators "store_ok C V T"
proof (rule config_source.intro)
  fix raw s m e s' m'
  assume "Update C V T Y raw s m = (Some e, s', m')"
  then show "GetConfigAndMutators s' = GetConfigAndMutators s"
    by (cases rule: Update_cases [of C V T Y raw s m]) auto
next
  fix raw s m s' m'
  assume "Update C V T Y raw s m = (None, s', m')"
  then show "\<exists>cfg muts. GetConfigAndMutators s' = (Some cfg, muts) \<and> QueueName cfg \<noteq> []"
    by (cases rule: Update_cases [of C V T Y raw s m])
      (auto simp: GetConfigAndMutators_def prepareUpdate_ok)
next
  fix s raw m e s' m'
  assume "store_ok C V T s" "Update C V T Y raw s m = (e, s', m')"
  then show "store_ok C V T s'" by (rule Update_store_ok)
next
  fix s c muts mu
  assume "store_ok C V T s" "GetConfigAndMutators s = (c, muts)" "mu \<in> set muts"
  then show "pipeline_run_mutator mu"
    by (auto simp: GetConfigAndMutators_def store_ok_def intro: consistent_pair_mutators)
next
  fix s cfg muts
  assume "store_ok C V T s" "GetConfigAndMutators s = (Some cfg, muts)"
  then show "QueueName cfg \<noteq> []"
    by (auto simp: GetConfigAndMutators_def store_ok_def consistent_pair_def)
qed



section \<open>Properties\<close>

text \<open>Configurations for the instances: one that is complete, one without a queue name.\<close>

definition sample_config :: Config where
  "sample_config = \<lparr>QueueName = ''pipelines'', MultiKueueOverride = False,
     CfgCEL = \<lparr>Expressions = [''expr'']\<rparr>\<rparr>"

definition unnamed_config :: Config where
  "unnamed_config = \<lparr>QueueName = [], MultiKueueOverride = True, CfgCEL = \<lparr>Expressions = []\<rparr>\<rparr>"

definition sample_yaml :: yaml where
  "sample_yaml raw = (if raw = ''good'' then Inr sample_config
     else if raw = ''unnamed'' then Inr unnamed_config else Inl (LibError ''yaml''))"

lemma sample_compile:
  "CompileCELPrograms sample_cel sample_validation [e] =
     (if e = [] then Inl (Errorf ''expression %d cannot be empty'' [ArgI 0])
      else if e = ''broken('' then
        Inl (Errorf ''failed to compile expression %d (%q): %w'' [ArgI 0, ArgS e,
          ArgW (Errorf ''type checking failed for expression %q: %w'' [ArgS e, ArgW (LibError ''syntax'')])])
      else Inr [\<lparr>program = (\<lambda>vars. Inr (mutationMap MutationTypeAnnotation ''source'' e)),
                 ast = e, expression = e\<rparr>])"
  by (simp add: CompileCELPrograms_def createCELEnvironment_def sample_cel_def
      compileSingleExpression_def validateExpressionReturnType_def mutationRequestType_def
      isValidOutputType_iff)

definition sample_mutators :: "unit mutator list" where
  "sample_mutators = [MutateRun sample_tekton (NewCELMutator
     [\<lparr>program = (\<lambda>vars. Inr (mutationMap MutationTypeAnnotation ''source'' ''expr'')),
       ast = ''expr'', expression = ''expr''\<rparr>])]"

lemma sample_prepare:
  "prepareUpdate sample_cel sample_validation sample_tekton sample_yaml ''good'' =
     Inr (sample_config, sample_mutators)"
  by (simp add: prepareUpdate_def parseConfig_def sample_yaml_def sample_config_def
      validateConfig_def sample_compile sample_mutators_def)

text \<open>
  (C17) Last known good. An update is accepted exactly when the bytes decode, the queue name
  is set and every expression compiles; it then replaces configuration and mutators
  together. A rejected update leaves both as they were. Each call moves exactly one reload
  counter by one, and the store's invariant is kept.
\<close>

theorem Update_last_known_good:
  assumes "Update C V T Y raw s m = (e, s', m')"
  shows "(e = None \<longleftrightarrow>
       (\<exists>cfg. Y raw = Inr cfg \<and> QueueName cfg \<noteq> [] \<and>
          (Expressions (CfgCEL cfg) = [] \<or> is_ok (CompileCELPrograms C V (Expressions (CfgCEL cfg)))))) \<and>
     (e = None \<longrightarrow> Inr (the (config s')) = Y raw \<and> config s' \<noteq> None \<and>
        configReloadTotal m' = (configReloadTotal m)(''success'' := configReloadTotal m ''success'' + 1)) \<and>
     (e \<noteq> None \<longrightarrow> s' = s \<and>
        configReloadTotal m' = (configReloadTotal m)(''failure'' := configReloadTotal m ''failure'' + 1)) \<and>
     (store_ok C V T s \<longrightarrow> store_ok C V T s')"
proof -
  have "(e = None) = is_ok (prepareUpdate C V T Y raw)"
    using assms by (cases rule: Update_cases [of C V T Y raw s m]) auto
  also have "\<dots> = (\<exists>cfg. Y raw = Inr cfg \<and> QueueName cfg \<noteq> [] \<and>
      (Expressions (CfgCEL cfg) = [] \<or> is_ok (CompileCELPrograms C V (Expressions (CfgCEL cfg)))))"
    by (auto simp: is_ok_iff prepareUpdate_ok mutators_for_def)
  finally have iff: "(e = None) = \<dots>" .
  from assms show ?thesis
    by (cases rule: Update_cases [of C V T Y raw s m])
      (use iff Update_store_ok [OF _ assms] in \<open>auto simp: prepareUpdate_ok metrics_defs Inc_def\<close>)
qed

theorem Update_last_known_good_witness:
  "\<exists>s m. Update sample_cel sample_validation sample_tekton sample_yaml ''good'' emptyStore zero_metrics
           = (None, s, m) \<and> config s = Some sample_config \<and> configReloadTotal m ''success'' = 1 \<and>
         store_ok sample_cel sample_validation sample_tekton s"
proof -
  obtain s m where u: "Update sample_cel sample_validation sample_tekton sample_yaml ''good''
      emptyStore zero_metrics = (None, s, m)"
    by (simp add: Update_def sample_prepare)
  from Update_last_known_good [OF u] u show ?thesis
    by (auto simp: sample_yaml_def zero_metrics_def)
qed

end
