(* ===== verification/ConfigStoreConcurrency.thy ===== *)
theory ConfigStoreConcurrency
  imports ConfigStore
begin

text \<open>
  The two methods of \<open>ConfigStore\<close> as interleaved steps. Any number of goroutines call
  \<open>GetConfigAndMutators\<close> (one per admission request) and \<open>Update\<close> (the ConfigMap reconciler).
  Each shared access is its own step: a reader loads \<open>s.config\<close> and then \<open>s.mutators\<close>, a
  writer stores \<open>s.mutators\<close> and then \<open>s.config\<close>, so without the lock a reader could see the
  mutators of one configuration with another configuration.

  \<open>sync.RWMutex\<close> is its holder set: \<open>Lock\<close> waits for no writer and no readers, \<open>RLock\<close> for no
  writer. A writer counts its outcome before it releases the lock.
\<close>

datatype 'r pc =
    Idle
  | RLocked
  | RConfig "Config option"
  | RBoth "Config option" "'r mutator list"
  | RDone "Config option" "'r mutator list"
  | WLocked bytes "'r ConfigStore"
  | WReady bytes "'r ConfigStore" Config "'r mutator list"
  | WMutators bytes "'r ConfigStore" Config "'r mutator list"
  | WConfig bytes "'r ConfigStore"
  | WRecorded bytes "'r ConfigStore"
  | WRejected bytes "'r ConfigStore"

text \<open>
  The writer's states carry the bytes being loaded and, for the proofs only, the store as it
  was when the lock was taken; \<open>updates\<close>, for the proofs too, lists the bytes of the updates
  that have returned, in the order in which they held the lock.
\<close>

record 'r cstate =
  store :: "'r ConfigStore"
  writer :: "nat option"
  readers :: "nat set"
  pcs :: "nat \<Rightarrow> 'r pc"
  counters :: metrics
  updates :: "bytes list"

definition init_cstate :: "'r cstate" where
  "init_cstate = \<lparr>store = emptyStore, writer = None, readers = {}, pcs = \<lambda>_. Idle,
     counters = zero_metrics, updates = []\<rparr>"

definition goto :: "nat \<Rightarrow> 'r pc \<Rightarrow> 'r cstate \<Rightarrow> 'r cstate" where
  "goto i l s = s\<lparr>pcs := (pcs s)(i := l)\<rparr>"

inductive cstep ::
    "('env, 'ast) cel_go \<Rightarrow> validation \<Rightarrow> 'r tekton \<Rightarrow> yaml \<Rightarrow> 'r cstate \<Rightarrow> 'r cstate \<Rightarrow> bool"
  for C V T Y where
  r_lock: "pcs s i = Idle \<Longrightarrow> writer s = None \<Longrightarrow>
     cstep C V T Y s (goto i RLocked (s\<lparr>readers := insert i (readers s)\<rparr>))"
| r_config: "pcs s i = RLocked \<Longrightarrow>
     cstep C V T Y s (goto i (RConfig (config (store s))) s)"
| r_mutators: "pcs s i = RConfig c \<Longrightarrow>
     cstep C V T Y s (goto i (RBoth c (mutators (store s))) s)"
| r_unlock: "pcs s i = RBoth c muts \<Longrightarrow>
     cstep C V T Y s (goto i (RDone c muts) (s\<lparr>readers := readers s - {i}\<rparr>))"
| r_return: "pcs s i = RDone c muts \<Longrightarrow>
     cstep C V T Y s (goto i Idle s)"
| w_lock: "pcs s i = Idle \<Longrightarrow> writer s = None \<Longrightarrow> readers s = {} \<Longrightarrow>
     cstep C V T Y s (goto i (WLocked raw (store s)) (s\<lparr>writer := Some i\<rparr>))"
| w_reject: "pcs s i = WLocked raw base \<Longrightarrow> prepareUpdate C V T Y raw = Inl err \<Longrightarrow>
     cstep C V T Y s (goto i (WRejected raw base) (s\<lparr>counters := RecordReloadFailure (counters s)\<rparr>))"
| w_reject_unlock: "pcs s i = WRejected raw base \<Longrightarrow>
     cstep C V T Y s (goto i Idle (s\<lparr>writer := None, updates := updates s @ [raw]\<rparr>))"
| w_prepare: "pcs s i = WLocked raw base \<Longrightarrow> prepareUpdate C V T Y raw = Inr (cfg, muts) \<Longrightarrow>
     cstep C V T Y s (goto i (WReady raw base cfg muts) s)"
| w_mutators: "pcs s i = WReady raw base cfg muts \<Longrightarrow>
     cstep C V T Y s (goto i (WMutators raw base cfg muts)
       (s\<lparr>store := (store s)\<lparr>mutators := muts\<rparr>\<rparr>))"
| w_config: "pcs s i = WMutators raw base cfg muts \<Longrightarrow>
     cstep C V T Y s (goto i (WConfig raw base)
       (s\<lparr>store := (store s)\<lparr>config := Some cfg\<rparr>\<rparr>))"
| w_record: "pcs s i = WConfig raw base \<Longrightarrow>
     cstep C V T Y s (goto i (WRecorded raw base) (s\<lparr>counters := RecordReloadSuccess (counters s)\<rparr>))"
| w_unlock: "pcs s i = WRecorded raw base \<Longrightarrow>
     cstep C V T Y s (goto i Idle (s\<lparr>writer := None, updates := updates s @ [raw]\<rparr>))"

inductive creachable ::
    "('env, 'ast) cel_go \<Rightarrow> validation \<Rightarrow> 'r tekton \<Rightarrow> yaml \<Rightarrow> 'r cstate \<Rightarrow> bool"
  for C V T Y where
  start: "creachable C V T Y init_cstate"
| step: "creachable C V T Y s \<Longrightarrow> cstep C V T Y s t \<Longrightarrow> creachable C V T Y t"


section \<open>The invariant\<close>

definition reading :: "'r pc \<Rightarrow> bool" where
  "reading l = (case l of RLocked \<Rightarrow> True | RConfig _ \<Rightarrow> True | RBoth _ _ \<Rightarrow> True | _ \<Rightarrow> False)"

definition writing :: "'r pc \<Rightarrow> bool" where
  "writing l = (case l of WLocked _ _ \<Rightarrow> True | WReady _ _ _ _ \<Rightarrow> True | WMutators _ _ _ _ \<Rightarrow> True
     | WConfig _ _ \<Rightarrow> True | WRecorded _ _ \<Rightarrow> True | WRejected _ _ \<Rightarrow> True | _ \<Rightarrow> False)"

text \<open>What a goroutine at \<open>l\<close> knows of the store.\<close>

definition knows ::
    "('env, 'ast) cel_go \<Rightarrow> validation \<Rightarrow> 'r tekton \<Rightarrow> yaml \<Rightarrow> 'r ConfigStore \<Rightarrow> 'r pc \<Rightarrow> bool" where
  "knows C V T Y st l = (case l of
       RConfig c \<Rightarrow> c = config st
     | RBoth c muts \<Rightarrow> c = config st \<and> muts = mutators st
     | RDone c muts \<Rightarrow> consistent_pair C V T c muts
     | WLocked raw base \<Rightarrow> st = base \<and> store_ok C V T st
     | WReady raw base cfg muts \<Rightarrow>
         st = base \<and> store_ok C V T st \<and> prepareUpdate C V T Y raw = Inr (cfg, muts)
     | WMutators raw base cfg muts \<Rightarrow>
         st = base\<lparr>mutators := muts\<rparr> \<and> prepareUpdate C V T Y raw = Inr (cfg, muts)
     | WConfig raw base \<Rightarrow>
         (\<exists>cfg muts. prepareUpdate C V T Y raw = Inr (cfg, muts) \<and>
            st = base\<lparr>mutators := muts, config := Some cfg\<rparr>)
     | WRecorded raw base \<Rightarrow>
         (\<exists>cfg muts. prepareUpdate C V T Y raw = Inr (cfg, muts) \<and>
            st = base\<lparr>mutators := muts, config := Some cfg\<rparr>)
     | WRejected raw base \<Rightarrow>
         st = base \<and> store_ok C V T st \<and> (\<exists>err. prepareUpdate C V T Y raw = Inl err)
     | _ \<Rightarrow> True)"

definition cinv ::
    "('env, 'ast) cel_go \<Rightarrow> validation \<Rightarrow> 'r tekton \<Rightarrow> yaml \<Rightarrow> 'r cstate \<Rightarrow> bool" where
  "cinv C V T Y s \<longleftrightarrow>
     (\<forall>i. reading (pcs s i) \<longleftrightarrow> i \<in> readers s) \<and>
     (\<forall>i. writing (pcs s i) \<longleftrightarrow> writer s = Some i) \<and>
     (writer s \<noteq> None \<longrightarrow> readers s = {}) \<and>
     (writer s = None \<longrightarrow> store_ok C V T (store s)) \<and>
     (\<forall>i. knows C V T Y (store s) (pcs s i))"

lemma reading_simps [simp]:
  "\<not> reading Idle" "reading RLocked" "reading (RConfig c)" "reading (RBoth c ms)"
  "\<not> reading (RDone c ms)" "\<not> reading (WLocked r b)" "\<not> reading (WReady r b g ms)"
  "\<not> reading (WMutators r b g ms)" "\<not> reading (WConfig r b)" "\<not> reading (WRecorded r b)"
  "\<not> reading (WRejected r b)"
  by (simp_all add: reading_def)

lemma writing_simps [simp]:
  "\<not> writing Idle" "\<not> writing RLocked" "\<not> writing (RConfig c)" "\<not> writing (RBoth c ms)"
  "\<not> writing (RDone c ms)" "writing (WLocked r b)" "writing (WReady r b g ms)"
  "writing (WMutators r b g ms)" "writing (WConfig r b)" "writing (WRecorded r b)"
  "writing (WRejected r b)"
  by (simp_all add: writing_def)

lemma knows_simps [simp]:
  "knows C V T Y st Idle"
  "knows C V T Y st RLocked"
  "knows C V T Y st (RConfig c) \<longleftrightarrow> c = config st"
  "knows C V T Y st (RBoth c ms) \<longleftrightarrow> c = config st \<and> ms = mutators st"
  "knows C V T Y st (RDone c ms) \<longleftrightarrow> consistent_pair C V T c ms"
  "knows C V T Y st (WLocked r b) \<longleftrightarrow> st = b \<and> store_ok C V T st"
  "knows C V T Y st (WReady r b g ms) \<longleftrightarrow>
     st = b \<and> store_ok C V T st \<and> prepareUpdate C V T Y r = Inr (g, ms)"
  "knows C V T Y st (WMutators r b g ms) \<longleftrightarrow>
     st = b\<lparr>mutators := ms\<rparr> \<and> prepareUpdate C V T Y r = Inr (g, ms)"
  "knows C V T Y st (WConfig r b) \<longleftrightarrow>
     (\<exists>cfg muts. prepareUpdate C V T Y r = Inr (cfg, muts) \<and>
        st = b\<lparr>mutators := muts, config := Some cfg\<rparr>)"
  "knows C V T Y st (WRecorded r b) \<longleftrightarrow>
     (\<exists>cfg muts. prepareUpdate C V T Y r = Inr (cfg, muts) \<and>
        st = b\<lparr>mutators := muts, config := Some cfg\<rparr>)"
  "knows C V T Y st (WRejected r b) \<longleftrightarrow>
     st = b \<and> store_ok C V T st \<and> (\<exists>err. prepareUpdate C V T Y r = Inl err)"
  by (simp_all add: knows_def)

lemma goto_simps [simp]:
  "store (goto i l s) = store s" "writer (goto i l s) = writer s"
  "readers (goto i l s) = readers s" "pcs (goto i l s) = (pcs s)(i := l)"
  "counters (goto i l s) = counters s" "updates (goto i l s) = updates s"
  by (simp_all add: goto_def)

text \<open>
  While a goroutine neither reads nor writes, what it knows does not depend on the store:
  a writer's stores cannot invalidate it.
\<close>

lemma knows_outside: "\<not> reading l \<Longrightarrow> \<not> writing l \<Longrightarrow> knows C V T Y st l = knows C V T Y st' l"
  by (cases l) auto

lemma cinvI:
  assumes "\<And>i. reading (pcs s i) \<longleftrightarrow> i \<in> readers s" "\<And>i. writing (pcs s i) \<longleftrightarrow> writer s = Some i"
    "writer s \<noteq> None \<Longrightarrow> readers s = {}" "writer s = None \<Longrightarrow> store_ok C V T (store s)"
    "\<And>i. knows C V T Y (store s) (pcs s i)"
  shows "cinv C V T Y s"
  using assms by (auto simp: cinv_def)

lemma cinvD:
  assumes "cinv C V T Y s"
  shows "reading (pcs s i) \<longleftrightarrow> i \<in> readers s" "writing (pcs s i) \<longleftrightarrow> writer s = Some i"
    "writer s \<noteq> None \<Longrightarrow> readers s = {}" "writer s = None \<Longrightarrow> store_ok C V T (store s)"
    "knows C V T Y (store s) (pcs s i)"
  using assms by (simp_all add: cinv_def)

text \<open>Only the holder of the write lock is inside the critical sections while it stores.\<close>

lemma cinv_writer_alone:
  assumes "cinv C V T Y s" "writing (pcs s i)" "j \<noteq> i"
  shows "\<not> reading (pcs s j)" "\<not> writing (pcs s j)"
proof -
  have w: "writer s = Some i" using assms(1,2) cinvD(2) by blast
  then have "readers s = {}" using cinvD(3) [OF assms(1)] by simp
  then show "\<not> reading (pcs s j)" using cinvD(1) [OF assms(1)] by simp
  show "\<not> writing (pcs s j)" using cinvD(2) [OF assms(1), of j] w assms(3) by simp
qed

lemma cinv_init: "cinv C V T Y init_cstate"
  by (rule cinvI) (simp_all add: init_cstate_def)

lemma store_step_knows:
  assumes "cinv C V T Y s" "writing (pcs s i)" "knows C V T Y st l"
  shows "knows C V T Y st (((pcs s)(i := l)) j)"
proof (cases "j = i")
  case False
  with cinv_writer_alone [OF assms(1,2)] cinvD(5) [OF assms(1)] show ?thesis
    by (simp add: knows_outside [of "pcs s j" C V T Y st "store s"])
qed (simp add: assms(3))

text \<open>
  A step of goroutine \<open>i\<close> to \<open>l\<close> that leaves the store alone keeps the invariant when the lock
  follows the program counter: \<open>i\<close> is a reader exactly at the reading points, the writer exactly
  at the writing ones, and it came there past the guards of the lock.
\<close>

lemma reading_not_writing: "reading l \<Longrightarrow> \<not> writing l"
  by (cases l) simp_all

lemma cinv_goto:
  assumes inv: "cinv C V T Y s" and t: "t = goto i l s'"
    and s': "pcs s' = pcs s" "store s' = store s"
      "readers s' = (if reading l = reading (pcs s i) then readers s
         else if reading l then insert i (readers s) else readers s - {i})"
      "writer s' = (if writing l = writing (pcs s i) then writer s else if writing l then Some i else None)"
    and guards: "reading l \<Longrightarrow> \<not> reading (pcs s i) \<Longrightarrow> writer s = None"
      "writing l \<Longrightarrow> \<not> writing (pcs s i) \<Longrightarrow> writer s = None \<and> readers s = {} \<and> \<not> reading (pcs s i)"
    and knows: "knows C V T Y (store s) (pcs s i) \<Longrightarrow>
        (reading (pcs s i) \<or> writer s = None \<Longrightarrow> store_ok C V T (store s)) \<Longrightarrow> knows C V T Y (store s) l"
    and ok: "writing (pcs s i) \<Longrightarrow> \<not> writing l \<Longrightarrow> knows C V T Y (store s) (pcs s i) \<Longrightarrow>
        store_ok C V T (store s)"
  shows "cinv C V T Y t"
proof (rule cinvI)
  note i = cinvD(1,2) [OF inv, of i] cinvD(3,4) [OF inv]
  have read_ok: "store_ok C V T (store s)" if "reading (pcs s i) \<or> writer s = None"
    using that i by auto
  show "reading (pcs t j) \<longleftrightarrow> j \<in> readers t" for j
    using cinvD(1) [OF inv, of j] i(1) by (auto simp: t s')
  show "writing (pcs t j) \<longleftrightarrow> writer t = Some j" for j
    using cinvD(2) [OF inv, of j] i(2) guards(2) by (auto simp: t s')
  show "readers t = {}" if w: "writer t \<noteq> None"
  proof -
    have wt: "writer t = (if writing l = writing (pcs s i) then writer s else if writing l then Some i else None)"
      by (simp add: t s')
    have none: "readers s = {}" using w wt i(2,3) guards(2) by (metis option.distinct(1))
    have "\<not> reading l"
      using w wt i none guards(1) reading_not_writing by (metis empty_iff option.distinct(1))
    with none show ?thesis by (simp add: t s')
  qed
  show "store_ok C V T (store t)" if "writer t = None"
    using that i ok cinvD(5) [OF inv, of i] by (auto simp: t s' split: if_splits)
  have "knows C V T Y (store s) l" by (rule knows [OF cinvD(5) [OF inv] read_ok])
  then show "knows C V T Y (store t) (pcs t j)" for j
    using cinvD(5) [OF inv, of j] by (simp add: t s')
qed

text \<open>A step of the writer that changes the store: nobody else looks at it.\<close>

lemma cinv_store:
  assumes inv: "cinv C V T Y s" and t: "t = goto i l (s\<lparr>store := st\<rparr>)"
    and i: "writing (pcs s i)" "writing l"
    and knows: "knows C V T Y (store s) (pcs s i) \<Longrightarrow> knows C V T Y st l"
  shows "cinv C V T Y t"
proof (rule cinvI)
  note w = cinvD(2) [OF inv, of i]
  show "reading (pcs t j) \<longleftrightarrow> j \<in> readers t" for j
    using cinvD(1) [OF inv, of j] i reading_not_writing by (auto simp: t)
  show "writing (pcs t j) \<longleftrightarrow> writer t = Some j" for j
    using cinvD(2) [OF inv, of j] w i by (auto simp: t)
  show "readers t = {}" if "writer t \<noteq> None" using that cinvD(3) [OF inv] by (simp add: t)
  show "store_ok C V T (store t)" if "writer t = None" using that w i by (simp add: t)
  show "knows C V T Y (store t) (pcs t j)" for j
    using store_step_knows [OF inv i(1) knows [OF cinvD(5) [OF inv]]] by (simp add: t)
qed

lemma cstep_cinv:
  assumes "cstep C V T Y s t" "cinv C V T Y s"
  shows "cinv C V T Y t"
  using assms(1)
proof cases
  case (w_mutators i raw base cfg muts)
  then show ?thesis by (intro cinv_store [OF assms(2) w_mutators(1)]) auto
next
  case (w_config i raw base cfg muts)
  then show ?thesis by (intro cinv_store [OF assms(2) w_config(1)]) auto
qed (erule cinv_goto [OF assms(2)]; auto simp: store_ok_def dest: prepareUpdate_consistent)+

lemma creachable_cinv: "creachable C V T Y s \<Longrightarrow> cinv C V T Y s"
  by (induction rule: creachable.induct) (auto intro: cinv_init cstep_cinv)

section \<open>Linearisation\<close>

text \<open>
  The reference: the updates in \<open>raws\<close>, one after the other, from the empty store with all
  counters at zero.
\<close>

abbreviation sequential ::
    "('env, 'ast) cel_go \<Rightarrow> validation \<Rightarrow> 'r tekton \<Rightarrow> yaml \<Rightarrow> bytes list \<Rightarrow> 'r ConfigStore \<times> metrics" where
  "sequential C V T Y raws \<equiv> config_source.runs (Update C V T Y) raws emptyStore zero_metrics"

lemma sequential_snoc:
  "sequential C V T Y raws = (base, m) \<Longrightarrow> Update C V T Y raw base m = (e, st, m') \<Longrightarrow>
     sequential C V T Y (raws @ [raw]) = (st, m')"
  by (simp add: config_store.runs_append)

text \<open>
  Where a writer stands between the sequential state before its update and the one after: its
  base is the former until it has counted its outcome, and from then on store and counters
  are the latter.
\<close>

definition linked_at ::
    "('env, 'ast) cel_go \<Rightarrow> validation \<Rightarrow> 'r tekton \<Rightarrow> yaml \<Rightarrow> 'r cstate \<Rightarrow> 'r pc \<Rightarrow> bool" where
  "linked_at C V T Y s l = (case l of
       WLocked raw base \<Rightarrow> sequential C V T Y (updates s) = (base, counters s)
     | WReady raw base cfg muts \<Rightarrow> sequential C V T Y (updates s) = (base, counters s)
     | WMutators raw base cfg muts \<Rightarrow> sequential C V T Y (updates s) = (base, counters s)
     | WConfig raw base \<Rightarrow> sequential C V T Y (updates s) = (base, counters s)
     | WRecorded raw base \<Rightarrow> sequential C V T Y (updates s @ [raw]) = (store s, counters s)
     | WRejected raw base \<Rightarrow> sequential C V T Y (updates s @ [raw]) = (store s, counters s)
     | _ \<Rightarrow> True)"

definition linked ::
    "('env, 'ast) cel_go \<Rightarrow> validation \<Rightarrow> 'r tekton \<Rightarrow> yaml \<Rightarrow> 'r cstate \<Rightarrow> bool" where
  "linked C V T Y s \<longleftrightarrow>
     (writer s = None \<longrightarrow> sequential C V T Y (updates s) = (store s, counters s)) \<and>
     (\<forall>i. linked_at C V T Y s (pcs s i))"

lemma linked_at_simps [simp]:
  "linked_at C V T Y s Idle" "linked_at C V T Y s RLocked" "linked_at C V T Y s (RConfig c)"
  "linked_at C V T Y s (RBoth c ms)" "linked_at C V T Y s (RDone c ms)"
  "linked_at C V T Y s (WLocked r b) \<longleftrightarrow> sequential C V T Y (updates s) = (b, counters s)"
  "linked_at C V T Y s (WReady r b g ms) \<longleftrightarrow> sequential C V T Y (updates s) = (b, counters s)"
  "linked_at C V T Y s (WMutators r b g ms) \<longleftrightarrow> sequential C V T Y (updates s) = (b, counters s)"
  "linked_at C V T Y s (WConfig r b) \<longleftrightarrow> sequential C V T Y (updates s) = (b, counters s)"
  "linked_at C V T Y s (WRecorded r b) \<longleftrightarrow> sequential C V T Y (updates s @ [r]) = (store s, counters s)"
  "linked_at C V T Y s (WRejected r b) \<longleftrightarrow> sequential C V T Y (updates s @ [r]) = (store s, counters s)"
  by (simp_all add: linked_at_def)

lemma linked_at_outside: "\<not> writing l \<Longrightarrow> linked_at C V T Y s l"
  by (cases l) simp_all

text \<open>
  A step of the goroutine \<open>i\<close> moves only its own program counter; every other goroutine that
  is in \<open>Update\<close> would be the writer too, so only \<open>i\<close> has to be looked at.
\<close>

lemma linkedI:
  assumes "writer t = None \<Longrightarrow> sequential C V T Y (updates t) = (store t, counters t)"
    and "linked_at C V T Y t (pcs t i)" and "\<And>j. j \<noteq> i \<Longrightarrow> \<not> writing (pcs t j)"
  shows "linked C V T Y t"
  using assms by (metis linked_def linked_at_outside)

lemma writer_linked:
  assumes "cinv C V T Y s" "linked C V T Y s" "writing (pcs s i)" "t = goto i l s'" "pcs s' = pcs s"
    and step: "writer s = Some i \<Longrightarrow> linked_at C V T Y s (pcs s i) \<Longrightarrow> knows C V T Y (store s) (pcs s i) \<Longrightarrow>
      linked_at C V T Y t l \<and> (writer t = None \<longrightarrow> sequential C V T Y (updates t) = (store t, counters t))"
  shows "linked C V T Y t"
proof -
  have "writer s = Some i" "linked_at C V T Y s (pcs s i)" "knows C V T Y (store s) (pcs s i)"
    using cinvD(2,5) [OF assms(1), of i] assms(2,3) by (auto simp: linked_def)
  from step [OF this] show ?thesis
    using cinv_writer_alone(2) [OF assms(1,3)] by (intro linkedI [where i = i]) (auto simp: assms(4,5))
qed

lemma reader_step_linked:
  assumes "linked C V T Y s" "writer t = writer s" "store t = store s" "counters t = counters s"
    "updates t = updates s" "pcs t = (pcs s)(i := l)" "\<not> writing l"
  shows "linked C V T Y t"
proof -
  have "linked_at C V T Y t (pcs t j)" for j
    using assms linked_at_outside [of l C V T Y t]
    by (cases "pcs s j"; cases "j = i") (auto simp: linked_def dest!: spec [of _ j])
  with assms show ?thesis by (simp add: linked_def)
qed

lemma reader_goto_linked:
  assumes "linked C V T Y s" "\<not> writing l"
  shows "linked C V T Y (goto i l s)" "linked C V T Y (goto i l (s\<lparr>readers := R\<rparr>))"
  by (rule reader_step_linked [OF assms(1), where i = i and l = l]; simp add: assms(2))+

lemma Update_rejected:
  "prepareUpdate C V T Y raw = Inl err \<Longrightarrow> sequential C V T Y raws = (base, m) \<Longrightarrow>
     sequential C V T Y (raws @ [raw]) = (base, RecordReloadFailure m)"
  by (rule sequential_snoc) (simp_all add: Update_def)

lemma Update_accepted:
  "prepareUpdate C V T Y raw = Inr (cfg, muts) \<Longrightarrow> sequential C V T Y raws = (base, m) \<Longrightarrow>
     sequential C V T Y (raws @ [raw]) = (base\<lparr>mutators := muts, config := Some cfg\<rparr>, RecordReloadSuccess m)"
  by (rule sequential_snoc) (simp_all add: Update_def)

lemma cstep_linked:
  assumes "cstep C V T Y s t" "cinv C V T Y s" "linked C V T Y s"
  shows "linked C V T Y t"
  using assms(1)
proof cases
  case (w_lock i raw)
  have "\<not> writing (pcs s j)" for j using w_lock cinvD(2) [OF assms(2), of j] by simp
  with w_lock assms(3) show ?thesis by (intro linkedI [where i = i]) (auto simp: linked_def)
next
  case (w_reject i raw base err)
  then show ?thesis
    by (intro writer_linked [OF assms(2,3) _ w_reject(1)]) (auto dest: Update_rejected)
next
  case (w_record i raw base)
  then show ?thesis
    by (intro writer_linked [OF assms(2,3) _ w_record(1)]) (auto dest: Update_accepted)
next
  case (w_reject_unlock i raw base)
  then show ?thesis by (intro writer_linked [OF assms(2,3) _ w_reject_unlock(1)]) auto
next
  case (w_unlock i raw base)
  then show ?thesis by (intro writer_linked [OF assms(2,3) _ w_unlock(1)]) auto
next
  case (w_prepare i raw base cfg muts)
  then show ?thesis by (intro writer_linked [OF assms(2,3) _ w_prepare(1)]) auto
next
  case (w_mutators i raw base cfg muts)
  then show ?thesis by (intro writer_linked [OF assms(2,3) _ w_mutators(1)]) auto
next
  case (w_config i raw base cfg muts)
  then show ?thesis by (intro writer_linked [OF assms(2,3) _ w_config(1)]) auto
qed (simp_all add: reader_goto_linked [OF assms(3)])

lemma creachable_linked: "creachable C V T Y s \<Longrightarrow> linked C V T Y s"
proof (induction rule: creachable.induct)
  case start
  show ?case by (simp add: linked_def init_cstate_def)
next
  case (step s t)
  then show ?case using cstep_linked creachable_cinv by blast
qed

text \<open>
  A read takes effect while the lock is held: what a reader has returned is the content of
  the store after the updates that had returned by then, a prefix of those known now.
\<close>

lemma cstep_updates: "cstep C V T Y s t \<Longrightarrow> \<exists>raws. updates t = updates s @ raws"
  by (induction rule: cstep.induct) auto

lemma cstep_RDone:
  "cstep C V T Y s t \<Longrightarrow> pcs t i = RDone c muts \<Longrightarrow>
     pcs s i = RDone c muts \<or> pcs s i = RBoth c muts \<and> updates t = updates s"
  by (induction rule: cstep.induct) (auto split: if_splits)

lemma creachable_RBoth:
  assumes "creachable C V T Y s" "pcs s i = RBoth c muts"
  shows "GetConfigAndMutators (fst (sequential C V T Y (updates s))) = (c, muts)"
proof -
  note inv = creachable_cinv [OF assms(1)]
  have "i \<in> readers s" using assms(2) cinvD(1) [OF inv, of i] by simp
  then have "writer s = None" using cinvD(3) [OF inv] by (metis empty_iff)
  then have "sequential C V T Y (updates s) = (store s, counters s)"
    using creachable_linked [OF assms(1)] by (simp add: linked_def)
  with assms(2) cinvD(5) [OF inv, of i] show ?thesis by (simp add: GetConfigAndMutators_def)
qed

abbreviation csteps ::
    "('env, 'ast) cel_go \<Rightarrow> validation \<Rightarrow> 'r tekton \<Rightarrow> yaml \<Rightarrow> 'r cstate \<Rightarrow> 'r cstate \<Rightarrow> bool" where
  "csteps C V T Y \<equiv> (cstep C V T Y)\<^sup>*\<^sup>*"

lemma creachable_csteps: "csteps C V T Y s t \<Longrightarrow> creachable C V T Y s \<Longrightarrow> creachable C V T Y t"
  by (induction rule: rtranclp_induct) (auto intro: creachable.step)

lemma creachable_from_init: "creachable C V T Y s \<Longrightarrow> csteps C V T Y init_cstate s"
  by (induction rule: creachable.induct) (auto intro: rtranclp.rtrancl_into_rtrancl)

text \<open>A read that begins in \<open>s0\<close> or later takes account of every update that had returned by then.\<close>

lemma csteps_reads:
  assumes "csteps C V T Y s0 s" "creachable C V T Y s0" "pcs s0 i = Idle" "pcs s i = RDone c muts"
  shows "\<exists>n. length (updates s0) \<le> n \<and> n \<le> length (updates s) \<and>
    GetConfigAndMutators (fst (sequential C V T Y (take n (updates s)))) = (c, muts)"
proof -
  let ?P = "\<lambda>s. length (updates s0) \<le> length (updates s) \<and> (\<forall>c muts. pcs s i = RDone c muts \<longrightarrow>
    (\<exists>n. length (updates s0) \<le> n \<and> n \<le> length (updates s) \<and>
       GetConfigAndMutators (fst (sequential C V T Y (take n (updates s)))) = (c, muts)))"
  from assms(1) have "?P s"
  proof (induction rule: rtranclp_induct)
    case base
    with assms(3) show ?case by simp
  next
    case (step s t)
    obtain raws where raws: "updates t = updates s @ raws" using cstep_updates [OF step.hyps(2)] by blast
    have "\<exists>n. length (updates s0) \<le> n \<and> n \<le> length (updates t) \<and>
        GetConfigAndMutators (fst (sequential C V T Y (take n (updates t)))) = (c, muts)"
      if ret: "pcs t i = RDone c muts" for c muts
    proof -
      from cstep_RDone [OF step.hyps(2) ret] show ?thesis
      proof
        assume "pcs s i = RDone c muts"
        then obtain n where "length (updates s0) \<le> n" "n \<le> length (updates s)"
            "GetConfigAndMutators (fst (sequential C V T Y (take n (updates s)))) = (c, muts)"
          using step.IH by blast
        with raws show ?thesis by (intro exI [of _ n]) simp
      next
        assume both: "pcs s i = RBoth c muts \<and> updates t = updates s"
        with step.IH creachable_RBoth [OF creachable_csteps [OF step.hyps(1) assms(2)], of i c muts]
        show ?thesis by (intro exI [of _ "length (updates t)"]) simp
      qed
    qed
    with step.IH raws show ?case by simp
  qed
  with assms(4) show ?thesis by blast
qed

text \<open>Seen from outside, the interleaved steps are calls of the atomic \<open>Update\<close>.\<close>

definition atomic_step ::
    "('env, 'ast) cel_go \<Rightarrow> validation \<Rightarrow> 'r tekton \<Rightarrow> yaml
       \<Rightarrow> 'r ConfigStore \<times> metrics \<Rightarrow> 'r ConfigStore \<times> metrics \<Rightarrow> bool" where
  "atomic_step C V T Y x y \<longleftrightarrow> (\<exists>raw e. Update C V T Y raw (fst x) (snd x) = (e, y))"

lemma atomic_snoc: "atomic_step C V T Y (sequential C V T Y raws) (sequential C V T Y (raws @ [raw]))"
proof -
  obtain base m where base: "sequential C V T Y raws = (base, m)" by (rule prod.exhaust)
  obtain e st m' where up: "Update C V T Y raw base m = (e, st, m')" by (rule prod_cases3)
  from sequential_snoc [OF base up] base up show ?thesis by (auto simp: atomic_step_def)
qed

interpretation atomic_store: simulation "cstep C V T Y" "creachable C V T Y" "atomic_step C V T Y"
  "\<lambda>s. sequential C V T Y (updates s)"
proof
  fix s t
  assume s: "creachable C V T Y s" and step: "cstep C V T Y s t"
  then show "creachable C V T Y t" by (rule creachable.step)
  show "sequential C V T Y (updates t) = sequential C V T Y (updates s) \<or>
      atomic_step C V T Y (sequential C V T Y (updates s)) (sequential C V T Y (updates t))"
    using step by (cases rule: cstep.cases) (simp_all add: atomic_snoc)
qed

text \<open>So the store that requests see keeps the invariant of the store, in whatever interleaving.\<close>

lemma creachable_sequential_ok:
  assumes "creachable C V T Y s"
  shows "store_ok C V T (fst (sequential C V T Y (updates s)))"
proof (rule atomic_store.transfers [OF creachable_from_init [OF assms] creachable.start])
  show "store_ok C V T (fst (sequential C V T Y (updates init_cstate)))" by (simp add: init_cstate_def)
  show "store_ok C V T (fst y)" if "atomic_step C V T Y x y" "store_ok C V T (fst x)" for x y
    using that by (cases y) (auto simp: atomic_step_def dest: Update_store_ok)
qed

lemma creachable_reads:
  assumes "creachable C V T Y s" "pcs s i = RDone c muts"
  shows "\<exists>n \<le> length (updates s). GetConfigAndMutators (fst (sequential C V T Y (take n (updates s)))) = (c, muts)"
  using csteps_reads [OF creachable_from_init [OF assms(1)] creachable.start _ assms(2)]
  by (auto simp: init_cstate_def)

text \<open>Steps left until a goroutine that entered a method has returned from it.\<close>

definition steps_left :: "'r pc \<Rightarrow> nat" where
  "steps_left l = (case l of Idle \<Rightarrow> 0 | RLocked \<Rightarrow> 4 | RConfig _ \<Rightarrow> 3 | RBoth _ _ \<Rightarrow> 2 | RDone _ _ \<Rightarrow> 1
     | WLocked _ _ \<Rightarrow> 5 | WReady _ _ _ _ \<Rightarrow> 4 | WMutators _ _ _ _ \<Rightarrow> 3 | WConfig _ _ \<Rightarrow> 2
     | WRecorded _ _ \<Rightarrow> 1 | WRejected _ _ \<Rightarrow> 1)"

lemma steps_left_simps [simp]:
  "steps_left Idle = 0" "steps_left RLocked = 4" "steps_left (RConfig c) = 3"
  "steps_left (RBoth c ms) = 2" "steps_left (RDone c ms) = 1" "steps_left (WLocked r b) = 5"
  "steps_left (WReady r b g ms) = 4" "steps_left (WMutators r b g ms) = 3" "steps_left (WConfig r b) = 2"
  "steps_left (WRecorded r b) = 1" "steps_left (WRejected r b) = 1"
  by (simp_all add: steps_left_def)

lemma steps_left_le: "steps_left l \<le> 5"
  by (cases l) simp_all

lemma steps_left_0 [simp]: "steps_left l = 0 \<longleftrightarrow> l = Idle"
  by (cases l) simp_all

text \<open>
  Every step moves one goroutine: into a method, or closer to its return. The converse,
  \<open>pc_steps\<close>, is that a goroutine inside a method has such a step.
\<close>

definition moves :: "'r cstate \<Rightarrow> 'r cstate \<Rightarrow> nat \<Rightarrow> 'r pc \<Rightarrow> bool" where
  "moves s t i l \<longleftrightarrow> pcs t = (pcs s)(i := l) \<and>
     (if pcs s i = Idle then l \<noteq> Idle else steps_left l < steps_left (pcs s i))"

lemma moves_goto:
  "t = goto i l s' \<Longrightarrow> pcs s' = pcs s \<Longrightarrow>
   (if pcs s i = Idle then l \<noteq> Idle else steps_left l < steps_left (pcs s i)) \<Longrightarrow> \<exists>i l. moves s t i l"
  by (rule exI [of _ i], rule exI [of _ l]) (simp add: moves_def)

lemma cstep_moves:
  assumes "cstep C V T Y s t"
  shows "\<exists>i l. moves s t i l"
  using assms by cases (erule moves_goto; simp)+

lemma pc_steps:
  assumes "pcs s i \<noteq> Idle"
  obtains t l where "cstep C V T Y s t" "pcs t = (pcs s)(i := l)" "steps_left l < steps_left (pcs s i)"
proof (cases "pcs s i")
  case (WLocked raw base)
  show thesis
  proof (cases "prepareUpdate C V T Y raw")
    case (Inl e)
    show thesis
      by (rule that [where l = "WRejected raw base", OF w_reject [OF WLocked Inl]]) (simp_all add: WLocked)
  next
    case (Inr r)
    then obtain cfg muts where "prepareUpdate C V T Y raw = Inr (cfg, muts)" by (cases r) simp
    from w_prepare [OF WLocked this] show thesis
      by (rule that [where l = "WReady raw base cfg muts"]) (simp_all add: WLocked)
  qed
next
  case RLocked
  show thesis by (rule that [where l = "RConfig (config (store s))", OF r_config [OF RLocked]]) (simp_all add: RLocked)
next
  case (RConfig c)
  show thesis by (rule that [where l = "RBoth c (mutators (store s))", OF r_mutators [OF RConfig]]) (simp_all add: RConfig)
next
  case (RBoth c ms)
  show thesis by (rule that [where l = "RDone c ms", OF r_unlock [OF RBoth]]) (simp_all add: RBoth)
next
  case (RDone c ms)
  show thesis by (rule that [where l = "Idle", OF r_return [OF RDone]]) (simp_all add: RDone)
next
  case (WReady r b g ms)
  show thesis by (rule that [where l = "WMutators r b g ms", OF w_mutators [OF WReady]]) (simp_all add: WReady)
next
  case (WMutators r b g ms)
  show thesis by (rule that [where l = "WConfig r b", OF w_config [OF WMutators]]) (simp_all add: WMutators)
next
  case (WConfig r b)
  show thesis by (rule that [where l = "WRecorded r b", OF w_record [OF WConfig]]) (simp_all add: WConfig)
next
  case (WRecorded r b)
  show thesis by (rule that [where l = "Idle", OF w_unlock [OF WRecorded]]) (simp_all add: WRecorded)
next
  case (WRejected r b)
  show thesis by (rule that [where l = "Idle", OF w_reject_unlock [OF WRejected]]) (simp_all add: WRejected)
qed (use assms in simp)


section \<open>Termination\<close>

text \<open>
  \<open>crun n k s\<close>: the state \<open>s\<close> is reached by \<open>k\<close> steps in which \<open>n\<close> calls of a method begin.
\<close>

inductive crun ::
    "('env, 'ast) cel_go \<Rightarrow> validation \<Rightarrow> 'r tekton \<Rightarrow> yaml \<Rightarrow> nat \<Rightarrow> nat \<Rightarrow> 'r cstate \<Rightarrow> bool"
  for C V T Y where
  run_start: "crun C V T Y 0 0 init_cstate"
| run_call: "crun C V T Y n k s \<Longrightarrow> cstep C V T Y s t \<Longrightarrow> pcs s i = Idle \<Longrightarrow> pcs t i \<noteq> Idle \<Longrightarrow>
     crun C V T Y (Suc n) (Suc k) t"
| run_inside: "crun C V T Y n k s \<Longrightarrow> cstep C V T Y s t \<Longrightarrow> (\<forall>i. pcs s i = Idle \<longrightarrow> pcs t i = Idle) \<Longrightarrow>
     crun C V T Y n (Suc k) t"

definition work :: "'r cstate \<Rightarrow> nat" where
  "work s = (\<Sum>i | pcs s i \<noteq> Idle. steps_left (pcs s i))"

definition finite_busy :: "'r cstate \<Rightarrow> bool" where
  "finite_busy s \<longleftrightarrow> finite {i. pcs s i \<noteq> Idle}"

lemma work_upd:
  assumes "finite_busy s" "pcs t = (pcs s)(i := l)"
  shows "finite_busy t" "work t + steps_left (pcs s i) = work s + steps_left l"
proof -
  let ?A = "insert i {j. pcs s j \<noteq> Idle}"
  have fin: "finite ?A" using assms(1) by (simp add: finite_busy_def)
  have sub: "{j. pcs t j \<noteq> Idle} \<subseteq> ?A" using assms(2) by auto
  show "finite_busy t" unfolding finite_busy_def using fin sub by (rule finite_subset [rotated])
  have whole: "work u = (\<Sum>j\<in>?A. steps_left (pcs u j))" if "{j. pcs u j \<noteq> Idle} \<subseteq> ?A" for u
    unfolding work_def by (rule sum.mono_neutral_left [OF fin that]) auto
  have rest: "(\<Sum>j\<in>?A - {i}. steps_left (pcs t j)) = (\<Sum>j\<in>?A - {i}. steps_left (pcs s j))"
    by (rule sum.cong) (auto simp: assms(2))
  have "work t = steps_left l + (\<Sum>j\<in>?A - {i}. steps_left (pcs s j))"
    using whole [OF sub] sum.remove [OF fin, of i "\<lambda>j. steps_left (pcs t j)"] rest by (simp add: assms(2))
  moreover have "work s = steps_left (pcs s i) + (\<Sum>j\<in>?A - {i}. steps_left (pcs s j))"
    using whole [of s] sum.remove [OF fin, of i "\<lambda>j. steps_left (pcs s j)"] by auto
  ultimately show "work t + steps_left (pcs s i) = work s + steps_left l" by simp
qed

lemma cstep_work:
  assumes "cstep C V T Y s t" "finite_busy s"
  shows "finite_busy t" "work t \<le> work s + 5"
    "(\<forall>i. pcs s i = Idle \<longrightarrow> pcs t i = Idle) \<Longrightarrow> work t < work s"
proof -
  obtain i l where m: "moves s t i l" using cstep_moves [OF assms(1)] by blast
  then have upd: "pcs t = (pcs s)(i := l)" by (simp add: moves_def)
  from work_upd(1) [OF assms(2) upd] show "finite_busy t" .
  note eq = work_upd(2) [OF assms(2) upd]
  from m eq steps_left_le [of l] show "work t \<le> work s + 5"
    by (simp add: moves_def split: if_splits)
  show "work t < work s" if inside: "\<forall>i. pcs s i = Idle \<longrightarrow> pcs t i = Idle"
  proof -
    have "pcs s i \<noteq> Idle" using inside m by (auto simp: moves_def)
    with m eq show ?thesis by (simp add: moves_def)
  qed
qed

lemma crun_bound: "crun C V T Y n k s \<Longrightarrow> finite_busy s \<and> k + work s \<le> 6 * n"
proof (induction rule: crun.induct)
  case run_start
  show ?case by (simp add: finite_busy_def work_def init_cstate_def)
next
  case (run_call n k s t i)
  with cstep_work(1,2) [of C V T Y s t] show ?case by simp
next
  case (run_inside n k s t)
  with cstep_work(1,3) [of C V T Y s t] show ?case by fastforce
qed

lemma crun_reachable: "crun C V T Y n k s \<Longrightarrow> creachable C V T Y s"
  by (induction rule: crun.induct) (auto intro: creachable.intros)


section \<open>Properties\<close>

text \<open>An execution: goroutine 0 loads a configuration, then goroutine 1 reads it.\<close>

abbreviation sample_step :: "unit cstate \<Rightarrow> unit cstate \<Rightarrow> bool" where
  "sample_step \<equiv> cstep sample_cel sample_validation sample_tekton sample_yaml"

abbreviation sample_reachable :: "unit cstate \<Rightarrow> bool" where
  "sample_reachable \<equiv> creachable sample_cel sample_validation sample_tekton sample_yaml"

lemma sample_written:
  obtains s where "sample_reachable s" "pcs s = (\<lambda>_. Idle)(0 := WConfig ''good'' emptyStore)"
    "store s = \<lparr>config = Some sample_config, mutators = sample_mutators\<rparr>" "readers s = {}"
    "updates s = []"
proof -
  let ?s1 = "goto 0 (WLocked ''good'' emptyStore) (init_cstate\<lparr>writer := Some 0\<rparr>) :: unit cstate"
  have init: "store init_cstate = emptyStore" "writer init_cstate = None" "readers init_cstate = {}"
    "pcs init_cstate = (\<lambda>_. Idle)" "updates init_cstate = []" by (simp_all add: init_cstate_def)
  have 1: "sample_reachable ?s1"
    using creachable.step [OF creachable.start w_lock [of init_cstate 0]] by (simp add: init)
  let ?s2 = "goto 0 (WReady ''good'' emptyStore sample_config sample_mutators) ?s1"
  have 2: "sample_reachable ?s2"
    by (rule creachable.step [OF 1], rule w_prepare) (simp_all add: sample_prepare)
  let ?s3 = "goto 0 (WMutators ''good'' emptyStore sample_config sample_mutators)
    (?s2\<lparr>store := (store ?s2)\<lparr>mutators := sample_mutators\<rparr>\<rparr>)"
  have 3: "sample_reachable ?s3"
    by (rule creachable.step [OF 2], rule w_mutators) simp
  let ?s4 = "goto 0 (WConfig ''good'' emptyStore) (?s3\<lparr>store := (store ?s3)\<lparr>config := Some sample_config\<rparr>\<rparr>)"
  have 4: "sample_reachable ?s4"
    by (rule creachable.step [OF 3], rule w_config) simp
  from 4 show thesis by (rule that) (simp_all add: init emptyStore_def)
qed

text \<open>A reader that begins after the update has returned.\<close>

abbreviation sample_steps :: "unit cstate \<Rightarrow> unit cstate \<Rightarrow> bool" where
  "sample_steps \<equiv> csteps sample_cel sample_validation sample_tekton sample_yaml"

lemma sample_updated:
  obtains s where "sample_reachable s" "pcs s = (\<lambda>_. Idle)" "writer s = None" "updates s = [''good'']"
    "store s = \<lparr>config = Some sample_config, mutators = sample_mutators\<rparr>"
proof -
  obtain s0 where s0: "sample_reachable s0" "pcs s0 = (\<lambda>_. Idle)(0 := WConfig ''good'' emptyStore)"
    "store s0 = \<lparr>config = Some sample_config, mutators = sample_mutators\<rparr>" "updates s0 = []"
    by (rule sample_written)
  let ?s1 = "goto 0 (WRecorded ''good'' emptyStore) (s0\<lparr>counters := RecordReloadSuccess (counters s0)\<rparr>)"
  have 1: "sample_reachable ?s1"
    by (rule creachable.step [OF s0(1)], rule w_record) (simp add: s0)
  let ?s2 = "goto 0 Idle (?s1\<lparr>writer := None, updates := updates ?s1 @ [''good'']\<rparr>)"
  have "sample_reachable ?s2"
    by (rule creachable.step [OF 1], rule w_unlock) simp
  then show thesis by (rule that) (auto simp: s0)
qed

lemma read_steps:
  fixes s :: "'r cstate"
  assumes "pcs s i = Idle" "writer s = None"
  obtains t where "csteps C V T Y s t" "pcs t i = RDone (config (store s)) (mutators (store s))"
    "updates t = updates s"
proof -
  let ?s1 = "goto i RLocked (s\<lparr>readers := insert i (readers s)\<rparr>)"
  let ?s2 = "goto i (RConfig (config (store s))) ?s1"
  let ?s3 = "goto i (RBoth (config (store s)) (mutators (store s))) ?s2"
  let ?s4 = "goto i (RDone (config (store s)) (mutators (store s))) (?s3\<lparr>readers := readers ?s3 - {i}\<rparr>)"
  have "cstep C V T Y s ?s1" using assms by (rule r_lock)
  moreover have "cstep C V T Y ?s1 ?s2" using r_config [of ?s1 i C V T Y] by simp
  moreover have "cstep C V T Y ?s2 ?s3" using r_mutators [of ?s2 i _ C V T Y] by simp
  moreover have "cstep C V T Y ?s3 ?s4" by (rule r_unlock) simp
  ultimately have "csteps C V T Y s ?s4"
    by (meson converse_rtranclp_into_rtranclp rtranclp.rtrancl_refl)
  then show thesis by (rule that) simp_all
qed

lemma sample_read:
  obtains s where "sample_reachable s" "pcs s 1 = RDone (Some sample_config) sample_mutators"
proof -
  obtain s where s: "sample_reachable s" "pcs s = (\<lambda>_. Idle)" "writer s = None"
    "store s = \<lparr>config = Some sample_config, mutators = sample_mutators\<rparr>" by (rule sample_updated)
  have "pcs s 1 = Idle" by (simp add: s(2))
  then obtain t where t: "sample_steps s t" "pcs t 1 = RDone (config (store s)) (mutators (store s))"
    using s(3) by (rule read_steps)
  show thesis using creachable_csteps [OF t(1) s(1)] by (rule that) (use t(2) s(4) in simp)
qed

text \<open>
  (C8) A reader never sees half an update. In every reachable state of any number of
  interleaved readers and writers, the pair that \<open>GetConfigAndMutators\<close> has returned belongs
  together: no configuration and no mutators, or a configuration with a queue name and
  exactly the mutators compiled from its expressions.
\<close>

theorem reader_sees_one_configuration:
  assumes "creachable C V T Y s" and "pcs s i = RDone c muts"
  shows "case c of
      None \<Rightarrow> muts = []
    | Some cfg \<Rightarrow> QueueName cfg \<noteq> [] \<and>
        (if Expressions (CfgCEL cfg) = [] then muts = []
         else \<exists>ps. CompileCELPrograms C V (Expressions (CfgCEL cfg)) = Inr ps \<and>
                   muts = [MutateRun T (NewCELMutator ps)])"
  using cinvD(5) [OF creachable_cinv [OF assms(1)], of i] assms(2)
  by (simp add: consistent_pair_def mutators_for_def split: option.splits)

theorem reader_sees_one_configuration_witness:
  "\<exists>s ps. sample_reachable s \<and> pcs s 1 = RDone (Some sample_config) sample_mutators \<and>
      CompileCELPrograms sample_cel sample_validation [''expr''] = Inr ps \<and>
      sample_mutators = [MutateRun sample_tekton (NewCELMutator ps)]"
proof -
  obtain s where s: "sample_reachable s" "pcs s 1 = RDone (Some sample_config) sample_mutators"
    by (rule sample_read)
  from reader_sees_one_configuration [OF s] s show ?thesis
    by (auto simp: sample_config_def)
qed

text \<open>
  (C9) Concurrent calls are linearisable. In every reachable state of any number of readers and
  writers in which nobody is in \<open>Update\<close>, the store and the reload counters are what the
  atomic \<open>Update\<close> leaves when it is called on the same bytes one after the other, in the order
  in which the writers held the lock, from the empty store. A writer that has counted its
  outcome has already extended that sequence by its own bytes. What a reader has returned is
  what the store held after some of these updates.
\<close>

theorem updates_linearize:
  assumes "creachable C V T Y s"
  shows "(writer s = None \<longrightarrow> sequential C V T Y (updates s) = (store s, counters s)) \<and>
    (\<forall>i raw base. pcs s i = WRecorded raw base \<or> pcs s i = WRejected raw base \<longrightarrow>
       sequential C V T Y (updates s @ [raw]) = (store s, counters s)) \<and>
    (\<forall>i c muts. pcs s i = RDone c muts \<longrightarrow> (\<exists>n \<le> length (updates s).
       GetConfigAndMutators (fst (sequential C V T Y (take n (updates s)))) = (c, muts)))"
proof -
  have "linked C V T Y s" using assms by (rule creachable_linked)
  moreover from this have "sequential C V T Y (updates s @ [raw]) = (store s, counters s)"
    if "pcs s i = WRecorded raw base \<or> pcs s i = WRejected raw base" for i raw base
    using that unfolding linked_def by (metis linked_at_simps(10,11))
  ultimately show ?thesis using creachable_reads [OF assms] by (simp add: linked_def)
qed

theorem updates_linearize_witness:
  "\<exists>s. sample_reachable s \<and> updates s = [''good''] \<and>
     sequential sample_cel sample_validation sample_tekton sample_yaml [''good''] = (store s, counters s)"
proof -
  obtain s where s: "sample_reachable s" "writer s = None" "updates s = [''good'']" by (rule sample_updated)
  from updates_linearize [OF s(1)] s show ?thesis by (intro exI [of _ s]) simp
qed

text \<open>
  (C28) The methods terminate. An execution in which \<open>n\<close> calls begin has at most \<open>6 * n\<close> steps,
  however the goroutines are interleaved, so without new calls it comes to an end; and it can
  only end, that is allow no step but the beginning of a new call, when every call has
  returned and the lock is free.
\<close>

theorem calls_terminate:
  assumes "crun C V T Y n k s"
  shows "k \<le> 6 * n \<and>
    ((\<forall>t. cstep C V T Y s t \<longrightarrow> (\<exists>i. pcs s i = Idle \<and> pcs t i \<noteq> Idle)) \<longrightarrow>
       (\<forall>i. pcs s i = Idle) \<and> writer s = None \<and> readers s = {})"
proof (intro conjI impI)
  show "k \<le> 6 * n" using crun_bound [OF assms] by simp
  assume stuck: "\<forall>t. cstep C V T Y s t \<longrightarrow> (\<exists>i. pcs s i = Idle \<and> pcs t i \<noteq> Idle)"
  show idle: "\<forall>i. pcs s i = Idle"
  proof (rule ccontr)
    assume "\<not> (\<forall>i. pcs s i = Idle)"
    then obtain i where i: "pcs s i \<noteq> Idle" by blast
    then obtain t l where "cstep C V T Y s t" "pcs t = (pcs s)(i := l)" by (rule pc_steps)
    with stuck i show False by (metis fun_upd_apply)
  qed
  note inv = creachable_cinv [OF crun_reachable [OF assms]]
  from idle cinvD(1,2) [OF inv] show "writer s = None" "readers s = {}"
    by (auto simp: not_Some_eq [symmetric])
qed

theorem calls_terminate_witness:
  "\<exists>s. crun sample_cel sample_validation sample_tekton sample_yaml 1 1 s \<and> readers s = {0 :: nat} \<and>
     (1 :: nat) \<le> 6 * 1"
proof -
  let ?init = "init_cstate :: unit cstate"
  let ?s = "goto 0 RLocked (?init\<lparr>readers := insert 0 (readers ?init)\<rparr>)"
  have run: "crun sample_cel sample_validation sample_tekton sample_yaml (Suc 0) (Suc 0) ?s"
    by (rule run_call [OF run_start r_lock, where i = 0]) (simp_all add: init_cstate_def)
  from calls_terminate [OF run] run show ?thesis
    by (intro exI [of _ ?s]) (simp add: init_cstate_def)
qed

text \<open>
  (C27) Mutual exclusion and progress. In every reachable state at most one goroutine is in
  \<open>Update\<close>, none is then reading, and a goroutine inside a method can always take its next
  step, whatever the others do, and is done after at most five; when nobody is inside, a
  reader and a writer can enter.
\<close>

theorem lock_exclusion_and_progress:
  assumes "creachable C V T Y s"
  shows "(\<forall>i j. writing (pcs s i) \<and> j \<noteq> i \<longrightarrow> \<not> writing (pcs s j) \<and> \<not> reading (pcs s j)) \<and>
    (\<forall>i. pcs s i \<noteq> Idle \<longrightarrow> (\<exists>t l. cstep C V T Y s t \<and> pcs t = (pcs s)(i := l) \<and>
        steps_left l < steps_left (pcs s i) \<and> steps_left (pcs s i) \<le> 5)) \<and>
    ((\<forall>i. pcs s i = Idle) \<longrightarrow> (\<forall>i raw.
        (\<exists>t. cstep C V T Y s t \<and> pcs t = (pcs s)(i := RLocked)) \<and>
        (\<exists>t. cstep C V T Y s t \<and> pcs t = (pcs s)(i := WLocked raw (store s)))))"
proof (intro conjI allI impI)
  note inv = creachable_cinv [OF assms]
  show "\<not> writing (pcs s j)" "\<not> reading (pcs s j)" if "writing (pcs s i) \<and> j \<noteq> i" for i j
    using cinv_writer_alone [OF inv, of i j] that by simp_all
  show "\<exists>t l. cstep C V T Y s t \<and> pcs t = (pcs s)(i := l) \<and>
      steps_left l < steps_left (pcs s i) \<and> steps_left (pcs s i) \<le> 5" if busy: "pcs s i \<noteq> Idle" for i
  proof -
    obtain t l where "cstep C V T Y s t" "pcs t = (pcs s)(i := l)" "steps_left l < steps_left (pcs s i)"
      using busy by (rule pc_steps)
    then show ?thesis using steps_left_le by blast
  qed
next
  assume idle: "\<forall>i. pcs s i = Idle"
  note inv = creachable_cinv [OF assms]
  have free: "writer s = None" "readers s = {}"
    using idle cinvD(1,2) [OF inv] by (auto simp: not_Some_eq [symmetric])
  show "\<exists>t. cstep C V T Y s t \<and> pcs t = (pcs s)(i := RLocked)" for i
    using r_lock [of s i C V T Y] idle free
    by (intro exI [of _ "goto i RLocked (s\<lparr>readers := insert i (readers s)\<rparr>)"]) simp
  show "\<exists>t. cstep C V T Y s t \<and> pcs t = (pcs s)(i := WLocked raw (store s))" for i raw
    using w_lock [of s i C V T Y raw] idle free
    by (intro exI [of _ "goto i (WLocked raw (store s)) (s\<lparr>writer := Some i\<rparr>)"]) simp
qed

theorem lock_exclusion_and_progress_witness:
  "\<exists>s. sample_reachable s \<and> writing (pcs s 0) \<and> \<not> reading (pcs s 1) \<and>
       (\<exists>t. sample_step s t \<and> steps_left (pcs t 0) < steps_left (pcs s 0))"
proof -
  obtain s where s: "sample_reachable s" "pcs s = (\<lambda>_. Idle)(0 := WConfig ''good'' emptyStore)"
    by (rule sample_written)
  have "\<exists>t l. sample_step s t \<and> pcs t = (pcs s)(0 := l) \<and> steps_left l < steps_left (pcs s 0)"
    using lock_exclusion_and_progress [OF s(1), THEN conjunct2, THEN conjunct1, rule_format, of 0] s(2)
    by auto
  with s show ?thesis by force
qed

end
