(* ===== verification/JsonPatch.thy ===== *)
theory JsonPatch
  imports Prelude "HOL-Library.Sublist"
begin

text \<open>
  The meaning of the patches in an admission response, after the standards RFC 6901 (JSON
  Pointer) and RFC 6902 (JSON Patch), by which the API server applies them to the document
  that the user submitted. \<open>jsonpatch.Operation\<close> is what controller-runtime computes:
  it carries an operation, a path and a value, and the operation is one of \<open>add\<close>,
  \<open>remove\<close> and \<open>replace\<close>; any other is refused here. A patch list is all or nothing.

  The lemmas say what a patch below a member of an object can change: only that member, and
  only depending on it.
\<close>

section \<open>Documents and pointers\<close>

datatype json = JNull | JBool bool | JNumber string | JString string | JArray "json list"
  | JObject "string \<Rightarrow> json option"

fun unescape :: "string \<Rightarrow> string" where
  "unescape [] = []"
| "unescape [c] = [c]"
| "unescape (c # d # cs) =
     (if c = CHR ''~'' \<and> d = CHR ''1'' then CHR ''/'' # unescape cs
      else if c = CHR ''~'' \<and> d = CHR ''0'' then CHR ''~'' # unescape cs
      else c # unescape (d # cs))"

definition pointer :: "string \<Rightarrow> string list option" where
  "pointer path =
     (case path of
        [] \<Rightarrow> Some []
      | c # cs \<Rightarrow> if c = CHR ''/'' then Some (map unescape (split_slash cs)) else None)"

text \<open>An array index: decimal digits without a leading zero.\<close>

definition array_index :: "string \<Rightarrow> nat option" where
  "array_index t =
     (if t \<noteq> [] \<and> list_all (\<lambda>c. c \<in> set ''0123456789'') t \<and> (hd t = CHR ''0'' \<longrightarrow> tl t = [])
      then Some (foldl (\<lambda>n c. 10 * n + (of_char c - 48)) 0 t) else None)"


section \<open>Applying patches\<close>

record patch =
  Operation :: string
  Path :: string
  PatchValue :: json

text \<open>What an operation makes of the member of an object that its path names.\<close>

definition patch_member :: "string \<Rightarrow> json \<Rightarrow> json option \<Rightarrow> json option option" where
  "patch_member oper v old =
     (if oper = ''add'' then Some (Some v)
      else if oper = ''replace'' \<and> old \<noteq> None then Some (Some v)
      else if oper = ''remove'' \<and> old \<noteq> None then Some None
      else None)"

definition patch_array :: "string \<Rightarrow> json \<Rightarrow> string \<Rightarrow> json list \<Rightarrow> json list option" where
  "patch_array oper v t xs =
     (if oper = ''add'' \<and> t = ''-'' then Some (xs @ [v])
      else case array_index t of
        None \<Rightarrow> None
      | Some i \<Rightarrow>
          (if oper = ''add'' \<and> i \<le> length xs then Some (take i xs @ v # drop i xs)
           else if oper = ''replace'' \<and> i < length xs then Some (xs[i := v])
           else if oper = ''remove'' \<and> i < length xs then Some (take i xs @ drop (Suc i) xs)
           else None))"

text \<open>At the root only the whole document can be put in place.\<close>

fun patch_at :: "string \<Rightarrow> json \<Rightarrow> string list \<Rightarrow> json \<Rightarrow> json option" where
  "patch_at oper v [] doc = (if oper = ''add'' \<or> oper = ''replace'' then Some v else None)"
| "patch_at oper v [t] (JObject m) =
     map_option (\<lambda>c. JObject (m(t := c))) (patch_member oper v (m t))"
| "patch_at oper v [t] (JArray xs) = map_option JArray (patch_array oper v t xs)"
| "patch_at oper v (t # u # ts) (JObject m) =
     (case m t of
        None \<Rightarrow> None
      | Some c \<Rightarrow> map_option (\<lambda>c. JObject (m(t \<mapsto> c))) (patch_at oper v (u # ts) c))"
| "patch_at oper v (t # u # ts) (JArray xs) =
     (case array_index t of
        None \<Rightarrow> None
      | Some i \<Rightarrow>
          if i < length xs then map_option (\<lambda>c. JArray (xs[i := c])) (patch_at oper v (u # ts) (xs ! i))
          else None)"
| "patch_at oper v (t # ts) doc = None"

definition applyPatch :: "patch \<Rightarrow> json \<Rightarrow> json option" where
  "applyPatch p doc =
     (case pointer (Path p) of
        None \<Rightarrow> None
      | Some ts \<Rightarrow> patch_at (Operation p) (PatchValue p) ts doc)"

fun applyPatches :: "patch list \<Rightarrow> json \<Rightarrow> json option" where
  "applyPatches [] doc = Some doc"
| "applyPatches (p # ps) doc =
     (case applyPatch p doc of None \<Rightarrow> None | Some doc' \<Rightarrow> applyPatches ps doc')"


section \<open>Pointers and prefixes of paths\<close>

text \<open>A literal without escapes is a prefix of a token exactly when it is one of the text.\<close>

lemma unescape_prefix:
  assumes "CHR ''~'' \<notin> set w" "CHR ''/'' \<notin> set w"
  shows "prefix w (unescape t) \<longleftrightarrow> prefix w t"
  using assms
proof (induction t arbitrary: w rule: unescape.induct)
  case (3 c d cs)
  then show ?case by (cases w) auto
qed auto

lemma unescape_eq_literal:
  assumes "CHR ''~'' \<notin> set w" "CHR ''/'' \<notin> set w"
  shows "unescape t = w \<longleftrightarrow> t = w"
  using assms
proof (induction t arbitrary: w rule: unescape.induct)
  case (3 c d cs)
  then show ?case by (cases w) auto
qed auto

lemma split_slash_ne [simp]: "split_slash s \<noteq> []"
  by (cases s) (auto split: list.split)

lemma split_slash_append_slash:
  "CHR ''/'' \<notin> set w \<Longrightarrow> split_slash (w @ CHR ''/'' # s) = w # split_slash s"
  by (induction w) auto

lemma split_slash_no_slash: "CHR ''/'' \<notin> set w \<Longrightarrow> split_slash w = [w]"
  by (induction w) auto

lemma hd_split_slash: "CHR ''/'' \<notin> set w \<Longrightarrow> prefix w (hd (split_slash s)) \<longleftrightarrow> prefix w s"
proof (induction s arbitrary: w)
  case (Cons c s)
  then show ?case by (cases w; cases "split_slash s") auto
qed simp

lemma first_token:
  assumes "CHR ''/'' \<notin> set w"
  shows "split_slash s = w # ts \<and> ts \<noteq> [] \<longleftrightarrow> (\<exists>s'. s = w @ CHR ''/'' # s' \<and> ts = split_slash s')"
  using assms
proof (induction s arbitrary: w)
  case (Cons c s)
  then show ?case
  proof (cases w)
    case (Cons d v)
    with Cons.prems Cons.IH [of v] show ?thesis by (cases "split_slash s") auto
  qed (auto split: list.splits)
qed (auto simp: Cons_eq_append_conv)

text \<open>
  A path that starts with the member \<open>k\<close> of member \<open>w\<close> as a string is one whose second token
  starts with \<open>k\<close> below \<open>w\<close>.
\<close>

lemma prefix_member:
  assumes "CHR ''~'' \<notin> set w" "CHR ''/'' \<notin> set w" "CHR ''~'' \<notin> set k" "CHR ''/'' \<notin> set k"
  shows "prefix (CHR ''/'' # w @ CHR ''/'' # k) path \<longleftrightarrow>
    (\<exists>t ts. pointer path = Some (w # t # ts) \<and> prefix k t)"
proof
  assume "prefix (CHR ''/'' # w @ CHR ''/'' # k) path"
  then obtain s where s: "path = CHR ''/'' # w @ CHR ''/'' # k @ s" by (auto simp: prefix_def)
  obtain t ts where ts: "split_slash (k @ s) = t # ts" by (cases "split_slash (k @ s)") auto
  have "prefix k t" using hd_split_slash [OF assms(4), of "k @ s"] by (simp add: ts)
  moreover have "pointer path = Some (w # unescape t # map unescape ts)"
    using assms unescape_eq_literal [of w w]
    by (simp add: s pointer_def split_slash_append_slash ts)
  ultimately show "\<exists>t ts. pointer path = Some (w # t # ts) \<and> prefix k t"
    using unescape_prefix [OF assms(3,4)] by blast
next
  assume "\<exists>t ts. pointer path = Some (w # t # ts) \<and> prefix k t"
  then obtain t ts s where p: "path = CHR ''/'' # s" "map unescape (split_slash s) = w # t # ts" "prefix k t"
    by (auto simp: pointer_def split: list.splits if_splits)
  then obtain w' t' ts' where raw: "split_slash s = w' # t' # ts'" "unescape w' = w" "unescape t' = t"
    by (auto simp: map_eq_Cons_conv)
  then have "split_slash s = w # t' # ts'" using unescape_eq_literal [OF assms(1,2)] by simp
  then obtain s' where s': "s = w @ CHR ''/'' # s'" "split_slash s' = t' # ts'"
    using first_token [OF assms(2), of s "t' # ts'"] by auto
  have "prefix k t'" using unescape_prefix [OF assms(3,4), of t'] p(3) raw(3) by simp
  then have "prefix k s'" using hd_split_slash [OF assms(4), of s'] s'(2) by simp
  then show "prefix (CHR ''/'' # w @ CHR ''/'' # k) path" by (simp add: p(1) s'(1))
qed


section \<open>A patch changes one member of an object\<close>

text \<open>The change below a member, in terms of the old member alone.\<close>

definition patch_below ::
    "string \<Rightarrow> json \<Rightarrow> string list \<Rightarrow> json option \<Rightarrow> json option option" where
  "patch_below oper v ts old =
     (case ts of
        [] \<Rightarrow> patch_member oper v old
      | _ \<Rightarrow> (case old of None \<Rightarrow> None | Some c \<Rightarrow> map_option Some (patch_at oper v ts c)))"

lemma patch_at_object:
  "patch_at oper v (t # ts) (JObject m) =
     map_option (\<lambda>c. JObject (m(t := c))) (patch_below oper v ts (m t))"
  by (cases ts) (auto simp: patch_below_def option.map_comp comp_def split: option.split)

lemma patch_below_Cons:
  "patch_below oper v (t # ts) (Some (JObject m)) =
     map_option (\<lambda>c. Some (JObject (m(t := c)))) (patch_below oper v ts (m t))"
  by (simp add: patch_below_def patch_at_object option.map_comp comp_def del: patch_at.simps)


section \<open>Members of a document and of its parts\<close>

definition top_member :: "string \<Rightarrow> json \<Rightarrow> json option" where
  "top_member k doc = (case doc of JObject m \<Rightarrow> m k | _ \<Rightarrow> None)"

definition member :: "string \<Rightarrow> string \<Rightarrow> json \<Rightarrow> json option" where
  "member k1 k2 doc = (case top_member k1 doc of None \<Rightarrow> None | Some c \<Rightarrow> top_member k2 c)"

definition is_object :: "json \<Rightarrow> bool" where
  "is_object j \<longleftrightarrow> (case j of JObject _ \<Rightarrow> True | _ \<Rightarrow> False)"

lemma top_member_object [simp]: "top_member k (JObject m) = m k"
  by (simp add: top_member_def)

lemma member_object: "member k1 k2 (JObject m) = (case m k1 of None \<Rightarrow> None | Some c \<Rightarrow> top_member k2 c)"
  by (simp add: member_def)

lemma is_object_object [simp]: "is_object (JObject m)"
  by (simp add: is_object_def)

lemma is_object_iff: "is_object j \<longleftrightarrow> (\<exists>m. j = JObject m)"
  by (cases j) (auto simp: is_object_def)

text \<open>Patches in other members leave a member alone.\<close>

lemma applyPatch_other_member:
  assumes "pointer (Path p) = Some (k' # ks)" "k' \<noteq> k" "applyPatch p doc = Some doc'"
  shows "top_member k doc' = top_member k doc"
proof (cases doc)
  case (JObject m)
  with assms show ?thesis by (auto simp: applyPatch_def patch_at_object simp del: patch_at.simps)
next
  case (JArray xs)
  with assms show ?thesis
    by (cases ks) (auto simp: applyPatch_def top_member_def split: option.splits if_splits)
qed (use assms in \<open>simp_all add: applyPatch_def\<close>)

lemma applyPatches_other_member:
  assumes "applyPatches ps doc = Some doc'"
    and "\<And>p. p \<in> set ps \<Longrightarrow> \<exists>k' ks. pointer (Path p) = Some (k' # ks) \<and> k' \<noteq> k"
  shows "top_member k doc' = top_member k doc"
  using assms
proof (induction ps arbitrary: doc)
  case (Cons p ps)
  then obtain e where e: "applyPatch p doc = Some e" "applyPatches ps e = Some doc'"
    by (auto split: option.splits)
  obtain k' ks where "pointer (Path p) = Some (k' # ks)" "k' \<noteq> k" using Cons.prems(2) [of p] by auto
  from applyPatch_other_member [OF this e(1)] Cons.IH [OF e(2)] Cons.prems(2) show ?case by simp
qed simp

text \<open>
  The reference of a filter by members: the document with the allowed members of its parts
  taken from another document.
\<close>

definition overlay_part :: "(string \<Rightarrow> string \<Rightarrow> bool) \<Rightarrow> json \<Rightarrow> string \<Rightarrow> json \<Rightarrow> json" where
  "overlay_part allowed other k1 part =
     (case part of
        JObject m \<Rightarrow> JObject (\<lambda>k2. if allowed k1 k2 then member k1 k2 other else m k2)
      | _ \<Rightarrow> part)"

definition overlay :: "(string \<Rightarrow> string \<Rightarrow> bool) \<Rightarrow> json \<Rightarrow> json \<Rightarrow> json" where
  "overlay allowed doc other =
     (case doc of
        JObject m \<Rightarrow> JObject (\<lambda>k1. map_option (overlay_part allowed other k1) (m k1))
      | _ \<Rightarrow> doc)"

lemma overlay_object [simp]:
  "overlay allowed (JObject m) other = JObject (\<lambda>k1. map_option (overlay_part allowed other k1) (m k1))"
  by (simp add: overlay_def)

lemma overlay_part_object [simp]:
  "overlay_part allowed other k1 (JObject m) =
     JObject (\<lambda>k2. if allowed k1 k2 then member k1 k2 other else m k2)"
  by (simp add: overlay_part_def)

lemma overlay_part_other: "(\<And>k2. \<not> allowed k1 k2) \<Longrightarrow> overlay_part allowed other k1 part = part"
  by (cases part) (auto simp: overlay_part_def)

lemma overlay_self: "overlay allowed doc doc = doc"
proof (cases doc)
  case (JObject m)
  have "map_option (overlay_part allowed doc k1) (m k1) = m k1" for k1
  proof (cases "m k1")
    case (Some part)
    then show ?thesis by (cases part) (auto simp: JObject overlay_part_def member_object)
  qed simp
  with JObject show ?thesis by simp
qed (simp_all add: overlay_def)

lemma overlay_cong:
  assumes "\<And>k1 k2. allowed k1 k2 \<Longrightarrow> member k1 k2 d = member k1 k2 e"
  shows "overlay allowed doc d = overlay allowed doc e"
proof -
  have "overlay_part allowed d = overlay_part allowed e"
    by (intro ext) (auto simp: overlay_part_def assms split: json.split)
  then show ?thesis by (cases doc) (simp_all add: overlay_def)
qed


section \<open>Filtering a patch list\<close>

text \<open>
  A filter on paths that keeps exactly what lies in or below some members of the parts of a
  document. On a document that has these parts, and for patches that leave the parts in
  place, the filtered patches take over the changes to the kept members and nothing else.
\<close>

definition has_parts :: "string set \<Rightarrow> json \<Rightarrow> bool" where
  "has_parts parts doc \<longleftrightarrow> is_object doc \<and>
     (\<forall>k \<in> parts. case top_member k doc of None \<Rightarrow> False | Some c \<Rightarrow> is_object c)"

definition below_parts :: "string set \<Rightarrow> patch \<Rightarrow> bool" where
  "below_parts parts p \<longleftrightarrow>
     (case pointer (Path p) of None \<Rightarrow> True | Some [] \<Rightarrow> False | Some [k] \<Rightarrow> k \<notin> parts | _ \<Rightarrow> True)"

lemma has_parts_object:
  "has_parts parts (JObject m) \<longleftrightarrow> (\<forall>k \<in> parts. \<exists>m1. m k = Some (JObject m1))"
  by (auto simp: has_parts_def is_object_iff split: option.splits) fastforce

lemma has_partsE:
  assumes "has_parts parts doc"
  obtains m where "doc = JObject m" "\<forall>k \<in> parts. \<exists>m1. m k = Some (JObject m1)"
  using assms has_parts_object by (auto simp: has_parts_def is_object_iff)

locale member_filter =
  fixes keep :: "string \<Rightarrow> bool"
    and allowed :: "string \<Rightarrow> string \<Rightarrow> bool"
    and parts :: "string set"
  assumes keep_iff: "keep path \<longleftrightarrow> (\<exists>k1 k2 ks. pointer path = Some (k1 # k2 # ks) \<and> allowed k1 k2)"
    and allowed_parts: "allowed k1 k2 \<Longrightarrow> k1 \<in> parts"
begin

lemma overlay_member:
  assumes "has_parts parts doc"
  shows "member k1 k2 (overlay allowed doc d) = (if allowed k1 k2 then member k1 k2 d else member k1 k2 doc)"
proof -
  obtain m where m: "doc = JObject m" "\<forall>k \<in> parts. \<exists>m1. m k = Some (JObject m1)"
    using assms by (rule has_partsE)
  show ?thesis
  proof (cases "k1 \<in> parts")
    case True
    then obtain m1 where "m k1 = Some (JObject m1)" using m(2) by blast
    with m(1) show ?thesis by (simp add: member_object)
  next
    case False
    then have "\<not> allowed k1 k2" for k2 using allowed_parts by blast
    then show ?thesis by (simp add: m(1) member_object overlay_part_other [of allowed] option.case_eq_if
          option.map_sel)
  qed
qed

lemma overlay_top:
  assumes "k \<notin> parts"
  shows "top_member k (overlay allowed doc d) = top_member k doc"
proof (cases doc)
  case (JObject m)
  have "\<not> allowed k k2" for k2 using assms allowed_parts by blast
  then show ?thesis by (cases "m k") (simp_all add: JObject overlay_part_other)
qed (simp_all add: overlay_def)

text \<open>One patch on the document and on its overlay.\<close>

lemma step:
  assumes "has_parts parts d" "below_parts parts p" "applyPatch p d = Some d'"
  obtains m k ks c where "d = JObject m" "d' = JObject (m(k := c))" "pointer (Path p) = Some (k # ks)"
    "patch_below (Operation p) (PatchValue p) ks (m k) = Some c" "k \<in> parts \<longrightarrow> ks \<noteq> []"
proof -
  obtain m where m: "d = JObject m" using assms(1) by (rule has_partsE)
  obtain ts where ts: "pointer (Path p) = Some ts" using assms(3) by (auto simp: applyPatch_def split: option.splits)
  with assms(2) obtain k ks where k: "ts = k # ks" "k \<in> parts \<longrightarrow> ks \<noteq> []"
    by (auto simp: below_parts_def split: list.splits)
  from assms(3) obtain c where "patch_below (Operation p) (PatchValue p) ks (m k) = Some c"
    "d' = JObject (m(k := c))"
    by (auto simp: applyPatch_def ts k(1) m patch_at_object simp del: patch_at.simps)
  with that m ts k show thesis by blast
qed

lemma step_parts:
  assumes "has_parts parts d" "below_parts parts p" "applyPatch p d = Some d'"
  shows "has_parts parts d'"
proof -
  obtain m k ks c where st: "d = JObject m" "d' = JObject (m(k := c))"
    "patch_below (Operation p) (PatchValue p) ks (m k) = Some c" "k \<in> parts \<longrightarrow> ks \<noteq> []"
    using assms by (rule step)
  have "\<exists>m1. c = Some (JObject m1)" if k: "k \<in> parts"
  proof -
    obtain m1 where "m k = Some (JObject m1)" using assms(1) k by (auto simp: st(1) has_parts_object)
    moreover obtain k2 ks2 where "ks = k2 # ks2" using st(4) k by (cases ks) auto
    ultimately show ?thesis using st(3) by (auto simp: patch_below_Cons)
  qed
  with assms(1) show ?thesis by (auto simp: st(1,2) has_parts_object)
qed

text \<open>A patch that the filter drops does not touch an allowed member.\<close>

lemma step_dropped:
  assumes "has_parts parts d" "below_parts parts p" "applyPatch p d = Some d'"
    and "\<not> keep (Path p)" "allowed k1 k2"
  shows "member k1 k2 d' = member k1 k2 d"
proof -
  obtain m k ks c where st: "d = JObject m" "d' = JObject (m(k := c))" "pointer (Path p) = Some (k # ks)"
    "patch_below (Operation p) (PatchValue p) ks (m k) = Some c" "k \<in> parts \<longrightarrow> ks \<noteq> []"
    using assms(1-3) by (rule step)
  show ?thesis
  proof (cases "k = k1")
    case True
    have "k \<in> parts" using assms(5) allowed_parts True by blast
    then obtain m1 k3 ks3 where "m k = Some (JObject m1)" "ks = k3 # ks3"
      using assms(1) st(5) by (cases ks) (auto simp: st(1) has_parts_object)
    moreover from this have "k3 \<noteq> k2" using assms(4,5) st(3) True unfolding keep_iff by auto
    ultimately show ?thesis using st(4) True by (auto simp: st(1,2) member_object patch_below_Cons)
  qed (simp add: st member_object)
qed

text \<open>A patch that the filter keeps has the same effect on the overlay.\<close>

lemma step_kept:
  assumes "has_parts parts doc" "has_parts parts d" "applyPatch p d = Some d'" "keep (Path p)"
  shows "applyPatch p (overlay allowed doc d) = Some (overlay allowed doc d')"
proof -
  obtain k1 k2 ks where k: "pointer (Path p) = Some (k1 # k2 # ks)" "allowed k1 k2"
    using assms(4) by (auto simp: keep_iff)
  obtain n m n1 m1 where doc: "doc = JObject n" "n k1 = Some (JObject n1)"
    and d: "d = JObject m" "m k1 = Some (JObject m1)"
    using assms(1,2) allowed_parts [OF k(2)] by (metis has_partsE)
  from assms(3) obtain c where c: "patch_below (Operation p) (PatchValue p) ks (m1 k2) = Some c"
    "d' = JObject (m(k1 \<mapsto> JObject (m1(k2 := c))))"
    by (auto simp: applyPatch_def k(1) d patch_at_object patch_below_Cons simp del: patch_at.simps)
  have "member k1 k2 d = m1 k2" by (simp add: d member_object)
  let ?part = "(\<lambda>k. if allowed k1 k then member k1 k d else n1 k)(k2 := c)"
  have "map_option (overlay_part allowed d' k) (n k) =
      ((\<lambda>k. map_option (overlay_part allowed d k) (n k))(k1 \<mapsto> JObject ?part)) k" for k
  proof (cases "k = k1")
    case True
    have "(\<lambda>k. if allowed k1 k then member k1 k d' else n1 k) = ?part"
      using k(2) by (auto simp: d c(2) member_object)
    with True doc(2) show ?thesis by simp
  next
    case False
    then show ?thesis by (cases "n k") (auto simp: overlay_part_def d c(2) member_object split: json.split)
  qed
  moreover have "applyPatch p (overlay allowed doc d) =
      Some (JObject ((\<lambda>k. map_option (overlay_part allowed d k) (n k))(k1 \<mapsto> JObject ?part)))"
    using c(1) k(2) \<open>member k1 k2 d = m1 k2\<close>
    by (simp add: applyPatch_def k(1) doc patch_at_object patch_below_Cons del: patch_at.simps)
  ultimately show ?thesis by (simp add: doc(1) fun_eq_iff)
qed

theorem filtered_overlay:
  assumes "has_parts parts doc" "has_parts parts d" "list_all (below_parts parts) ps" "applyPatches ps d = Some d'"
  shows "applyPatches (filter (\<lambda>p. keep (Path p)) ps) (overlay allowed doc d) = Some (overlay allowed doc d')"
  using assms(2-4)
proof (induction ps arbitrary: d)
  case (Cons p ps)
  then obtain e where e: "applyPatch p d = Some e" "applyPatches ps e = Some d'"
    by (auto split: option.splits)
  have p: "below_parts parts p" "list_all (below_parts parts) ps" using Cons.prems(2) by simp_all
  note IH = Cons.IH [OF step_parts [OF Cons.prems(1) p(1) e(1)] p(2) e(2)]
  show ?case
  proof (cases "keep (Path p)")
    case True
    with IH step_kept [OF assms(1) Cons.prems(1) e(1)] show ?thesis by simp
  next
    case False
    have "overlay allowed doc e = overlay allowed doc d"
      by (rule overlay_cong) (rule step_dropped [OF Cons.prems(1) p(1) e(1) False])
    with IH False show ?thesis by simp
  qed
qed simp

end

end
