(* ===== verification/Webhook.thy ===== *)
theory Webhook
  imports ConfigStore JsonPatch
begin

text \<open>
  \<^verbatim>\<open>internal/webhook/v1/pipelinerun_webhook.go\<close>: the defaulter that suspends a new PipelineRun
  and assigns its queue, and the admission handler that drops patches outside an allowlist.
\<close>

section \<open>The defaulter\<close>

text \<open>The \<open>runtime.Object\<close> of an admission request: a PipelineRun or some other type.\<close>

datatype 'r runtimeObject = PipelineRunObj "'r PipelineRun" | OtherObj string

record 'r pipelineRunCustomDefaulter =
  configStore :: "'r ConfigStore"

definition NewCustomDefaulter :: "'r ConfigStore \<Rightarrow> 'r pipelineRunCustomDefaulter result" where
  "NewCustomDefaulter s = Inr \<lparr>configStore = s\<rparr>"

text \<open>The \<open>Error\<close> method of the two error types of package \<open>cel\<close>.\<close>

fun celErrorMessage :: "go_error \<Rightarrow> message" where
  "celErrorMessage (ValidationError e) = Sprintf ''pipelinerun validation failed: %v'' [ArgE e]"
| "celErrorMessage (EvaluationError e) = Sprintf ''CEL evaluation failed: %v'' [ArgE e]"
| "celErrorMessage e = Sprintf ''%v'' [ArgE e]"

text \<open>How an error of a mutator is answered: 400, 500, or as it is.\<close>

definition admissionError :: "go_error \<Rightarrow> go_error" where
  "admissionError err =
     (case errors_As is_ValidationError_val err of
        Some validationErr \<Rightarrow> BadRequest (celErrorMessage validationErr)
      | None \<Rightarrow>
          (case errors_As is_EvaluationError_val err of
             Some evaluationErr \<Rightarrow> InternalError evaluationErr
           | None \<Rightarrow> err))"

fun runMutators ::
    "'r mutator list \<Rightarrow> 'r PipelineRun \<Rightarrow> metrics \<Rightarrow> go_error option \<times> 'r PipelineRun \<times> metrics" where
  "runMutators [] plr m = (None, plr, m)"
| "runMutators (mutator # muts) plr m =
     (case mutator plr m of
        (Some err, plr', m') \<Rightarrow> (Some (admissionError err), plr', m')
      | (None, plr', m') \<Rightarrow> runMutators muts plr' m')"

text \<open>
  The changes \<open>Default\<close> makes before the mutators run, from a configuration that has been
  loaded.
\<close>

definition applyConfig :: "Config \<Rightarrow> 'r PipelineRun \<Rightarrow> 'r PipelineRun" where
  "applyConfig cfg plr =
     (let plr = plr\<lparr>SpecStatus := PipelineRunSpecStatusPending\<rparr>;
          plr = plr\<lparr>Labels := init_map (Labels plr)\<rparr>;
          plr = (if map_get (Labels plr) QueueLabel = None
                 then plr\<lparr>Labels := put_init (Labels plr) QueueLabel (QueueName cfg)\<rparr> else plr)
      in if MultiKueueOverride cfg then plr\<lparr>ManagedBy := Some ManagedByMultiKueueLabel\<rparr> else plr)"

text \<open>
  \<open>Default\<close>, with the part after its type assertion as \<open>DefaultRun\<close>. The object is changed in place, so it is returned with the error and the
  counters. The store's configuration is nil until the first accepted update; reading a
  field of it then is a nil dereference, whether the queue label is set or not, because
  \<open>config.MultiKueueOverride\<close> is read on every path.
\<close>

definition DefaultRun ::
    "'r pipelineRunCustomDefaulter \<Rightarrow> 'r PipelineRun \<Rightarrow> metrics
       \<Rightarrow> (go_error option \<times> 'r PipelineRun \<times> metrics) outcome" where
  "DefaultRun d plr m =
     (case GetConfigAndMutators (configStore d) of
        (None, muts) \<Rightarrow> Panic ''nil pointer dereference''
      | (Some cfg, muts) \<Rightarrow> Ret (runMutators muts (applyConfig cfg plr) m))"

definition Default ::
    "'r pipelineRunCustomDefaulter \<Rightarrow> 'r runtimeObject \<Rightarrow> metrics
       \<Rightarrow> (go_error option \<times> 'r runtimeObject \<times> metrics) outcome" where
  "Default d obj m =
     (case obj of
        OtherObj t \<Rightarrow>
          Ret (Some (BadRequest (Sprintf ''expected a PipelineRun object but got %T'' [ArgT t])), obj, m)
      | PipelineRunObj plr \<Rightarrow>
          (case DefaultRun d plr m of
             Panic msg \<Rightarrow> Panic msg
           | Ret (err, plr', m') \<Rightarrow> Ret (err, PipelineRunObj plr', m')))"


section \<open>Filtering patches\<close>

text \<open>\<open>admission.Response\<close>; \<open>RespRest\<close> is the rest of the embedded \<open>AdmissionResponse\<close>.\<close>

record 'a Response =
  Patches :: "patch list"
  PatchType :: "string option"
  Patch :: "bytes option"
  RespRest :: 'a

definition allowedPatchPrefixes :: "string list" where
  "allowedPatchPrefixes =
     [''/metadata/labels'', ''/metadata/annotations'', ''/spec/status'', ''/spec/managedBy'']"

fun anyPrefix :: "string \<Rightarrow> string list \<Rightarrow> bool" where
  "anyPrefix path [] = False"
| "anyPrefix path (pre # pres) = (if HasPrefix path pre then True else anyPrefix path pres)"

definition isPatchAllowed :: "string \<Rightarrow> bool" where
  "isPatchAllowed path = anyPrefix path allowedPatchPrefixes"

text \<open>
  The loop compacts the slice in place: it reads element \<open>i\<close> of the array and writes it to
  position \<open>n\<close> of the same array. Both indices are inside the slice, \<open>n \<le> i\<close>.
\<close>

function filterLoop :: "patch list \<Rightarrow> nat \<Rightarrow> nat \<Rightarrow> patch list \<times> nat" where
  "filterLoop arr i n =
     (if i < length arr then
        (if isPatchAllowed (Path (arr ! i)) then filterLoop (arr[n := arr ! i]) (Suc i) (Suc n)
         else filterLoop arr (Suc i) n)
      else (arr, n))"
  by pat_completeness auto
termination
  by (relation "measure (\<lambda>(arr, i, n). length arr - i)") auto

declare filterLoop.simps [simp del]

definition filterResponse :: "'a Response \<Rightarrow> 'a Response" where
  "filterResponse resp =
     (if length (Patches resp) = 0 then resp
      else
        let (arr, n) = filterLoop (Patches resp) 0 0;
            resp = resp\<lparr>Patches := take n arr\<rparr>
        in if n = 0 then resp\<lparr>PatchType := None, Patch := None\<rparr> else resp)"

definition Handle :: "('req \<Rightarrow> 'a Response) \<Rightarrow> 'req \<Rightarrow> 'a Response" where
  "Handle inner req = filterResponse (inner req)"


section \<open>The compaction is a filter\<close>

lemma filterLoop_done: "\<not> i < length arr \<Longrightarrow> filterLoop arr i n = (arr, n)"
  by (simp add: filterLoop.simps)

lemma filterLoop_eq:
  assumes "n \<le> i" "i \<le> length arr" "length arr = length orig"
    "drop i arr = drop i orig" "take n arr = filter (\<lambda>p. isPatchAllowed (Path p)) (take i orig)"
  shows "take (snd (filterLoop arr i n)) (fst (filterLoop arr i n)) =
           filter (\<lambda>p. isPatchAllowed (Path p)) orig \<and>
         snd (filterLoop arr i n) \<le> length orig \<and>
         length (fst (filterLoop arr i n)) = length orig"
  using assms
proof (induction arr i n rule: filterLoop.induct)
  case (1 arr i n)
  show ?case
  proof (cases "i < length arr")
    case False
    with "1.prems" show ?thesis by (simp add: filterLoop_done)
  next
    case True
    have same: "arr ! i = orig ! i" and rest: "drop (Suc i) arr = drop (Suc i) orig"
      using True "1.prems"(3,4) by (metis Cons_nth_drop_Suc list.inject)+
    have upto: "take (Suc i) orig = take i orig @ [orig ! i]"
      using True "1.prems"(3) by (simp add: take_Suc_conv_app_nth)
    show ?thesis
    proof (cases "isPatchAllowed (Path (arr ! i))")
      case ok: True
      have "take (Suc n) (arr[n := arr ! i]) = take n arr @ [arr ! i]"
        using True "1.prems"(1) by (simp add: take_Suc_conv_app_nth)
      with "1.IH"(1) [OF True ok] True ok "1.prems" same rest upto show ?thesis
        by (simp add: filterLoop.simps [of arr i n])
    next
      case False
      with "1.IH"(2) [OF True False] True "1.prems" same rest upto show ?thesis
        by (simp add: filterLoop.simps [of arr i n])
    qed
  qed
qed

lemma filterLoop_filter:
  assumes "filterLoop ps 0 0 = (arr, n)"
  shows "take n arr = filter (\<lambda>p. isPatchAllowed (Path p)) ps"
    and "n = length (filter (\<lambda>p. isPatchAllowed (Path p)) ps)"
proof -
  have *: "take n arr = filter (\<lambda>p. isPatchAllowed (Path p)) ps \<and> n \<le> length ps \<and> length arr = length ps"
    using filterLoop_eq [of 0 0 ps ps] assms by simp
  then show "take n arr = filter (\<lambda>p. isPatchAllowed (Path p)) ps" by simp
  from * have "n \<le> length arr" by simp
  then have "length (take n arr) = n" by simp
  with * show "n = length (filter (\<lambda>p. isPatchAllowed (Path p)) ps)" by simp
qed

lemma filterResponse_eq:
  "filterResponse resp =
     (let ps = filter (\<lambda>p. isPatchAllowed (Path p)) (Patches resp) in
      if Patches resp = [] then resp
      else if ps = [] then resp\<lparr>Patches := [], PatchType := None, Patch := None\<rparr>
      else resp\<lparr>Patches := ps\<rparr>)"
proof -
  obtain arr n where l: "filterLoop (Patches resp) 0 0 = (arr, n)" by (rule prod.exhaust)
  from filterLoop_filter [OF l] l show ?thesis
    by (auto simp: filterResponse_def Let_def)
qed

lemma isPatchAllowed_iff:
  "isPatchAllowed path \<longleftrightarrow> (\<exists>pre \<in> set allowedPatchPrefixes. prefix pre path)"
proof -
  have "anyPrefix path ps \<longleftrightarrow> (\<exists>pre \<in> set ps. prefix pre path)" for ps
    by (induction ps) (auto simp: HasPrefix_def)
  then show ?thesis by (simp add: isPatchAllowed_def)
qed


section \<open>What a chain of mutators does\<close>

lemma admissionError_kinds:
  assumes "is_ValidationError_val err \<or> is_EvaluationError_val err"
  shows "(\<exists>msg. admissionError err = BadRequest msg) \<or> (\<exists>e. admissionError err = InternalError e)"
  using assms by (auto simp: admissionError_def split: option.splits)

lemma admissionError_Validation [simp]:
  "admissionError (ValidationError e) = BadRequest (Sprintf ''pipelinerun validation failed: %v'' [ArgE e])"
  by (simp add: admissionError_def)

text \<open>
  The client side of the mutator interface: a chain of mutators that keep the contract keeps
  it too, and answers an error with a 400 or a 500.
\<close>

locale mutator_chain =
  fixes muts :: "'r mutator list"
  assumes members: "mu \<in> set muts \<Longrightarrow> pipeline_run_mutator mu"
begin

lemma chain_induct:
  assumes "runMutators muts p m = (e, q, m')"
  shows "same_frame p q \<and> keeps_entries p q \<and> configReloadTotal m' = configReloadTotal m \<and>
    (\<forall>err. e = Some err \<longrightarrow> (\<exists>msg. err = BadRequest msg) \<or> (\<exists>e'. err = InternalError e'))"
proof -
  have "set ms \<subseteq> set muts \<Longrightarrow> runMutators ms p m = (e, q, m') \<Longrightarrow>
    same_frame p q \<and> keeps_entries p q \<and> configReloadTotal m' = configReloadTotal m \<and>
    (\<forall>err. e = Some err \<longrightarrow> (\<exists>msg. err = BadRequest msg) \<or> (\<exists>e'. err = InternalError e'))" for ms
  proof (induction ms p m rule: runMutators.induct)
    case (2 mu ms p m)
    then have mu: "pipeline_run_mutator mu" using members by simp
    obtain e1 q1 m1 where one: "mu p m = (e1, q1, m1)" by (rule prod_cases3)
    note step = pipeline_run_mutator.frame [OF mu one] pipeline_run_mutator.keeps [OF mu one]
      pipeline_run_mutator.reloads [OF mu one]
    show ?case
    proof (cases e1)
      case None
      with 2 one step show ?thesis
        by (auto intro: same_frame_trans keeps_entries_trans)
    next
      case (Some err)
      with one have "mu p m = (Some err, q1, m1)" by simp
      from admissionError_kinds [OF pipeline_run_mutator.error_kind [OF mu this]]
      show ?thesis using "2.prems"(2) one step Some by auto
    qed
  qed auto
  with assms show ?thesis by blast
qed

lemmas chain_frame = chain_induct [THEN conjunct1]
lemmas chain_keeps = chain_induct [THEN conjunct2, THEN conjunct1]
lemmas chain_error = chain_induct [THEN conjunct2, THEN conjunct2, THEN conjunct2, rule_format]

end

interpretation no_mutators: mutator_chain "[]"
  by (rule mutator_chain.intro) simp

interpretation one_cel_mutator: mutator_chain "[MutateRun T cm]"
  by (rule mutator_chain.intro) (simp add: cel_mutator.pipeline_run_mutator_axioms)

lemma store_ok_chain: "store_ok C V T s \<Longrightarrow> mutator_chain (mutators s)"
  by (rule mutator_chain.intro)
    (auto intro: consistent_pair_mutators simp: store_ok_def)

lemma applyConfig_simps [simp]:
  "SpecStatus (applyConfig cfg p) = PipelineRunSpecStatusPending"
  "Annotations (applyConfig cfg p) = Annotations p"
  "map_get (Labels (applyConfig cfg p)) k =
     (if k = QueueLabel \<and> map_get (Labels p) k = None then Some (QueueName cfg)
      else map_get (Labels p) k)"
  "ManagedBy (applyConfig cfg p) =
     (if MultiKueueOverride cfg then Some ManagedByMultiKueueLabel else ManagedBy p)"
  "Rest (applyConfig cfg p) = Rest p" "Name (applyConfig cfg p) = Name p"
  "Namespace (applyConfig cfg p) = Namespace p" "Conditions (applyConfig cfg p) = Conditions p"
  by (auto simp: applyConfig_def Let_def)

lemma DefaultRun_loaded [simp]:
  "config (configStore d) = Some cfg \<Longrightarrow>
     DefaultRun d p m = Ret (runMutators (mutators (configStore d)) (applyConfig cfg p) m)"
  by (simp add: DefaultRun_def GetConfigAndMutators_def)

lemma DefaultRun_not_loaded [simp]:
  "config (configStore d) = None \<Longrightarrow> DefaultRun d p m = Panic ''nil pointer dereference''"
  by (simp add: DefaultRun_def GetConfigAndMutators_def)

lemma DefaultRun_Ret:
  "DefaultRun d p m = Ret r \<longleftrightarrow>
     (\<exists>cfg. config (configStore d) = Some cfg \<and>
        r = runMutators (mutators (configStore d)) (applyConfig cfg p) m)"
  by (cases "config (configStore d)") auto

lemma Default_PipelineRun:
  "Default d (PipelineRunObj p) m = Ret (e, obj, m') \<longleftrightarrow>
     (\<exists>q. obj = PipelineRunObj q \<and> DefaultRun d p m = Ret (e, q, m'))"
  by (auto simp: Default_def split: outcome.splits prod.splits)

lemma applyConfig_frame:
  "same_frame (p\<lparr>SpecStatus := PipelineRunSpecStatusPending\<rparr>) (applyConfig cfg p)"
  by (simp add: applyConfig_def Let_def)

lemma applyConfig_keeps: "keeps_entries p (applyConfig cfg p)"
  by (simp add: keeps_entries_def)

lemma keeps_entries_label:
  "keeps_entries p q \<Longrightarrow> map_get (Labels p) k \<noteq> None \<Longrightarrow> map_get (Labels q) k \<noteq> None"
  by (simp add: keeps_entries_def)


section \<open>Properties\<close>

text \<open>Stores for the instances: one as the sample configuration loads it, one with the
  mutator that adds up resource requests and sends the run to another queue.\<close>

definition sample_store :: "unit ConfigStore" where
  "sample_store = \<lparr>config = Some sample_config, mutators = sample_mutators\<rparr>"

lemma sample_store_ok: "store_ok sample_cel sample_validation sample_tekton sample_store"
  using prepareUpdate_consistent [OF sample_prepare] by (simp add: store_ok_def sample_store_def)

lemma sample_admitted:
  obtains q m where "Default \<lparr>configStore = sample_store\<rparr> (PipelineRunObj sample_run) zero_metrics =
    Ret (None, PipelineRunObj q, m)"
  by (simp add: Default_def DefaultRun_def GetConfigAndMutators_def sample_store_def sample_mutators_def
      MutateRun_def NewCELMutator_def evaluate_def Evaluate_def mutationMap_def convertToMutationRequests_def
      convertSingleMutation_def extractMutationType_def extractStringField_def Validate_def mutate_def)

text \<open>An accepted object: the form in which the composed system uses it.\<close>

lemma Default_accepted:
  assumes "store_ok C V T (configStore d)" and "Default d obj m = Ret (None, obj', m')"
  shows "\<exists>p q. obj = PipelineRunObj p \<and> obj' = PipelineRunObj q \<and>
    SpecStatus q = PipelineRunSpecStatusPending \<and> map_get (Labels q) QueueLabel \<noteq> None \<and>
    same_frame (p\<lparr>SpecStatus := PipelineRunSpecStatusPending\<rparr>) q \<and> keeps_entries p q"
proof -
  from assms(2) obtain p where p: "obj = PipelineRunObj p" by (cases obj) (auto simp: Default_def)
  with assms(2) obtain q where q: "obj' = PipelineRunObj q" "DefaultRun d p m = Ret (None, q, m')"
    by (auto simp: Default_PipelineRun)
  then obtain cfg where
    run: "runMutators (mutators (configStore d)) (applyConfig cfg p) m = (None, q, m')"
    by (auto simp: DefaultRun_Ret)
  note chain = store_ok_chain [OF assms(1)]
  have frame: "same_frame (p\<lparr>SpecStatus := PipelineRunSpecStatusPending\<rparr>) q"
    using same_frame_trans [OF applyConfig_frame mutator_chain.chain_frame [OF chain run]] .
  have keeps: "keeps_entries (applyConfig cfg p) q"
    using mutator_chain.chain_keeps [OF chain run] .
  have "map_get (Labels q) QueueLabel \<noteq> None"
    by (rule keeps_entries_label [OF keeps]) auto
  with p q frame keeps_entries_trans [OF applyConfig_keeps keeps] same_frame_SpecStatus [OF frame]
  show ?thesis by simp
qed

text \<open>
  (C1) Every admitted run waits for Kueue. When the defaulter accepts an object, the object
  is a PipelineRun that is suspended and carries a queue label, whatever the CEL
  expressions do; nothing else of it has changed but labels, annotations and
  \<open>spec.managedBy\<close>, and no label, annotation or manager it came with has been removed.
\<close>

theorem Default_admits:
  assumes "store_ok C V T (configStore d)" and "Default d obj m = Ret (None, obj', m')"
  shows "\<exists>p q. obj = PipelineRunObj p \<and> obj' = PipelineRunObj q \<and>
    SpecStatus q = PipelineRunSpecStatusPending \<and> map_get (Labels q) QueueLabel \<noteq> None \<and>
    same_frame (p\<lparr>SpecStatus := PipelineRunSpecStatusPending\<rparr>) q \<and> keeps_entries p q"
  using assms by (rule Default_accepted)

theorem Default_admits_witness:
  "\<exists>q m. Default \<lparr>configStore = sample_store\<rparr> (PipelineRunObj sample_run) zero_metrics =
           Ret (None, PipelineRunObj q, m) \<and>
         SpecStatus q = PipelineRunSpecStatusPending \<and> map_get (Labels q) QueueLabel \<noteq> None"
proof -
  obtain q m where d: "Default \<lparr>configStore = sample_store\<rparr> (PipelineRunObj sample_run) zero_metrics =
    Ret (None, PipelineRunObj q, m)" by (rule sample_admitted)
  have "store_ok sample_cel sample_validation sample_tekton (configStore \<lparr>configStore = sample_store\<rparr>)"
    by (simp add: sample_store_ok)
  from Default_admits [OF this d] d show ?thesis by auto
qed

text \<open>
  (C2) Which queue and which manager an admitted run gets. The requests that the configured
  expressions evaluate to are valid; the queue is the one the last of them writes, else the
  one the user asked for, else the configured one; \<open>spec.managedBy\<close> is what the last of
  them writes, else MultiKueue when the override is on, else what the user set.
\<close>

theorem Default_queue_and_manager:
  assumes "store_ok C V T s" and "config s = Some cfg"
    and "Default \<lparr>configStore = s\<rparr> (PipelineRunObj p) m = Ret (None, PipelineRunObj q, m')"
  shows "\<exists>mrs.
    (if Expressions (CfgCEL cfg) = [] then mrs = []
     else \<exists>ps m1. CompileCELPrograms C V (Expressions (CfgCEL cfg)) = Inr ps \<and>
            evaluate T (NewCELMutator ps) (SetDefaults T (applyConfig cfg p)) m = (Inr mrs, m1)) \<and>
    map_get (Labels q) QueueLabel =
      Some (case last_some (label_write QueueLabel) mrs of Some v \<Rightarrow> v
            | None \<Rightarrow> (case map_get (Labels p) QueueLabel of Some v \<Rightarrow> v | None \<Rightarrow> QueueName cfg)) \<and>
    ManagedBy q =
      (case last_some managedBy_write mrs of Some v \<Rightarrow> Some v
       | None \<Rightarrow> if MultiKueueOverride cfg then Some ManagedByMultiKueueLabel else ManagedBy p)"
proof -
  from assms have run: "runMutators (mutators s) (applyConfig cfg p) m = (None, q, m')"
    by (simp add: Default_PipelineRun)
  have muts: "mutators_for C V T cfg (mutators s)"
    using assms(1,2) by (simp add: store_ok_def consistent_pair_def)
  show ?thesis
  proof (cases "Expressions (CfgCEL cfg) = []")
    case True
    with muts run show ?thesis
      by (intro exI [of _ "[]"]) (auto simp: mutators_for_def split: option.split)
  next
    case False
    with muts obtain ps where ps: "CompileCELPrograms C V (Expressions (CfgCEL cfg)) = Inr ps"
      "mutators s = [MutateRun T (NewCELMutator ps)]" by (auto simp: mutators_for_def)
    have ne: "ps \<noteq> []" using CompileCELPrograms_expressions [OF ps(1)] by simp
    from run ps(2) have "MutateRun T (NewCELMutator ps) (applyConfig cfg p) m = (None, q, m')"
      by (auto split: prod.splits option.splits)
    with ne obtain mrs m1 where "evaluate T (NewCELMutator ps) (SetDefaults T (applyConfig cfg p)) m = (Inr mrs, m1)"
      and ap: "applyLoop (applyConfig cfg p) mrs = (None, q)"
      by (cases rule: MutateRun_cases [of "NewCELMutator ps" T "applyConfig cfg p" m])
        (auto simp: NewCELMutator_def)
    with False ps(1) applyLoop_writes [OF ap, of QueueLabel] show ?thesis
      by (intro exI [of _ mrs]) (auto simp: or_else_def split: option.splits)
  qed
qed

theorem Default_queue_and_manager_witness:
  "\<exists>q m. Default \<lparr>configStore = sample_store\<rparr> (PipelineRunObj sample_run) zero_metrics =
           Ret (None, PipelineRunObj q, m) \<and> map_get (Labels q) QueueLabel = Some ''pipelines''"
proof -
  obtain q m where d: "Default \<lparr>configStore = sample_store\<rparr> (PipelineRunObj sample_run) zero_metrics =
    Ret (None, PipelineRunObj q, m)" by (rule sample_admitted)
  have c: "config sample_store = Some sample_config" by (simp add: sample_store_def)
  have "last_some (label_write QueueLabel) mrs = None"
    if "evaluate sample_tekton (NewCELMutator ps) sample_run' zero_metrics = (Inr mrs, m1)"
      "CompileCELPrograms sample_cel sample_validation [''expr''] = Inr ps" for ps mrs sample_run' m1
    using that
    by (auto simp: sample_compile NewCELMutator_def evaluate_def Evaluate_def mutationMap_def
        convertToMutationRequests_def convertSingleMutation_def extractMutationType_def
        extractStringField_def Validate_def label_write_def)
  with Default_queue_and_manager [OF sample_store_ok c d] d show ?thesis
    by (auto simp: sample_config_def)
qed

text \<open>
  (C20) How the defaulter answers once a configuration is loaded: it returns, for every
  object. An object of another type is answered with a 400; so is a run that fails its own
  validation; a failing expression is answered with a 500; there is no other error.
\<close>

theorem Default_answers:
  assumes "store_ok C V T (configStore d)" and "config (configStore d) \<noteq> None"
  shows "\<exists>e obj' m'. Default d obj m = Ret (e, obj', m') \<and>
    ((\<exists>t. obj = OtherObj t) \<longrightarrow> (\<exists>msg. e = Some (BadRequest msg)) \<and> obj' = obj \<and> m' = m) \<and>
    (\<forall>err. e = Some err \<longrightarrow> (\<exists>msg. err = BadRequest msg) \<or> (\<exists>err'. err = InternalError err'))"
proof (cases obj)
  case (OtherObj t)
  then show ?thesis by (simp add: Default_def)
next
  case (PipelineRunObj p)
  from assms(2) obtain cfg where cfg: "config (configStore d) = Some cfg" by blast
  obtain e q m' where run: "runMutators (mutators (configStore d)) (applyConfig cfg p) m = (e, q, m')"
    by (rule prod_cases3)
  have "(\<exists>msg. err = BadRequest msg) \<or> (\<exists>err'. err = InternalError err')" if "e = Some err" for err
    using mutator_chain.chain_error [OF store_ok_chain [OF assms(1)] run that] .
  with PipelineRunObj cfg run show ?thesis by (simp add: Default_def)
qed

theorem Default_answers_witness:
  "\<exists>msg. Default \<lparr>configStore = sample_store\<rparr> (OtherObj ''*v1.TaskRun'') zero_metrics =
     Ret (Some (BadRequest msg), OtherObj ''*v1.TaskRun'', zero_metrics)"
proof -
  let ?d = "\<lparr>configStore = sample_store\<rparr>"
  have "store_ok sample_cel sample_validation sample_tekton (configStore ?d)" "config (configStore ?d) \<noteq> None"
    using sample_store_ok by (simp_all add: sample_store_def)
  from Default_answers [OF this, of "OtherObj ''*v1.TaskRun''" zero_metrics] show ?thesis by auto
qed

text \<open>
  The only way the defaulter can panic: a PipelineRun arrives before the first
  accepted configuration, the state in which the webhook process starts.
\<close>

lemma Default_panics_iff:
  "(\<exists>msg. Default d obj m = Panic msg) \<longleftrightarrow>
     config (configStore d) = None \<and> (\<exists>p. obj = PipelineRunObj p)"
proof (cases obj)
  case (PipelineRunObj p)
  then show ?thesis
    by (cases "config (configStore d)") (auto simp: Default_def split: prod.splits)
qed (simp add: Default_def)

text \<open>
  A configuration that sets \<open>multiKueueOverride\<close> and no \<open>queueName\<close>, as the README
  shows one, is rejected and counted as a failed reload. On a store that holds no
  configuration yet it leaves the webhook unable to answer for any PipelineRun.
\<close>

lemma unnamed_queue_rejected:
  assumes "Y raw = Inr cfg" and "QueueName cfg = []"
  shows "\<exists>err. Update C V T Y raw s m = (Some err, s, RecordReloadFailure m) \<and>
    (\<exists>s' m'. Update C V T Y raw emptyStore m = (Some err, s', m') \<and>
       (\<forall>p. \<exists>msg. Default \<lparr>configStore = s'\<rparr> (PipelineRunObj p) m' = Panic msg))"
proof -
  obtain err where "prepareUpdate C V T Y raw = Inl err"
    using assms by (simp add: prepareUpdate_def parseConfig_def validateConfig_def)
  then show ?thesis by (simp add: Update_def Default_def emptyStore_def)
qed

text \<open>
  (C15) The admission handler keeps exactly the patches under the four allowed paths, in
  their order, although it compacts the slice in place while it iterates over it. When it
  drops the last one it also clears the patch and its type; everything else of the inner
  handler's response is passed on.
\<close>

theorem Handle_filters_patches:
  "Patches (Handle inner req) =
     filter (\<lambda>p. prefix ''/metadata/labels'' (Path p) \<or> prefix ''/metadata/annotations'' (Path p) \<or>
                 prefix ''/spec/status'' (Path p) \<or> prefix ''/spec/managedBy'' (Path p))
       (Patches (inner req)) \<and>
   PatchType (Handle inner req) =
     (if Patches (inner req) \<noteq> [] \<and> Patches (Handle inner req) = [] then None
      else PatchType (inner req)) \<and>
   Patch (Handle inner req) =
     (if Patches (inner req) \<noteq> [] \<and> Patches (Handle inner req) = [] then None else Patch (inner req)) \<and>
   RespRest (Handle inner req) = RespRest (inner req)"
proof -
  have eq: "isPatchAllowed path \<longleftrightarrow> prefix ''/metadata/labels'' path \<or>
      prefix ''/metadata/annotations'' path \<or> prefix ''/spec/status'' path \<or>
      prefix ''/spec/managedBy'' path" for path
    unfolding isPatchAllowed_iff allowedPatchPrefixes_def by auto
  show ?thesis unfolding Handle_def filterResponse_eq eq by (simp add: Let_def)
qed

end
