(* ===== verification/Admission.thy ===== *)
theory Admission
  imports Webhook
begin

text \<open>
  Admission end to end: what the API server stores when it applies the filtered patches of
  \<^verbatim>\<open>internal/webhook/v1/pipelinerun_webhook.go\<close> to the document that the user submitted.
  The inner handler is controller-runtime's, a parameter: it is assumed to answer with
  patches that turn the submitted document into one that carries the run as the defaulter
  left it, among other changes that come from decoding and encoding the document.
\<close>

section \<open>The members the webhook means to change\<close>

text \<open>
  \<open>allowedPatchPrefixes\<close> read as members of the metadata and of the spec. The code compares
  text, so every member whose name starts with one of the four is allowed.
\<close>

definition member_allowed :: "string \<Rightarrow> string \<Rightarrow> bool" where
  "member_allowed k1 k2 \<longleftrightarrow>
     k1 = ''metadata'' \<and> (prefix ''labels'' k2 \<or> prefix ''annotations'' k2) \<or>
     k1 = ''spec'' \<and> (prefix ''status'' k2 \<or> prefix ''managedBy'' k2)"

abbreviation run_parts :: "string set" where
  "run_parts \<equiv> {''metadata'', ''spec''}"

interpretation allowlist: member_filter isPatchAllowed member_allowed run_parts
proof
  fix path
  show "isPatchAllowed path \<longleftrightarrow> (\<exists>k1 k2 ks. pointer path = Some (k1 # k2 # ks) \<and> member_allowed k1 k2)"
    using prefix_member [of "''metadata''" "''labels''" path]
      prefix_member [of "''metadata''" "''annotations''" path]
      prefix_member [of "''spec''" "''status''" path] prefix_member [of "''spec''" "''managedBy''" path]
    unfolding isPatchAllowed_iff allowedPatchPrefixes_def member_allowed_def by simp blast
qed (auto simp: member_allowed_def)

lemma Handle_Patches:
  "Patches (Handle inner req) = filter (\<lambda>p. isPatchAllowed (Path p)) (Patches (inner req))"
  by (simp add: Handle_def filterResponse_eq Let_def)

text \<open>The fields of a run that the webhook sets, as a document holds them.\<close>

definition string_map :: "string \<Rightarrow> json \<Rightarrow> string \<Rightarrow> string option" where
  "string_map k doc x =
     (case member ''metadata'' k doc of
        Some (JObject m) \<Rightarrow> (case m x of Some (JString v) \<Rightarrow> Some v | _ \<Rightarrow> None)
      | _ \<Rightarrow> None)"

definition string_member :: "string \<Rightarrow> json \<Rightarrow> string option" where
  "string_member k doc = (case member ''spec'' k doc of Some (JString v) \<Rightarrow> Some v | _ \<Rightarrow> None)"

definition carries :: "json \<Rightarrow> 'r PipelineRun \<Rightarrow> bool" where
  "carries doc q \<longleftrightarrow>
     string_map ''labels'' doc = map_get (Labels q) \<and>
     string_map ''annotations'' doc = map_get (Annotations q) \<and>
     string_member ''status'' doc = (if SpecStatus q = [] then None else Some (SpecStatus q)) \<and>
     string_member ''managedBy'' doc = ManagedBy q"

lemma carries_cong:
  assumes "\<And>k1 k2. member_allowed k1 k2 \<Longrightarrow> member k1 k2 d = member k1 k2 e"
  shows "carries d q = carries e q"
proof -
  have "member ''metadata'' ''labels'' d = member ''metadata'' ''labels'' e"
    "member ''metadata'' ''annotations'' d = member ''metadata'' ''annotations'' e"
    "member ''spec'' ''status'' d = member ''spec'' ''status'' e"
    "member ''spec'' ''managedBy'' d = member ''spec'' ''managedBy'' e"
    by (rule assms, simp add: member_allowed_def)+
  then show ?thesis by (simp add: carries_def string_map_def string_member_def fun_eq_iff)
qed

text \<open>The filter below the metadata and the spec, whatever the run is.\<close>

lemma Handle_overlays:
  assumes "has_parts run_parts doc" "list_all (below_parts run_parts) (Patches (inner req))"
    and "applyPatches (Patches (inner req)) doc = Some target"
  shows "applyPatches (Patches (Handle inner req)) doc = Some (overlay member_allowed doc target)"
  using allowlist.filtered_overlay [OF assms(1,1,2,3)] by (simp add: Handle_Patches overlay_self)

lemma overlay_carries:
  "has_parts run_parts doc \<Longrightarrow> carries (overlay member_allowed doc target) q = carries target q"
  by (rule carries_cong) (simp add: allowlist.overlay_member)


section \<open>Properties\<close>

text \<open>
  (C6) What is stored for an accepted request. When the defaulter accepts a run and the inner
  handler answers with patches from the submitted document to one that carries the defaulted
  run, without replacing the metadata or the spec as a whole, then the filtered patches
  still apply; the stored document carries the labels, annotations, \<open>spec.status\<close> and
  \<open>spec.managedBy\<close> that the defaulter computed, is suspended and has a queue; and every
  member outside the allowlist, in the metadata, in the spec or elsewhere, is what the user
  submitted, whatever the other patches would have done to it.
\<close>

theorem stored_document:
  assumes "store_ok C V T (configStore d)"
    and "Default d (PipelineRunObj p) m = Ret (None, PipelineRunObj q, m')"
    and "has_parts run_parts doc"
    and "applyPatches (Patches (inner req)) doc = Some target" and "carries target q"
    and "list_all (below_parts run_parts) (Patches (inner req))"
  shows "\<exists>stored. applyPatches (Patches (Handle inner req)) doc = Some stored \<and> carries stored q \<and>
    string_member ''status'' stored = Some PipelineRunSpecStatusPending \<and>
    string_map ''labels'' stored QueueLabel \<noteq> None \<and>
    (\<forall>k1 k2. \<not> member_allowed k1 k2 \<longrightarrow> member k1 k2 stored = member k1 k2 doc) \<and>
    (\<forall>k. k \<notin> run_parts \<longrightarrow> top_member k stored = top_member k doc)"
proof (intro exI conjI)
  let ?stored = "overlay member_allowed doc target"
  show "applyPatches (Patches (Handle inner req)) doc = Some ?stored"
    using assms(3,6,4) by (rule Handle_overlays)
  show carried: "carries ?stored q" using assms(5) by (simp add: overlay_carries [OF assms(3)])
  have "SpecStatus q = PipelineRunSpecStatusPending" "map_get (Labels q) QueueLabel \<noteq> None"
    using Default_accepted [OF assms(1,2)] by auto
  with carried show "string_member ''status'' ?stored = Some PipelineRunSpecStatusPending"
    "string_map ''labels'' ?stored QueueLabel \<noteq> None"
    by (simp_all add: carries_def PipelineRunSpecStatusPending_def)
  show "\<forall>k1 k2. \<not> member_allowed k1 k2 \<longrightarrow> member k1 k2 ?stored = member k1 k2 doc"
    by (simp add: allowlist.overlay_member [OF assms(3)])
  show "\<forall>k. k \<notin> run_parts \<longrightarrow> top_member k ?stored = top_member k doc"
    using allowlist.overlay_top by blast
qed

text \<open>
  An instance: a run without labels is admitted under the sample configuration. Beside the
  intended changes the inner handler answers with two that come from encoding the decoded
  run, a \<open>taskRunTemplate\<close> and a \<open>status\<close>.
\<close>

definition sample_document :: json where
  "sample_document = JObject
     [''metadata'' \<mapsto> JObject [''name'' \<mapsto> JString ''run''],
      ''spec'' \<mapsto> JObject [''pipelineRef'' \<mapsto> JObject Map.empty]]"

abbreviation add_patch :: "string \<Rightarrow> json \<Rightarrow> patch" where
  "add_patch path v \<equiv> \<lparr>Operation = ''add'', Path = path, PatchValue = v\<rparr>"

definition sample_inner :: "unit \<Rightarrow> unit Response" where
  "sample_inner req =
     \<lparr>Patches =
        [add_patch ''/metadata/labels'' (JObject [QueueLabel \<mapsto> JString ''pipelines'']),
         add_patch ''/metadata/annotations'' (JObject [''source'' \<mapsto> JString ''expr'']),
         add_patch ''/spec/taskRunTemplate'' (JObject Map.empty),
         add_patch ''/spec/status'' (JString PipelineRunSpecStatusPending),
         add_patch ''/status'' (JObject Map.empty)],
      PatchType = Some ''JSONPatch'', Patch = None, RespRest = ()\<rparr>"

lemma sample_defaulted:
  obtains q m where "Default \<lparr>configStore = sample_store\<rparr> (PipelineRunObj sample_run) zero_metrics =
      Ret (None, PipelineRunObj q, m)"
    "Labels q = Some [QueueLabel \<mapsto> ''pipelines'']" "Annotations q = Some [''source'' \<mapsto> ''expr'']"
    "SpecStatus q = PipelineRunSpecStatusPending" "ManagedBy q = None"
  by (simp add: Default_def DefaultRun_def GetConfigAndMutators_def sample_store_def sample_mutators_def
      MutateRun_def NewCELMutator_def evaluate_def Evaluate_def mutationMap_def convertToMutationRequests_def
      convertSingleMutation_def extractMutationType_def extractStringField_def Validate_def mutate_def
      sample_config_def applyConfig_def Let_def put_init_def init_map_def)

lemma sample_pointers:
  "pointer ''/metadata/labels'' = Some [''metadata'', ''labels'']"
  "pointer ''/metadata/annotations'' = Some [''metadata'', ''annotations'']"
  "pointer ''/spec/taskRunTemplate'' = Some [''spec'', ''taskRunTemplate'']"
  "pointer ''/spec/status'' = Some [''spec'', ''status'']" "pointer ''/status'' = Some [''status'']"
  "pointer ''/spec'' = Some [''spec'']"
  by (simp_all add: pointer_def)

theorem stored_document_witness:
  "\<exists>stored. applyPatches (Patches (Handle sample_inner ())) sample_document = Some stored \<and>
     string_member ''status'' stored = Some PipelineRunSpecStatusPending \<and>
     member ''spec'' ''taskRunTemplate'' stored = None \<and> top_member ''status'' stored = None"
proof -
  obtain q m where q: "Default \<lparr>configStore = sample_store\<rparr> (PipelineRunObj sample_run) zero_metrics =
      Ret (None, PipelineRunObj q, m)"
    "Labels q = Some [QueueLabel \<mapsto> ''pipelines'']" "Annotations q = Some [''source'' \<mapsto> ''expr'']"
    "SpecStatus q = PipelineRunSpecStatusPending" "ManagedBy q = None" by (rule sample_defaulted)
  obtain target where target: "applyPatches (Patches (sample_inner ())) sample_document = Some target"
    "carries target q"
    by (simp add: sample_inner_def sample_document_def applyPatch_def sample_pointers patch_member_def
        carries_def string_map_def string_member_def member_object q PipelineRunSpecStatusPending_def
        fun_eq_iff)
  have "store_ok sample_cel sample_validation sample_tekton (configStore \<lparr>configStore = sample_store\<rparr>)"
    by (simp add: sample_store_ok)
  moreover have "has_parts run_parts sample_document"
    by (simp add: sample_document_def has_parts_object)
  moreover have "list_all (below_parts run_parts) (Patches (sample_inner ()))"
    by (simp add: sample_inner_def below_parts_def sample_pointers)
  ultimately obtain stored where "applyPatches (Patches (Handle sample_inner ())) sample_document = Some stored"
    "string_member ''status'' stored = Some PipelineRunSpecStatusPending"
    "\<forall>k1 k2. \<not> member_allowed k1 k2 \<longrightarrow> member k1 k2 stored = member k1 k2 sample_document"
    "\<forall>k. k \<notin> run_parts \<longrightarrow> top_member k stored = top_member k sample_document"
    using stored_document [where inner = sample_inner and req = "()", OF _ q(1) _ target] by blast
  then show ?thesis by (auto simp: member_allowed_def sample_document_def member_object)
qed

text \<open>
  (C16) The allowlist has no entry for the spec itself. When a document is submitted without
  one, the change of \<open>spec.status\<close> can only arrive as a patch that adds the whole spec, and
  the filter drops it: if the inner handler patches the spec only as a whole, the stored
  document has the spec that was submitted, and without one it is not suspended.
\<close>

theorem whole_spec_patch_dropped:
  assumes "\<forall>p ks. p \<in> set (Patches (inner req)) \<longrightarrow> pointer (Path p) = Some (''spec'' # ks) \<longrightarrow> ks = []"
    and "applyPatches (Patches (Handle inner req)) doc = Some stored"
  shows "top_member ''spec'' stored = top_member ''spec'' doc \<and>
    (top_member ''spec'' doc = None \<longrightarrow> string_member ''status'' stored = None)"
proof -
  have "\<exists>k ks. pointer (Path p) = Some (k # ks) \<and> k \<noteq> ''spec''"
    if "p \<in> set (Patches (Handle inner req))" for p
    using that assms(1) by (auto simp: Handle_Patches allowlist.keep_iff)
  then have "top_member ''spec'' stored = top_member ''spec'' doc"
    using assms(2) by (intro applyPatches_other_member) auto
  then show ?thesis by (simp add: string_member_def member_def)
qed

text \<open>The same run, submitted without a spec.\<close>

definition specless_document :: json where
  "specless_document = JObject [''metadata'' \<mapsto> JObject [''name'' \<mapsto> JString ''run'']]"

definition specless_inner :: "unit \<Rightarrow> unit Response" where
  "specless_inner req =
     \<lparr>Patches =
        [add_patch ''/metadata/labels'' (JObject [QueueLabel \<mapsto> JString ''pipelines'']),
         add_patch ''/spec'' (JObject [''status'' \<mapsto> JString PipelineRunSpecStatusPending])],
      PatchType = Some ''JSONPatch'', Patch = None, RespRest = ()\<rparr>"

theorem whole_spec_patch_dropped_witness:
  "\<exists>target stored.
     applyPatches (Patches (specless_inner ())) specless_document = Some target \<and>
     string_member ''status'' target = Some PipelineRunSpecStatusPending \<and>
     applyPatches (Patches (Handle specless_inner ())) specless_document = Some stored \<and>
     string_member ''status'' stored = None"
proof -
  obtain target stored where
    "applyPatches (Patches (specless_inner ())) specless_document = Some target"
    "string_member ''status'' target = Some PipelineRunSpecStatusPending"
    and stored: "applyPatches (Patches (Handle specless_inner ())) specless_document = Some stored"
    by (simp add: Handle_Patches specless_inner_def specless_document_def applyPatch_def sample_pointers
        patch_member_def string_member_def member_object isPatchAllowed_def allowedPatchPrefixes_def HasPrefix_def)
  moreover have "string_member ''status'' stored = None"
    using whole_spec_patch_dropped [OF _ stored]
    by (auto simp: specless_inner_def specless_document_def sample_pointers)
  ultimately show ?thesis by blast
qed

end
