(* ===== verification/Controller.thy ===== *)
theory Controller
  imports PipelineRun GoStrings GoStrconv
begin

text \<open>
  \<^verbatim>\<open>internal/controller/pipelinerun_controller.go\<close>: the PipelineRun as a Kueue \<open>GenericJob\<close>.

  Parameters: \<open>TS\<close> holds the methods of the Tekton type that the controller calls, \<open>Q\<close> the
  Kubernetes quantities (\<open>resource.ParseQuantity\<close>, \<open>MustParse\<close> and \<open>Quantity.Sign\<close>).
\<close>

record 'r tekton_status =
  IsDone :: "'r PipelineRun \<Rightarrow> bool"
  HasStarted :: "'r PipelineRun \<Rightarrow> bool"
  GetCondition :: "'r PipelineRun \<Rightarrow> string \<Rightarrow> condition option"
  SetCondition :: "condition \<Rightarrow> 'r PipelineRun \<Rightarrow> 'r PipelineRun"

record 'q quantities =
  ParseQuantity :: "string \<Rightarrow> 'q result"
  MustParse :: "string \<Rightarrow> 'q"
  Sign :: "'q \<Rightarrow> int"

definition ConditionSucceeded :: string where
  "ConditionSucceeded = ''Succeeded''"

definition PipelineRunReasonSuccessful :: string where
  "PipelineRunReasonSuccessful = ''Succeeded''"

definition PipelineRunReasonCompleted :: string where
  "PipelineRunReasonCompleted = ''Completed''"

definition ControllerName :: string where
  "ControllerName = ''KueuePipelineRunController''"

definition ResourcePipelineRunCount :: string where
  "ResourcePipelineRunCount = ''tekton.dev/pipelineruns''"

definition annotationDomain :: string where
  "annotationDomain = ''kueue.konflux-ci.dev/''"

definition annotationResourcesRequests :: string where
  "annotationResourcesRequests = annotationDomain @ ''requests-''"


section \<open>Suspension, start and stop\<close>

text \<open>
  A server-side apply: the object sent, the field owner and whether ownership is forced. The
  reply of the API server is a parameter.
\<close>

record 'r applyRequest =
  applyObject :: "'r PipelineRun"
  applyOwner :: string
  applyForce :: bool

definition Stop ::
    "'r tekton_status \<Rightarrow> ('r applyRequest \<Rightarrow> go_error option) \<Rightarrow> 'r PipelineRun
       \<Rightarrow> (bool \<times> go_error option) \<times> 'r applyRequest list" where
  "Stop TS patchReply plr =
     (let plrPendingOrRunning =
            (SpecStatus plr = [] \<or> SpecStatus plr = PipelineRunSpecStatusPending)
      in
        if IsDone TS plr \<or> \<not> plrPendingOrRunning then ((False, None), [])
        else
          let plrCopy = plr\<lparr>ManagedFields := []\<rparr>;
              plrCopy = plrCopy\<lparr>SpecStatus := PipelineRunSpecStatusStoppedRunFinally\<rparr>;
              req = \<lparr>applyObject = plrCopy, applyOwner = ControllerName, applyForce = True\<rparr>
          in case patchReply req of
               Some err \<Rightarrow> ((False, Some err), [req])
             | None \<Rightarrow> ((True, None), [req]))"

definition Finished :: "'r tekton_status \<Rightarrow> 'r PipelineRun \<Rightarrow> string \<times> bool \<times> bool" where
  "Finished TS plr =
     (case GetCondition TS plr ConditionSucceeded of
        None \<Rightarrow> ([], False, False)
      | Some c \<Rightarrow>
          (CondMessage c,
           CondReason c = PipelineRunReasonSuccessful \<or> CondReason c = PipelineRunReasonCompleted,
           IsDone TS plr))"

definition IsActive :: "'r tekton_status \<Rightarrow> 'r PipelineRun \<Rightarrow> bool" where
  "IsActive TS plr = HasStarted TS plr"

definition IsSuspended :: "'r PipelineRun \<Rightarrow> bool" where
  "IsSuspended plr \<longleftrightarrow> SpecStatus plr = PipelineRunSpecStatusPending"

definition RunWithPodSetsInfo :: "'r PipelineRun \<Rightarrow> 'i list \<Rightarrow> 'r PipelineRun \<times> go_error option" where
  "RunWithPodSetsInfo plr podSetsInfo = (plr\<lparr>SpecStatus := []\<rparr>, None)"

definition RestorePodSetsInfo :: "'r PipelineRun \<Rightarrow> 'i list \<Rightarrow> bool" where
  "RestorePodSetsInfo plr podSetsInfo = False"

definition Suspend :: "'r PipelineRun \<Rightarrow> 'r PipelineRun" where
  "Suspend plr = plr"

definition PodsReady :: "'r PipelineRun \<Rightarrow> bool outcome" where
  "PodsReady plr = Panic ''pods ready shouldn't be called''"


section \<open>Resource requests\<close>

definition parseResourcesRequestsAnnotation ::
    "'q quantities \<Rightarrow> string \<Rightarrow> string \<Rightarrow> (string \<times> 'q) option result" where
  "parseResourcesRequestsAnnotation Q k v =
     (case CutPrefix k annotationResourcesRequests of
        (t, found) \<Rightarrow>
          if \<not> found then Inr None
          else if t = [] then
            Inl (UnretryableError (Sprintf ''empty resource name in annotation %s'' [ArgS k]))
          else if t = ResourcePipelineRunCount then
            Inl (UnretryableError
              (Sprintf ''overriding the concurrency token %q via annotation is not allowed''
                 [ArgS ResourcePipelineRunCount]))
          else
            (case ParseQuantity Q v of
               Inl err \<Rightarrow>
                 Inl (UnretryableError
                   (Sprintf ''invalid resource quantity in annotation %s=%q: %v''
                      [ArgS k, ArgS v, ArgE err]))
             | Inr q \<Rightarrow>
                 (if Sign Q q < 0 then
                    Inl (UnretryableError
                      (Sprintf ''negative resource quantity in annotation %s=%q is not allowed''
                         [ArgS k, ArgS v]))
                  else Inr (Some (t, q)))))"

text \<open>The loop \<open>for k, v := range p.GetAnnotations()\<close>, over the entries in the order visited.\<close>

fun requestsLoop ::
    "'q quantities \<Rightarrow> (string \<rightharpoonup> 'q) \<Rightarrow> (string \<times> string) list \<Rightarrow> (string \<rightharpoonup> 'q) result" where
  "requestsLoop Q requests [] = Inr requests"
| "requestsLoop Q requests ((k, v) # kvs) =
     (case parseResourcesRequestsAnnotation Q k v of
        Inl err \<Rightarrow> Inl err
      | Inr (Some (n, q)) \<Rightarrow> requestsLoop Q (requests(n \<mapsto> q)) kvs
      | Inr None \<Rightarrow> requestsLoop Q requests kvs)"

definition resourcesRequests ::
    "'q quantities \<Rightarrow> (string \<times> string) list \<Rightarrow> (string \<rightharpoonup> 'q) result" where
  "resourcesRequests Q kvs = requestsLoop Q [ResourcePipelineRunCount \<mapsto> MustParse Q ''1''] kvs"

record 'q container =
  ContainerName :: string
  ContainerImage :: string
  Requests :: "string \<rightharpoonup> 'q"

record 'q podSet =
  PodSetName :: string
  Containers :: "'q container list"
  Count :: "32 word"

definition PodSets ::
    "'q quantities \<Rightarrow> (string \<times> string) list \<Rightarrow> 'q podSet list result" where
  "PodSets Q kvs =
     (case resourcesRequests Q kvs of
        Inl err \<Rightarrow> Inl err
      | Inr requests \<Rightarrow>
          Inr [\<lparr>PodSetName = ''pod-set-1'',
                Containers = [\<lparr>ContainerName = ''dummy'', ContainerImage = ''dummy'',
                               Requests = requests\<rparr>],
                Count = 1\<rparr>])"


section \<open>The requests do not depend on the order of the annotations\<close>

abbreviation request_key :: "string \<Rightarrow> string" where
  "request_key n \<equiv> annotationResourcesRequests @ n"

text \<open>The reference: the request of resource \<open>n\<close> read straight from the annotations.\<close>

definition requests_of :: "'q quantities \<Rightarrow> gomap \<Rightarrow> string \<rightharpoonup> 'q" where
  "requests_of Q m n =
     (if n = ResourcePipelineRunCount then Some (MustParse Q ''1'')
      else case map_get m (request_key n) of
        None \<Rightarrow> None
      | Some v \<Rightarrow> (case ParseQuantity Q v of Inl _ \<Rightarrow> None | Inr q \<Rightarrow> Some q))"

lemma parse_Some:
  "parseResourcesRequestsAnnotation Q k v = Inr (Some (n, q)) \<longleftrightarrow>
     k = request_key n \<and> n \<noteq> [] \<and> n \<noteq> ResourcePipelineRunCount \<and>
     ParseQuantity Q v = Inr q \<and> 0 \<le> Sign Q q"
  by (auto simp: parseResourcesRequestsAnnotation_def CutPrefix_True not_less
           split: prod.splits if_splits sum.splits)

lemma parse_None:
  "parseResourcesRequestsAnnotation Q k v = Inr None \<longleftrightarrow> \<not> HasPrefix k annotationResourcesRequests"
  by (auto simp: parseResourcesRequestsAnnotation_def CutPrefix_def
           split: prod.splits if_splits sum.splits)

lemma requestsLoop_ok:
  "is_ok (requestsLoop Q r kvs) \<longleftrightarrow>
     (\<forall>(k, v) \<in> set kvs. is_ok (parseResourcesRequestsAnnotation Q k v))"
proof (induction kvs arbitrary: r)
  case (Cons kv kvs)
  obtain k v where kv: "kv = (k, v)" by (rule prod.exhaust)
  with Cons.IH show ?case
    by (cases "parseResourcesRequestsAnnotation Q k v") (simp_all split: option.split)
qed simp

lemma requestsLoop_value:
  assumes "distinct (map fst kvs)" "requestsLoop Q r kvs = Inr r'"
  shows "r' n = (case map_of kvs (request_key n) of
                   None \<Rightarrow> r n
                 | Some v \<Rightarrow> (case ParseQuantity Q v of Inl _ \<Rightarrow> None | Inr q \<Rightarrow> Some q))"
  using assms
proof (induction Q r kvs rule: requestsLoop.induct)
  case (2 Q r k v kvs)
  show ?case
  proof (cases "parseResourcesRequestsAnnotation Q k v")
    case (Inl e)
    with "2.prems" show ?thesis by simp
  next
    case (Inr o')
    show ?thesis
    proof (cases o')
      case None
      with Inr have "k \<noteq> request_key n" by (auto simp: parse_None)
      with Inr None "2.IH"(1) "2.prems" show ?thesis by simp
    next
      case (Some nq)
      with Inr obtain n' q where nq: "nq = (n', q)" "k = request_key n'" "ParseQuantity Q v = Inr q"
        by (cases nq) (auto simp: parse_Some)
      have "map_of kvs (request_key n') = None"
        using "2.prems"(1) nq by (simp add: map_of_eq_None_iff)
      moreover have "distinct (map fst kvs)" "requestsLoop Q (r(n' \<mapsto> q)) kvs = Inr r'"
        using "2.prems" Inr Some nq by simp_all
      from "2.IH"(2) [OF Inr Some nq(1) [symmetric] this]
      have "r' n = (case map_of kvs (request_key n) of None \<Rightarrow> (r(n' \<mapsto> q)) n
                    | Some v \<Rightarrow> (case ParseQuantity Q v of Inl _ \<Rightarrow> None | Inr q \<Rightarrow> Some q))" .
      ultimately show ?thesis using nq by (cases "n = n'") (simp_all split: option.split)
    qed
  qed
qed simp

lemma resourcesRequests_value:
  assumes "enumerates kvs m" "resourcesRequests Q kvs = Inr r"
  shows "r = requests_of Q m"
proof
  fix n
  have key: "map_of kvs (request_key n) = map_get m (request_key n)"
    using assms(1) by (simp add: enumerates_def)
  have "map_get m (request_key ResourcePipelineRunCount) = None"
  proof (rule ccontr)
    assume "map_get m (request_key ResourcePipelineRunCount) \<noteq> None"
    then obtain v where "(request_key ResourcePipelineRunCount, v) \<in> set kvs"
      using enumerates_mem [OF assms(1)] by blast
    moreover have "is_ok (resourcesRequests Q kvs)" using assms(2) by simp
    ultimately have "is_ok (parseResourcesRequestsAnnotation Q (request_key ResourcePipelineRunCount) v)"
      unfolding resourcesRequests_def requestsLoop_ok by blast
    then show False
      by (simp add: parseResourcesRequestsAnnotation_def ResourcePipelineRunCount_def)
  qed
  then show "r n = requests_of Q m n"
    using requestsLoop_value [OF enumerates_distinct [OF assms(1)] assms(2) [unfolded resourcesRequests_def], of n] key
    by (auto simp: requests_of_def split: option.splits)
qed

lemma resourcesRequests_ok_iff:
  assumes "enumerates kvs m"
  shows "is_ok (resourcesRequests Q kvs) \<longleftrightarrow>
    (\<forall>k v. map_get m k = Some v \<longrightarrow> is_ok (parseResourcesRequestsAnnotation Q k v))"
  unfolding resourcesRequests_def requestsLoop_ok
  using enumerates_mem [OF assms] by fast

lemma parse_error_unretryable:
  "parseResourcesRequestsAnnotation Q k v = Inl e \<Longrightarrow> \<exists>msg. e = UnretryableError msg"
  by (auto simp: parseResourcesRequestsAnnotation_def split: prod.splits if_splits sum.splits)

lemma requestsLoop_error:
  "requestsLoop Q r kvs = Inl e \<Longrightarrow> \<exists>msg. e = UnretryableError msg"
  by (induction Q r kvs rule: requestsLoop.induct)
    (auto split: sum.splits option.splits dest: parse_error_unretryable)

lemma parse_ok_iff:
  "is_ok (parseResourcesRequestsAnnotation Q k v) \<longleftrightarrow>
     (\<forall>n. k = request_key n \<longrightarrow> n \<noteq> [] \<and> n \<noteq> ResourcePipelineRunCount \<and>
        (\<exists>q. ParseQuantity Q v = Inr q \<and> 0 \<le> Sign Q q))"
proof (cases "HasPrefix k annotationResourcesRequests")
  case False
  then have "parseResourcesRequestsAnnotation Q k v = Inr None" by (simp add: parse_None)
  with False show ?thesis by (auto simp: HasPrefix_def)
next
  case True
  then obtain n where k: "k = request_key n" by (auto simp: HasPrefix_def prefix_def)
  then have "parseResourcesRequestsAnnotation Q k v \<noteq> Inr None" by (auto simp: parse_None)
  then have "is_ok (parseResourcesRequestsAnnotation Q k v) \<longleftrightarrow>
      (\<exists>n q. parseResourcesRequestsAnnotation Q k v = Inr (Some (n, q)))"
    by (auto simp: is_ok_iff)
  with k show ?thesis by (auto simp: parse_Some)
qed


section \<open>The job contract\<close>

text \<open>
  What Kueue's job framework relies on when it drives a job: starting a job takes it out of
  suspension, a stop that reports success leaves the job neither suspended nor stoppable,
  and a finished job is not stopped. \<open>stopped j\<close> is the object that a successful stop
  leaves; \<open>other\<close> relates a job to what the rest of the system may make of it meanwhile.
\<close>

locale generic_job =
  fixes is_suspended :: "'j \<Rightarrow> bool"
    and run :: "'j \<Rightarrow> 'j"
    and stoppable :: "'j \<Rightarrow> bool"
    and stopped :: "'j \<Rightarrow> 'j"
    and is_done :: "'j \<Rightarrow> bool"
    and other :: "'j \<Rightarrow> 'j \<Rightarrow> bool"
  assumes run_resumes: "\<not> is_suspended (run j)"
    and stop_suspends_not: "\<not> is_suspended (stopped j)"
    and stop_final: "\<not> stoppable (stopped j)"
    and done_not_stoppable: "is_done j \<Longrightarrow> \<not> stoppable j"
    and suspended_stoppable: "is_suspended j \<Longrightarrow> \<not> is_done j \<Longrightarrow> stoppable j"
    and run_stoppable: "\<not> is_done (run j) \<Longrightarrow> stoppable (run j)"
    and other_suspended: "other j j' \<Longrightarrow> is_suspended j' = is_suspended j"
    and other_stoppable: "other j j' \<Longrightarrow> \<not> stoppable j \<Longrightarrow> \<not> stoppable j'"
begin

text \<open>
  The life of one job: the framework starts it while it is suspended and stops it while it
  is stoppable, and the rest of the system acts in between.
\<close>

inductive step :: "'j \<Rightarrow> 'j \<Rightarrow> bool" where
  start: "is_suspended j \<Longrightarrow> step j (run j)"
| halt: "stoppable j \<Longrightarrow> step j (stopped j)"
| progress: "other j j' \<Longrightarrow> step j j'"

inductive_cases stepE: "step j j'"

definition ended :: "'j \<Rightarrow> bool" where
  "ended j \<longleftrightarrow> \<not> is_suspended j \<and> \<not> stoppable j"

lemma ended_stopped: "ended (stopped j)"
  by (simp add: ended_def stop_suspends_not stop_final)

lemma step_not_suspended: "step j j' \<Longrightarrow> \<not> is_suspended j \<Longrightarrow> \<not> is_suspended j'"
  by (auto elim: stepE simp: run_resumes stop_suspends_not other_suspended)

lemma step_ended: "step j j' \<Longrightarrow> ended j \<Longrightarrow> ended j'"
  by (auto elim!: stepE simp: ended_def other_suspended dest: other_stoppable)

lemma steps_not_suspended: "step\<^sup>*\<^sup>* j j' \<Longrightarrow> \<not> is_suspended j \<Longrightarrow> \<not> is_suspended j'"
  by (induction rule: rtranclp_induct) (auto dest: step_not_suspended)

lemma steps_ended: "step\<^sup>*\<^sup>* j j' \<Longrightarrow> ended j \<Longrightarrow> ended j'"
  by (induction rule: rtranclp_induct) (auto dest: step_ended)

end

definition plr_stoppable :: "'r tekton_status \<Rightarrow> 'r PipelineRun \<Rightarrow> bool" where
  "plr_stoppable TS plr \<longleftrightarrow> fst (fst (Stop TS (\<lambda>_. None) plr))"

definition plr_stopped :: "'r PipelineRun \<Rightarrow> 'r PipelineRun" where
  "plr_stopped plr =
     plr\<lparr>ManagedFields := [], SpecStatus := PipelineRunSpecStatusStoppedRunFinally\<rparr>"

text \<open>
  What Tekton does to a run: anything but a change of \<open>spec.status\<close>, and a run that is done
  stays done.
\<close>

definition tekton_progress :: "'r tekton_status \<Rightarrow> 'r PipelineRun \<Rightarrow> 'r PipelineRun \<Rightarrow> bool" where
  "tekton_progress TS p q \<longleftrightarrow> SpecStatus q = SpecStatus p \<and> (IsDone TS p \<longrightarrow> IsDone TS q)"

lemma plr_stoppable_iff:
  "plr_stoppable TS p \<longleftrightarrow>
     \<not> IsDone TS p \<and> (SpecStatus p = [] \<or> SpecStatus p = PipelineRunSpecStatusPending)"
  by (auto simp: plr_stoppable_def Stop_def Let_def)

lemma Stop_cases:
  obtains (nothing) "\<not> plr_stoppable TS p" "Stop TS rep p = ((False, None), [])"
  | (sent) req where "plr_stoppable TS p" "applyObject req = plr_stopped p"
      "applyOwner req = ControllerName" "applyForce req"
      "Stop TS rep p = ((rep req = None, rep req), [req])"
proof (cases "plr_stoppable TS p")
  case False
  then have "Stop TS rep p = ((False, None), [])" by (auto simp: plr_stoppable_iff Stop_def)
  with False show thesis by (rule nothing)
next
  case True
  define req where "req = \<lparr>applyObject = plr_stopped p, applyOwner = ControllerName, applyForce = True\<rparr>"
  have "Stop TS rep p = ((rep req = None, rep req), [req])"
    using True by (auto simp: plr_stoppable_iff Stop_def Let_def req_def plr_stopped_def split: option.split)
  with True show thesis by (intro sent [of req]) (simp_all add: req_def)
qed

interpretation plr_job: generic_job
  IsSuspended "\<lambda>p. fst (RunWithPodSetsInfo p infos)" "plr_stoppable TS" plr_stopped "IsDone TS"
  "tekton_progress TS"
  by unfold_locales
    (auto simp: IsSuspended_def RunWithPodSetsInfo_def plr_stoppable_iff plr_stopped_def tekton_progress_def)

definition plr_step :: "'r tekton_status \<Rightarrow> 'i list \<Rightarrow> 'r PipelineRun \<Rightarrow> 'r PipelineRun \<Rightarrow> bool" where
  "plr_step TS infos =
     generic_job.step IsSuspended (\<lambda>p. fst (RunWithPodSetsInfo p infos)) (plr_stoppable TS) plr_stopped
       (tekton_progress TS)"


section \<open>Properties\<close>

text \<open>Quantities for the instances: the non-negative one-digit numbers; no run is done.\<close>

definition sample_quantities :: "int quantities" where
  "sample_quantities =
     \<lparr>ParseQuantity = \<lambda>s. (case s of [c] \<Rightarrow> if is_digit c then Inr (int (digit_val c)) else Inl (LibError ''quantity'')
                         | _ \<Rightarrow> Inl (LibError ''quantity'')),
      MustParse = \<lambda>s. 1, Sign = sgn\<rparr>"

lemma sample_quantities_simps [simp]:
  "ParseQuantity sample_quantities ''5'' = Inr 5" "MustParse sample_quantities s = 1"
  "Sign sample_quantities q = sgn q"
  by (simp_all add: sample_quantities_def is_digit_def digit_val_def)

definition sample_status :: "unit tekton_status" where
  "sample_status = \<lparr>IsDone = \<lambda>p. False, HasStarted = \<lambda>p. False,
     GetCondition = \<lambda>p t. find (\<lambda>c. CondType c = t) (Conditions p),
     SetCondition = \<lambda>c p. p\<lparr>Conditions := c # filter (\<lambda>d. CondType d \<noteq> CondType c) (Conditions p)\<rparr>\<rparr>"

text \<open>
  (C12) The pod set of a run. Whatever the order in which the annotations are visited,
  \<open>PodSets\<close> succeeds exactly when every annotation under the request prefix names a resource
  other than the concurrency token and holds a non-negative quantity. It then returns one
  pod set, of one pod, that requests one concurrency token and for every other resource
  exactly the quantity of its annotation; otherwise its error is not retried.
\<close>

theorem PodSets_requests:
  assumes "enumerates kvs (Annotations p)"
  shows "if \<forall>n v. map_get (Annotations p) (annotationResourcesRequests @ n) = Some v \<longrightarrow>
              n \<noteq> [] \<and> n \<noteq> ResourcePipelineRunCount \<and> (\<exists>q. ParseQuantity Q v = Inr q \<and> 0 \<le> Sign Q q)
         then PodSets Q kvs = Inr [\<lparr>PodSetName = ''pod-set-1'',
                Containers = [\<lparr>ContainerName = ''dummy'', ContainerImage = ''dummy'',
                  Requests = (\<lambda>n. if n = ResourcePipelineRunCount then Some (MustParse Q ''1'')
                    else case map_get (Annotations p) (annotationResourcesRequests @ n) of
                        None \<Rightarrow> None
                      | Some v \<Rightarrow> (case ParseQuantity Q v of Inl _ \<Rightarrow> None | Inr q \<Rightarrow> Some q))\<rparr>],
                Count = 1\<rparr>]
         else \<exists>msg. PodSets Q kvs = Inl (UnretryableError msg)"
proof (cases "resourcesRequests Q kvs")
  case (Inl e)
  then have "\<not> is_ok (resourcesRequests Q kvs)" by simp
  moreover obtain msg where "e = UnretryableError msg"
    using Inl requestsLoop_error unfolding resourcesRequests_def by blast
  ultimately show ?thesis
    using Inl unfolding resourcesRequests_ok_iff [OF assms] parse_ok_iff PodSets_def by auto
next
  case (Inr r)
  have "r = requests_of Q (Annotations p)" by (rule resourcesRequests_value [OF assms Inr])
  moreover have "is_ok (resourcesRequests Q kvs)" using Inr by simp
  ultimately show ?thesis
    using Inr unfolding resourcesRequests_ok_iff [OF assms] parse_ok_iff PodSets_def requests_of_def [abs_def]
    by auto
qed

theorem PodSets_requests_witness:
  "\<exists>ps. PodSets sample_quantities [(annotationResourcesRequests @ ''vm'', ''5'')] = Inr [ps] \<and> Count ps = 1 \<and>
        map (\<lambda>c. Requests c ''vm'') (Containers ps) = [Some 5] \<and>
        map (\<lambda>c. Requests c ResourcePipelineRunCount) (Containers ps) = [Some 1]"
proof -
  let ?p = "sample_run\<lparr>Annotations := Some [annotationResourcesRequests @ ''vm'' \<mapsto> ''5'']\<rparr>"
  have "enumerates [(annotationResourcesRequests @ ''vm'', ''5'')] (Annotations ?p)"
    by (auto simp: enumerates_def)
  note requests = PodSets_requests [OF this, of sample_quantities]
  have "\<forall>n v. map_get (Annotations ?p) (annotationResourcesRequests @ n) = Some v \<longrightarrow>
      n \<noteq> [] \<and> n \<noteq> ResourcePipelineRunCount \<and>
      (\<exists>q. ParseQuantity sample_quantities v = Inr q \<and> 0 \<le> Sign sample_quantities q)"
    by (auto simp: ResourcePipelineRunCount_def)
  from requests [unfolded if_P [OF this]] show ?thesis
    by (simp add: ResourcePipelineRunCount_def)
qed

text \<open>
  The order in which Go's map iteration visits the annotations does not matter: two
  visits of the same annotations both succeed, with the same pod sets, or both fail.
\<close>

lemma PodSets_order_independent:
  assumes "enumerates kvs (Annotations p)" and "enumerates kvs' (Annotations p)"
  shows "is_ok (PodSets Q kvs) = is_ok (PodSets Q kvs') \<and>
         (is_ok (PodSets Q kvs) \<longrightarrow> PodSets Q kvs = PodSets Q kvs')"
proof -
  have ok: "is_ok (PodSets Q kvs) = is_ok (resourcesRequests Q kvs)" for kvs
    by (simp add: PodSets_def split: sum.split)
  have same: "is_ok (resourcesRequests Q kvs) = is_ok (resourcesRequests Q kvs')"
    unfolding resourcesRequests_ok_iff [OF assms(1)] resourcesRequests_ok_iff [OF assms(2)] ..
  show ?thesis
  proof (cases "is_ok (resourcesRequests Q kvs)")
    case True
    with same obtain r r' where "resourcesRequests Q kvs = Inr r" "resourcesRequests Q kvs' = Inr r'"
      by (auto simp: is_ok_iff)
    moreover from this have "r = r'"
      using resourcesRequests_value [OF assms(1), of Q r] resourcesRequests_value [OF assms(2), of Q r']
      by simp
    ultimately show ?thesis by (simp add: PodSets_def)
  next
    case False
    with same ok show ?thesis by simp
  qed
qed

lemma PodSets_order_independent_witness:
  "PodSets sample_quantities [(annotationResourcesRequests @ ''vm'', ''5''), (''note'', ''x'')] =
   PodSets sample_quantities [(''note'', ''x''), (annotationResourcesRequests @ ''vm'', ''5'')]"
proof -
  let ?a = "(annotationResourcesRequests @ ''vm'', ''5'')"
  let ?p = "sample_run\<lparr>Annotations := Some (map_of [?a, (''note'', ''x'')])\<rparr>"
  have "enumerates [?a, (''note'', ''x'')] (Annotations ?p)" "enumerates [(''note'', ''x''), ?a] (Annotations ?p)"
    by (auto simp: enumerates_def annotationResourcesRequests_def annotationDomain_def)
  moreover have "is_ok (PodSets sample_quantities [?a, (''note'', ''x'')])"
    by (simp add: PodSets_def resourcesRequests_def parseResourcesRequestsAnnotation_def CutPrefix_def
        HasPrefix_def annotationResourcesRequests_def annotationDomain_def ResourcePipelineRunCount_def)
  ultimately show ?thesis using PodSets_order_independent by blast
qed

text \<open>
  (C26) \<open>Stop\<close> sends at most one forced apply, under the controller's name. It sends it
  exactly when the run is not done and its \<open>spec.status\<close> is empty or pending; the object
  sent differs from the run only in \<open>spec.status\<close>, now \<open>StoppedRunFinally\<close>, and the cleared
  managed fields. It reports that it stopped the run exactly when it sent the request and
  the server accepted it.
\<close>

theorem Stop_effect:
  "\<exists>req. applyObject req = p\<lparr>ManagedFields := [], SpecStatus := PipelineRunSpecStatusStoppedRunFinally\<rparr> \<and>
     applyOwner req = ControllerName \<and> applyForce req \<and>
     Stop TS rep p =
       (if \<not> IsDone TS p \<and> SpecStatus p \<in> {[], PipelineRunSpecStatusPending}
        then ((rep req = None, rep req), [req]) else ((False, None), []))"
proof (cases rule: Stop_cases [of TS p rep])
  case nothing
  then show ?thesis
    by (intro exI [of _ "\<lparr>applyObject = plr_stopped p, applyOwner = ControllerName, applyForce = True\<rparr>"])
      (auto simp: plr_stoppable_iff plr_stopped_def)
next
  case (sent req)
  then show ?thesis by (intro exI [of _ req]) (auto simp: plr_stoppable_iff plr_stopped_def)
qed

text \<open>
  The life of a run. However Kueue starts and stops it and Tekton works on it: once it
  is not suspended it is never suspended again, and once it has been stopped it stays that
  way, so that \<open>Stop\<close> has nothing to send and Kueue has nothing to start.
\<close>

lemma job_lifecycle:
  assumes "(plr_step TS infos)\<^sup>*\<^sup>* p q"
  shows "(\<not> IsSuspended p \<longrightarrow> \<not> IsSuspended q) \<and>
    (SpecStatus p = PipelineRunSpecStatusStoppedRunFinally \<longrightarrow>
       \<not> IsSuspended q \<and> Stop TS rep q = ((False, None), []))"
proof -
  note steps = assms [unfolded plr_step_def]
  have "\<not> IsSuspended q \<and> \<not> plr_stoppable TS q"
    if "SpecStatus p = PipelineRunSpecStatusStoppedRunFinally"
    using plr_job.steps_ended [OF steps] that
    by (auto simp: plr_job.ended_def IsSuspended_def plr_stoppable_iff)
  moreover have "Stop TS rep q = ((False, None), [])" if "\<not> plr_stoppable TS q"
    using that by (cases rule: Stop_cases [of TS q rep]) auto
  ultimately show ?thesis using plr_job.steps_not_suspended [OF steps] by blast
qed

end
