(* ===== verification/StatusReconciler.thy ===== *)
theory StatusReconciler
  imports Controller Webhook
begin

text \<open>
  \<^verbatim>\<open>internal/controller/pipelinerun_status_reconciler.go\<close>: the reconciler that gives a
  suspended MultiKueue run its first status condition, and the predicate that selects the
  runs it is called for.

  The API server is a parameter: \<open>getReply\<close> is the answer to the read, \<open>updateReply\<close> the
  answer to the status update, \<open>isNotFound\<close> is \<open>apierrors.IsNotFound\<close>, which
  \<open>client.IgnoreNotFound\<close> uses. The list returned with the error holds the updates sent.
\<close>

definition pendingCondition :: "int \<Rightarrow> condition" where
  "pendingCondition now =
     \<lparr>CondType = ConditionSucceeded, CondStatus = ConditionUnknown,
      CondReason = ''PipelineRunPending'',
      CondMessage = ''PipelineRun is pending, waiting for MultiKueue admission'',
      CondTime = now\<rparr>"

definition IgnoreNotFound :: "(go_error \<Rightarrow> bool) \<Rightarrow> go_error \<Rightarrow> go_error option" where
  "IgnoreNotFound isNotFound err = (if isNotFound err then None else Some err)"

definition ReconcileStatus ::
    "'r tekton_status \<Rightarrow> (go_error \<Rightarrow> bool) \<Rightarrow> int \<Rightarrow> ('r PipelineRun \<Rightarrow> go_error option)
       \<Rightarrow> 'r PipelineRun result \<Rightarrow> go_error option \<times> 'r PipelineRun list" where
  "ReconcileStatus TS isNotFound now updateReply getReply =
     (case getReply of
        Inl err \<Rightarrow> (IgnoreNotFound isNotFound err, [])
      | Inr plr \<Rightarrow>
          (if ManagedBy plr = None \<or> ManagedBy plr \<noteq> Some ManagedByMultiKueueLabel then (None, [])
           else if SpecStatus plr \<noteq> PipelineRunSpecStatusPending then (None, [])
           else if GetCondition TS plr ConditionSucceeded \<noteq> None then (None, [])
           else
             let plr = SetCondition TS (pendingCondition now) plr
             in (updateReply plr, [plr])))"

definition needsPendingStatusCondition :: "'r runtimeObject \<Rightarrow> bool" where
  "needsPendingStatusCondition o' =
     (case o' of
        OtherObj t \<Rightarrow> False
      | PipelineRunObj plr \<Rightarrow>
          ManagedBy plr \<noteq> None \<and>
          ManagedBy plr = Some ManagedByMultiKueueLabel \<and>
          SpecStatus plr = PipelineRunSpecStatusPending)"

lemma ReconcileStatus_cases:
  obtains (skip) "\<not> (needsPendingStatusCondition (PipelineRunObj p) \<and>
        GetCondition TS p ConditionSucceeded = None)"
      "ReconcileStatus TS nf now upd (Inr p) = (None, [])"
  | (sent) q where "q = SetCondition TS (pendingCondition now) p"
      "needsPendingStatusCondition (PipelineRunObj p)" "GetCondition TS p ConditionSucceeded = None"
      "ReconcileStatus TS nf now upd (Inr p) = (upd q, [q])"
  by (cases "needsPendingStatusCondition (PipelineRunObj p) \<and> GetCondition TS p ConditionSucceeded = None")
    (auto simp: ReconcileStatus_def needsPendingStatusCondition_def Let_def)



section \<open>Properties\<close>

text \<open>
  The status reconciler writes at most once, and only for a run that the predicate
  selects and that has no \<open>Succeeded\<close> condition yet; what it writes is the run with the
  pending condition. A failing read writes nothing, and is no error when the run is gone.
\<close>

lemma ReconcileStatus_writes:
  "ReconcileStatus TS isNotFound now updateReply getReply =
     (case getReply of
        Inl err \<Rightarrow> (if isNotFound err then None else Some err, [])
      | Inr p \<Rightarrow>
          if needsPendingStatusCondition (PipelineRunObj p) \<and> GetCondition TS p ''Succeeded'' = None
          then (updateReply (SetCondition TS (pendingCondition now) p),
                [SetCondition TS (pendingCondition now) p])
          else (None, []))"
proof (cases getReply)
  case (Inl err)
  then show ?thesis by (simp add: ReconcileStatus_def IgnoreNotFound_def)
next
  case (Inr p)
  show ?thesis unfolding Inr
    by (cases rule: ReconcileStatus_cases [of p TS isNotFound now updateReply])
      (auto simp: ConditionSucceeded_def)
qed

text \<open>
  A second reconciliation is silent: after a write that succeeded the run has its
  condition and nothing is written again, whatever the time, when \<open>SetCondition\<close> makes the
  condition present and leaves the spec alone.
\<close>

lemma ReconcileStatus_idempotent:
  assumes "\<And>p c. GetCondition TS (SetCondition TS c p) (CondType c) \<noteq> None"
    and "ReconcileStatus TS nf now upd (Inr p) = (None, [q])"
  shows "ReconcileStatus TS nf now' upd' (Inr q) = (None, [])"
proof -
  from assms(2) have "q = SetCondition TS (pendingCondition now) p"
    by (cases rule: ReconcileStatus_cases [of p TS nf now upd]) simp_all
  moreover have "CondType (pendingCondition now) = ConditionSucceeded"
    by (simp add: pendingCondition_def)
  ultimately have "GetCondition TS q ConditionSucceeded \<noteq> None" using assms(1) by metis
  then show ?thesis by (cases rule: ReconcileStatus_cases [of q TS nf now' upd']) simp_all
qed

end
