(* ===== verification/ConfigMapController.thy ===== *)
theory ConfigMapController
  imports ConfigStore
begin

text \<open>
  \<^verbatim>\<open>internal/controller/configmap_controller.go\<close>: the reconciler that loads the configuration
  from the watched ConfigMap into the store. The answer of the API server to the read and
  \<open>apierrors.IsNotFound\<close> are parameters.
\<close>

record configMap =
  CmName :: string
  CmNamespace :: string
  Data :: "string \<rightharpoonup> string"

record ctrlResult =
  RequeueAfter :: nat

definition configMapFilter :: "string \<Rightarrow> configMap \<Rightarrow> bool" where
  "configMapFilter namespace o' \<longleftrightarrow> CmName o' = ConfigMapName \<and> CmNamespace o' = namespace"

text \<open>\<open>RequeueAfter\<close> is in seconds; zero is the empty \<open>ctrl.Result{}\<close>.\<close>

definition ReconcileConfigMap ::
    "('env, 'ast) cel_go \<Rightarrow> validation \<Rightarrow> 'r tekton \<Rightarrow> yaml \<Rightarrow> (go_error \<Rightarrow> bool)
       \<Rightarrow> configMap result \<Rightarrow> 'r ConfigStore \<Rightarrow> metrics
       \<Rightarrow> (ctrlResult \<times> go_error option) \<times> 'r ConfigStore \<times> metrics" where
  "ReconcileConfigMap C V T Y isNotFound getReply store m =
     (case getReply of
        Inl err \<Rightarrow>
          (if isNotFound err then ((\<lparr>RequeueAfter = 0\<rparr>, None), store, m)
           else ((\<lparr>RequeueAfter = 0\<rparr>, Some err), store, m))
      | Inr cm \<Rightarrow>
          (case Data cm ConfigKey of
             None \<Rightarrow> ((\<lparr>RequeueAfter = 0\<rparr>, None), store, m)
           | Some raw \<Rightarrow>
               (case Update C V T Y raw store m of
                  (Some err, store', m') \<Rightarrow> ((\<lparr>RequeueAfter = 10\<rparr>, Some err), store', m')
                | (None, store', m') \<Rightarrow> ((\<lparr>RequeueAfter = 0\<rparr>, None), store', m'))))"

text \<open>A history of reconciliations, each with the answer the API server gave.\<close>

fun reconcileAll ::
    "('env, 'ast) cel_go \<Rightarrow> validation \<Rightarrow> 'r tekton \<Rightarrow> yaml \<Rightarrow> (go_error \<Rightarrow> bool)
       \<Rightarrow> configMap result list \<Rightarrow> 'r ConfigStore \<Rightarrow> metrics \<Rightarrow> 'r ConfigStore \<times> metrics" where
  "reconcileAll C V T Y nf [] s m = (s, m)"
| "reconcileAll C V T Y nf (r # rs) s m =
     (case ReconcileConfigMap C V T Y nf r s m of (res, s', m') \<Rightarrow> reconcileAll C V T Y nf rs s' m')"

text \<open>The configuration that a reconciliation would load, if it loads one.\<close>

definition loads ::
    "('env, 'ast) cel_go \<Rightarrow> validation \<Rightarrow> 'r tekton \<Rightarrow> yaml \<Rightarrow> configMap result
       \<Rightarrow> (Config \<times> 'r mutator list) option" where
  "loads C V T Y r =
     (case r of Inl _ \<Rightarrow> None
      | Inr cm \<Rightarrow> (case Data cm ConfigKey of None \<Rightarrow> None
          | Some raw \<Rightarrow> (case prepareUpdate C V T Y raw of Inl _ \<Rightarrow> None | Inr cm' \<Rightarrow> Some cm')))"

lemma ReconcileConfigMap_store:
  assumes "ReconcileConfigMap C V T Y nf r s m = (res, s', m')"
  shows "s' = (case loads C V T Y r of None \<Rightarrow> s
               | Some (cfg, muts) \<Rightarrow> s\<lparr>mutators := muts, config := Some cfg\<rparr>)"
  using assms
  by (auto simp: ReconcileConfigMap_def loads_def Update_def split: sum.splits option.splits if_splits)

lemma reconcileAll_store:
  "fst (reconcileAll C V T Y nf rs s m) =
     (case last_some (loads C V T Y) rs of None \<Rightarrow> s
      | Some (cfg, muts) \<Rightarrow> s\<lparr>mutators := muts, config := Some cfg\<rparr>)"
proof (induction rs arbitrary: s m)
  case (Cons r rs)
  obtain res s' m' where one: "ReconcileConfigMap C V T Y nf r s m = (res, s', m')"
    by (rule prod_cases3)
  from ReconcileConfigMap_store [OF one] Cons.IH [of s' m'] one show ?case
    by (auto split: option.splits)
qed simp

text \<open>
  The bytes that a history hands to the store: a history of reconciliations is a run of
  updates, so what holds of every \<open>config_source\<close> holds of it.
\<close>

fun payloads :: "configMap result list \<Rightarrow> bytes list" where
  "payloads [] = []"
| "payloads (r # rs) =
     (case r of Inl _ \<Rightarrow> payloads rs
      | Inr cm \<Rightarrow> (case Data cm ConfigKey of None \<Rightarrow> payloads rs | Some raw \<Rightarrow> raw # payloads rs))"

lemma reconcileAll_runs:
  "reconcileAll C V T Y nf rs s m = config_source.runs (Update C V T Y) (payloads rs) s m"
proof (induction rs arbitrary: s m)
  case (Cons r rs)
  then show ?case
    by (auto simp: ReconcileConfigMap_def split: sum.splits option.splits prod.splits)
qed simp


section \<open>Properties\<close>

text \<open>
  The delay of ten seconds is only ever returned together with an error; controller-runtime
  ignores the result of a reconciliation that returns one, so no retry is delayed by it.
\<close>

lemma RequeueAfter_only_with_error:
  assumes "ReconcileConfigMap C V T Y nf answer st m = ((res, e), st', m')" "RequeueAfter res \<noteq> 0"
  shows "e \<noteq> None"
  using assms by (auto simp: ReconcileConfigMap_def split: sum.splits option.splits prod.splits if_splits)

text \<open>
  (C18) Whatever the API server answers over time, the store holds the configuration of the
  last ConfigMap that could be loaded, with the mutators compiled from it, and nothing as
  long as there was none: reads that fail, a deleted ConfigMap, a missing key, broken YAML
  and broken expressions all leave the last loaded one in place.
\<close>

theorem store_holds_last_loadable:
  "GetConfigAndMutators (fst (reconcileAll C V T Y nf rs emptyStore m)) =
     (case last_some (loads C V T Y) rs of
        None \<Rightarrow> (None, [])
      | Some (cfg, muts) \<Rightarrow> (Some cfg, muts)) \<and>
   store_ok C V T (fst (reconcileAll C V T Y nf rs emptyStore m))"
proof
  show "GetConfigAndMutators (fst (reconcileAll C V T Y nf rs emptyStore m)) =
     (case last_some (loads C V T Y) rs of
        None \<Rightarrow> (None, [])
      | Some (cfg, muts) \<Rightarrow> (Some cfg, muts))"
    by (simp add: reconcileAll_store GetConfigAndMutators_def emptyStore_def split: option.split)
  show "store_ok C V T (fst (reconcileAll C V T Y nf rs emptyStore m))"
    unfolding reconcileAll_runs by (rule config_store.runs_ok) simp
qed

text \<open>
  What one reconciliation answers. Only a ConfigMap with the key reaches the store. A
  read that fails for another reason than absence, and an update that fails, are returned
  as errors, the latter with a ten second requeue; in every such case the store is as it
  was, and the reload counters move only when the store was asked.
\<close>

lemma ReconcileConfigMap_answers:
  assumes "ReconcileConfigMap C V T Y nf r s m = ((res, e), s', m')"
  shows "(e \<noteq> None \<longrightarrow> s' = s) \<and>
    (e = None \<longleftrightarrow> (case r of Inl err \<Rightarrow> nf err
        | Inr cm \<Rightarrow> Data cm ConfigKey = None \<or> loads C V T Y r \<noteq> None)) \<and>
    (RequeueAfter res = 10 \<longleftrightarrow> e \<noteq> None \<and> (\<exists>cm. r = Inr cm)) \<and>
    (m' = m \<or> (\<exists>cm raw. r = Inr cm \<and> Data cm ConfigKey = Some raw))"
  using assms
  by (auto simp: ReconcileConfigMap_def loads_def Update_def split: sum.splits option.splits if_splits)

lemma ReconcileConfigMap_answers_witness:
  "\<exists>res e s m. ReconcileConfigMap sample_cel sample_validation sample_tekton sample_yaml (\<lambda>_. False)
      (Inr \<lparr>CmName = ConfigMapName, CmNamespace = ''tekton-kueue'', Data = [ConfigKey \<mapsto> ''unnamed'']\<rparr>)
      emptyStore zero_metrics = ((res, Some e), s, m) \<and> s = emptyStore \<and> RequeueAfter res = 10"
proof -
  let ?cm = "\<lparr>CmName = ConfigMapName, CmNamespace = ''tekton-kueue'', Data = [ConfigKey \<mapsto> ''unnamed'']\<rparr>"
  obtain res e s m where r: "ReconcileConfigMap sample_cel sample_validation sample_tekton sample_yaml
      (\<lambda>_. False) (Inr ?cm) emptyStore zero_metrics = ((res, Some e), s, m)"
    by (simp add: ReconcileConfigMap_def Update_def prepareUpdate_def parseConfig_def sample_yaml_def
        unnamed_config_def validateConfig_def)
  from ReconcileConfigMap_answers [OF r] r show ?thesis by auto
qed

end
