(* ===== verification/Cluster.thy ===== *)
theory Cluster
  imports StatusReconciler ConfigMapController
begin

text \<open>
  The components at work together: the API server's PipelineRuns, the webhook with its
  configuration store and counters, and the controllers. The steps are the calls of the
  code's own operations, in any order: the webhook on a create request (\<open>Default\<close>), Kueue's
  reconciler on the generic job (\<open>PodSets\<close> and \<open>RunWithPodSetsInfo\<close>, or \<open>Stop\<close>), the two
  reconcilers of the repository, and beside them what Tekton and users do to a stored run.

  A create request that the webhook answers with an error, or on which it panics, stores
  nothing (its failure policy is \<open>fail\<close>). An accepted one stores the run that \<open>Default\<close> computed;
  that the patches which pass the filter of \<open>Handle\<close> store this run is shown in theory
  \<open>Admission\<close> for documents that have metadata and a spec, and a document without a spec, whose
  patch the filter drops, names no pipeline and is not followed here. An accepted apply of
  \<open>Stop\<close> stores the object sent, and a status update stores the conditions only.
\<close>

record ('r, 'q) cluster =
  objects :: "string \<rightharpoonup> 'r PipelineRun"
  hookStore :: "'r ConfigStore"
  hookMetrics :: metrics
  started :: "string \<rightharpoonup> 'q podSet list"

text \<open>
  \<open>started\<close> remembers, for the runs that Kueue has started, the pod sets that it admitted.
\<close>

definition init_cluster :: "('r, 'q) cluster" where
  "init_cluster =
     \<lparr>objects = Map.empty, hookStore = emptyStore, hookMetrics = zero_metrics, started = Map.empty\<rparr>"

text \<open>
  Tekton works on a run without changing \<open>spec.status\<close> or the queue; the same step covers a
  user who edits anything else of a stored run, annotations included. A user may cancel a run,
  which sets \<open>spec.status\<close> to a value that is neither running nor pending, or delete it. A user
  who clears \<open>spec.status\<close> or removes the queue label of a stored run by hand goes around
  Kueue, and the webhook, which is called on create only, does not prevent it: such edits are
  not steps.
\<close>

definition tekton_works :: "'r tekton_status \<Rightarrow> 'r PipelineRun \<Rightarrow> 'r PipelineRun \<Rightarrow> bool" where
  "tekton_works TS p q \<longleftrightarrow>
     tekton_progress TS p q \<and> map_get (Labels q) QueueLabel = map_get (Labels p) QueueLabel"

inductive cluster_step ::
    "('env, 'ast) cel_go \<Rightarrow> validation \<Rightarrow> 'r tekton \<Rightarrow> yaml \<Rightarrow> 'r tekton_status \<Rightarrow> 'q quantities
       \<Rightarrow> (go_error \<Rightarrow> bool) \<Rightarrow> ('r, 'q) cluster \<Rightarrow> ('r, 'q) cluster \<Rightarrow> bool"
  for C V T Y TS Q nf where
  create: "objects s k = None \<Longrightarrow>
     Default \<lparr>configStore = hookStore s\<rparr> (PipelineRunObj p) (hookMetrics s) = Ret (None, PipelineRunObj q, m) \<Longrightarrow>
     cluster_step C V T Y TS Q nf s (s\<lparr>objects := (objects s)(k \<mapsto> q), hookMetrics := m\<rparr>)"
| refuse: "Default \<lparr>configStore = hookStore s\<rparr> (PipelineRunObj p) (hookMetrics s) = Ret (Some err, obj, m) \<Longrightarrow>
     cluster_step C V T Y TS Q nf s (s\<lparr>hookMetrics := m\<rparr>)"
| crash: "Default \<lparr>configStore = hookStore s\<rparr> (PipelineRunObj p) (hookMetrics s) = Panic msg \<Longrightarrow>
     cluster_step C V T Y TS Q nf s s"
| start: "objects s k = Some p \<Longrightarrow> IsSuspended p \<Longrightarrow> enumerates kvs (Annotations p) \<Longrightarrow>
     PodSets Q kvs = Inr ps \<Longrightarrow> RunWithPodSetsInfo p ps = (q, None) \<Longrightarrow>
     cluster_step C V T Y TS Q nf s
       (s\<lparr>objects := (objects s)(k \<mapsto> q), started := (started s)(k \<mapsto> ps)\<rparr>)"
| halt: "objects s k = Some p \<Longrightarrow> Stop TS (\<lambda>_. None) p = ((True, None), [req]) \<Longrightarrow>
     cluster_step C V T Y TS Q nf s (s\<lparr>objects := (objects s)(k \<mapsto> applyObject req)\<rparr>)"
| report: "objects s k = Some p \<Longrightarrow> ReconcileStatus TS nf now (\<lambda>_. None) (Inr p) = (None, [q]) \<Longrightarrow>
     cluster_step C V T Y TS Q nf s
       (s\<lparr>objects := (objects s)(k \<mapsto> p\<lparr>Conditions := Conditions q\<rparr>)\<rparr>)"
| reload: "ReconcileConfigMap C V T Y nf answer (hookStore s) (hookMetrics s) = (res, st, m) \<Longrightarrow>
     cluster_step C V T Y TS Q nf s (s\<lparr>hookStore := st, hookMetrics := m\<rparr>)"
| works: "objects s k = Some p \<Longrightarrow> tekton_works TS p q \<Longrightarrow>
     cluster_step C V T Y TS Q nf s (s\<lparr>objects := (objects s)(k \<mapsto> q)\<rparr>)"
| cancel: "objects s k = Some p \<Longrightarrow> st \<noteq> [] \<Longrightarrow> st \<noteq> PipelineRunSpecStatusPending \<Longrightarrow>
     cluster_step C V T Y TS Q nf s (s\<lparr>objects := (objects s)(k \<mapsto> p\<lparr>SpecStatus := st\<rparr>)\<rparr>)"
| delete: "cluster_step C V T Y TS Q nf s
     (s\<lparr>objects := (objects s)(k := None), started := (started s)(k := None)\<rparr>)"

abbreviation cluster_reachable ::
    "('env, 'ast) cel_go \<Rightarrow> validation \<Rightarrow> 'r tekton \<Rightarrow> yaml \<Rightarrow> 'r tekton_status \<Rightarrow> 'q quantities
       \<Rightarrow> (go_error \<Rightarrow> bool) \<Rightarrow> ('r, 'q) cluster \<Rightarrow> bool" where
  "cluster_reachable C V T Y TS Q nf s \<equiv> (cluster_step C V T Y TS Q nf)\<^sup>*\<^sup>* init_cluster s"


section \<open>The invariant\<close>

text \<open>What Kueue admits for one run: one pod that takes exactly one concurrency token.\<close>

definition one_token :: "'q quantities \<Rightarrow> 'q podSet list \<Rightarrow> bool" where
  "one_token Q ps \<longleftrightarrow> (\<exists>pod. ps = [pod] \<and> Count pod = 1 \<and>
     map (\<lambda>c. Requests c ResourcePipelineRunCount) (Containers pod) = [Some (MustParse Q ''1'')])"

definition run_ok :: "'q quantities \<Rightarrow> 'r PipelineRun \<Rightarrow> 'q podSet list option \<Rightarrow> bool" where
  "run_ok Q p st \<longleftrightarrow>
     map_get (Labels p) QueueLabel \<noteq> None \<and>
     (SpecStatus p = [] \<longrightarrow> st \<noteq> None) \<and> (IsSuspended p \<longrightarrow> st = None) \<and>
     (\<forall>ps. st = Some ps \<longrightarrow> one_token Q ps)"

definition cluster_ok ::
    "('env, 'ast) cel_go \<Rightarrow> validation \<Rightarrow> 'r tekton \<Rightarrow> 'q quantities \<Rightarrow> ('r, 'q) cluster \<Rightarrow> bool" where
  "cluster_ok C V T Q s \<longleftrightarrow> store_ok C V T (hookStore s) \<and>
     (\<forall>k. objects s k = None \<longrightarrow> started s k = None) \<and>
     (\<forall>k p. objects s k = Some p \<longrightarrow> run_ok Q p (started s k))"

lemma cluster_okD:
  assumes "cluster_ok C V T Q s"
  shows "store_ok C V T (hookStore s)" "objects s k = None \<Longrightarrow> started s k = None"
    "objects s k = Some p \<Longrightarrow> run_ok Q p (started s k)"
  using assms by (simp_all add: cluster_ok_def)

lemma cluster_ok_init: "cluster_ok C V T Q init_cluster"
  by (simp add: cluster_ok_def init_cluster_def)

text \<open>A step that changes one run keeps the invariant when that run is in order afterwards.\<close>

lemma cluster_ok_upd:
  assumes "cluster_ok C V T Q s" "run_ok Q q st"
    "t = s\<lparr>objects := (objects s)(k \<mapsto> q), started := (started s)(k := st)\<rparr>"
  shows "cluster_ok C V T Q t"
  using assms by (auto simp: cluster_ok_def)

lemma cluster_ok_objects:
  assumes "cluster_ok C V T Q s" "run_ok Q q (started s k)"
  shows "cluster_ok C V T Q (s\<lparr>objects := (objects s)(k \<mapsto> q)\<rparr>)"
  by (rule cluster_ok_upd [OF assms, where k = k]) simp

lemma PodSets_one_token:
  assumes "enumerates kvs m" "PodSets Q kvs = Inr ps"
  shows "one_token Q ps"
proof -
  from assms(2) obtain r where r: "resourcesRequests Q kvs = Inr r" "ps = [\<lparr>PodSetName = ''pod-set-1'',
      Containers = [\<lparr>ContainerName = ''dummy'', ContainerImage = ''dummy'', Requests = r\<rparr>], Count = 1\<rparr>]"
    by (auto simp: PodSets_def split: sum.splits)
  with resourcesRequests_value [OF assms(1) r(1)] show ?thesis
    by (simp add: one_token_def requests_of_def)
qed

text \<open>What Kueue's start and stop and a reload of the configuration leave.\<close>

lemma run_ok_start:
  assumes "run_ok Q p st" "enumerates kvs (Annotations p)" "PodSets Q kvs = Inr ps"
    "RunWithPodSetsInfo p ps = (q, None)"
  shows "run_ok Q q (Some ps)"
proof -
  from assms(4) have "q = p\<lparr>SpecStatus := []\<rparr>" by (simp add: RunWithPodSetsInfo_def)
  with assms(1) PodSets_one_token [OF assms(2,3)] show ?thesis
    by (simp add: run_ok_def IsSuspended_def)
qed

lemma run_ok_halt:
  assumes "run_ok Q p st" "Stop TS rep p = ((True, None), [req])"
  shows "run_ok Q (applyObject req) st"
proof -
  have "applyObject req = plr_stopped p"
    using assms(2) by (cases rule: Stop_cases [of TS p rep]) simp_all
  with assms(1) show ?thesis by (simp add: run_ok_def IsSuspended_def plr_stopped_def)
qed

lemma ReconcileConfigMap_store_ok:
  assumes "ReconcileConfigMap C V T Y nf answer st m = (res, st', m')" "store_ok C V T st"
  shows "store_ok C V T st'"
  using assms by (auto simp: ReconcileConfigMap_def dest: Update_store_ok
      split: sum.splits option.splits prod.splits if_splits)

lemma cluster_step_ok:
  assumes "cluster_step C V T Y TS Q nf s t" "cluster_ok C V T Q s"
  shows "cluster_ok C V T Q t"
  using assms(1)
proof cases
  case (create k p q m)
  from Default_accepted [of C V T "\<lparr>configStore = hookStore s\<rparr>", OF _ create(3)] cluster_okD(1) [OF assms(2)]
  have "run_ok Q q (started s k)"
    using cluster_okD(2) [OF assms(2) create(2)] by (auto simp: run_ok_def IsSuspended_def)
  from cluster_ok_objects [OF assms(2) this] create(1) show ?thesis by (simp add: cluster_ok_def)
next
  case (start k p kvs ps q)
  note ok = run_ok_start [OF cluster_okD(3) [OF assms(2) start(2)] start(4-6)]
  from cluster_ok_upd [OF assms(2) ok, of t k] start(1) show ?thesis by simp
next
  case (halt k p req)
  note ok = run_ok_halt [OF cluster_okD(3) [OF assms(2) halt(2)] halt(3)]
  from cluster_ok_objects [OF assms(2) ok] halt(1) show ?thesis by simp
next
  case (report k p now q)
  from cluster_okD(3) [OF assms(2) report(2)] have "run_ok Q (p\<lparr>Conditions := Conditions q\<rparr>) (started s k)"
    by (simp add: run_ok_def IsSuspended_def)
  from cluster_ok_objects [OF assms(2) this] report(1) show ?thesis by simp
next
  case (reload answer res st m)
  from ReconcileConfigMap_store_ok [OF reload(2) cluster_okD(1) [OF assms(2)]] assms(2) reload(1)
  show ?thesis by (simp add: cluster_ok_def)
next
  case (works k p q)
  from cluster_okD(3) [OF assms(2) works(2)] works(3) have "run_ok Q q (started s k)"
    by (simp add: run_ok_def IsSuspended_def tekton_works_def tekton_progress_def)
  from cluster_ok_objects [OF assms(2) this] works(1) show ?thesis by simp
next
  case (cancel k p st)
  from cluster_okD(3) [OF assms(2) cancel(2)] cancel(3,4)
  have "run_ok Q (p\<lparr>SpecStatus := st\<rparr>) (started s k)" by (simp add: run_ok_def IsSuspended_def)
  from cluster_ok_objects [OF assms(2) this] cancel(1) show ?thesis by simp
next
  case (delete k)
  with assms(2) show ?thesis by (auto simp: cluster_ok_def)
qed (use assms(2) in \<open>simp_all add: cluster_ok_def\<close>)

lemma cluster_reachable_ok:
  "cluster_reachable C V T Y TS Q nf s \<Longrightarrow> cluster_ok C V T Q s"
  by (induction rule: rtranclp_induct) (auto intro: cluster_ok_init cluster_step_ok)


section \<open>The counters\<close>

text \<open>Every successful evaluation of the expressions is followed by one outcome of their requests.\<close>

definition balanced :: "metrics \<Rightarrow> bool" where
  "balanced m \<longleftrightarrow>
     celEvaluationsTotal m ''success'' = celMutationsTotal m ''success'' + celMutationsTotal m ''failure''"

lemma MutateRun_balanced:
  assumes "programs cm \<noteq> []" "MutateRun T cm p m = (e, q, m')" "balanced m"
  shows "balanced m'"
  using assms
  by (cases rule: MutateRun_cases [of cm T p m]) (auto simp: balanced_def metrics_defs Inc_apply)

lemma Default_counters:
  assumes "store_ok C V T (configStore d)" "Default d (PipelineRunObj p) m = Ret (e, obj, m')"
  shows "config (configStore d) \<noteq> None" "configReloadTotal m' = configReloadTotal m"
    "balanced m \<Longrightarrow> balanced m'"
proof -
  from assms(2) obtain cfg q where cfg: "config (configStore d) = Some cfg"
    and run: "runMutators (mutators (configStore d)) (applyConfig cfg p) m = (e, q, m')"
    by (metis Default_PipelineRun DefaultRun_Ret)
  show "config (configStore d) \<noteq> None" by (simp add: cfg)
  show "configReloadTotal m' = configReloadTotal m"
    using mutator_chain.chain_induct [OF store_ok_chain [OF assms(1)] run] by blast
  assume bal: "balanced m"
  have "mutators_for C V T cfg (mutators (configStore d))"
    using assms(1) cfg by (simp add: store_ok_def consistent_pair_def)
  then consider "mutators (configStore d) = []"
    | ps where "CompileCELPrograms C V (Expressions (CfgCEL cfg)) = Inr ps" "Expressions (CfgCEL cfg) \<noteq> []"
        "mutators (configStore d) = [MutateRun T (NewCELMutator ps)]"
    by (auto simp: mutators_for_def split: if_splits)
  then show "balanced m'"
  proof cases
    case 1
    with run bal show ?thesis by simp
  next
    case 2
    obtain e1 q1 m1 where one: "MutateRun T (NewCELMutator ps) (applyConfig cfg p) m = (e1, q1, m1)"
      by (rule prod_cases3)
    have "programs (NewCELMutator ps) \<noteq> []"
      using CompileCELPrograms_expressions [OF 2(1)] 2(2) by (auto simp: NewCELMutator_def)
    from MutateRun_balanced [OF this one bal] one run 2(3) show ?thesis by (auto split: option.splits)
  qed
qed

definition counters_ok :: "('r, 'q) cluster \<Rightarrow> bool" where
  "counters_ok s \<longleftrightarrow> balanced (hookMetrics s) \<and>
     (config (hookStore s) = None \<longleftrightarrow> configReloadTotal (hookMetrics s) ''success'' = 0)"

lemma cluster_step_counters:
  assumes "cluster_step C V T Y TS Q nf s t" "store_ok C V T (hookStore s)" "counters_ok s"
  shows "counters_ok t"
  using assms(1)
proof cases
  case (create k p q m)
  with Default_counters [of C V T "\<lparr>configStore = hookStore s\<rparr>", OF _ create(3)] assms(2,3)
  show ?thesis by (simp add: counters_ok_def)
next
  case (refuse p err obj m)
  with Default_counters [of C V T "\<lparr>configStore = hookStore s\<rparr>", OF _ refuse(2)] assms(2,3)
  show ?thesis by (simp add: counters_ok_def)
next
  case (reload answer res st m)
  then show ?thesis using assms(3)
    by (auto simp: ReconcileConfigMap_def Update_def counters_ok_def balanced_def metrics_defs Inc_apply
        split: sum.splits option.splits if_splits)
qed (use assms(3) in \<open>simp_all add: counters_ok_def\<close>)

lemma cluster_reachable_counters:
  "cluster_reachable C V T Y TS Q nf s \<Longrightarrow> counters_ok s"
proof (induction rule: rtranclp_induct)
  case base
  show ?case by (simp add: counters_ok_def balanced_def init_cluster_def emptyStore_def zero_metrics_def)
next
  case (step s t)
  from step.hyps(1) have "store_ok C V T (hookStore s)" by (rule cluster_okD(1) [OF cluster_reachable_ok])
  from cluster_step_counters [OF step.hyps(2) this step.IH] show ?case .
qed


section \<open>Starting a run\<close>

text \<open>The annotations of a run that Kueue can read: a quantity for every requested resource.\<close>

definition startable :: "'q quantities \<Rightarrow> 'r PipelineRun \<Rightarrow> bool" where
  "startable Q p \<longleftrightarrow> IsSuspended p \<and>
     (\<forall>n v. map_get (Annotations p) (annotationResourcesRequests @ n) = Some v \<longrightarrow>
        n \<noteq> [] \<and> n \<noteq> ResourcePipelineRunCount \<and> (\<exists>q. ParseQuantity Q v = Inr q \<and> 0 \<le> Sign Q q))"

lemma PodSets_readable:
  assumes "enumerates kvs (Annotations p)" "IsSuspended p"
  shows "startable Q p \<longleftrightarrow> (\<exists>ps. PodSets Q kvs = Inr ps)"
proof -
  have "(\<exists>ps. PodSets Q kvs = Inr ps) \<longleftrightarrow> is_ok (resourcesRequests Q kvs)"
    by (auto simp: PodSets_def is_ok_iff split: sum.splits)
  with assms(2) show ?thesis
    unfolding resourcesRequests_ok_iff [OF assms(1)] parse_ok_iff startable_def by auto
qed

lemma enumerates_ex:
  assumes "finite (dom (map_get m))"
  obtains kvs where "enumerates kvs m"
proof -
  obtain ks where ks: "set ks = dom (map_get m)" "distinct ks" using finite_distinct_list [OF assms] by blast
  have "enumerates (map (\<lambda>k. (k, the (map_get m k))) ks) m"
    using ks by (auto simp: enumerates_def map_of_map_restrict restrict_map_def comp_def domIff)
  then show thesis by (rule that)
qed

lemma startable_step:
  assumes "startable Q p" "objects s k = Some p" "finite (dom (map_get (Annotations p)))"
  shows "\<exists>ps. cluster_step C V T Y TS Q nf s
      (s\<lparr>objects := (objects s)(k \<mapsto> p\<lparr>SpecStatus := []\<rparr>), started := (started s)(k \<mapsto> ps)\<rparr>) \<and>
    map (\<lambda>pod. map Requests (Containers pod)) ps = [[requests_of Q (Annotations p)]]"
proof -
  obtain kvs where kvs: "enumerates kvs (Annotations p)" using assms(3) by (rule enumerates_ex)
  have susp: "IsSuspended p" using assms(1) by (simp add: startable_def)
  obtain ps where ps: "PodSets Q kvs = Inr ps" using assms(1) PodSets_readable [OF kvs susp] by blast
  then have "map (\<lambda>pod. map Requests (Containers pod)) ps = [[requests_of Q (Annotations p)]]"
    using resourcesRequests_value [OF kvs] by (auto simp: PodSets_def split: sum.splits)
  moreover have "cluster_step C V T Y TS Q nf s
      (s\<lparr>objects := (objects s)(k \<mapsto> p\<lparr>SpecStatus := []\<rparr>), started := (started s)(k \<mapsto> ps)\<rparr>)"
    by (rule start [OF assms(2) susp kvs ps]) (simp add: RunWithPodSetsInfo_def)
  ultimately show ?thesis by (intro exI conjI)
qed

text \<open>Conversely, a step that starts a run is this one, and only a stored run is started.\<close>

lemma cluster_step_starts:
  assumes "cluster_step C V T Y TS Q nf s t" "objects s k = Some p" "started s k = None" "started t k \<noteq> None"
  shows "startable Q p \<and> (\<exists>ps.
    t = s\<lparr>objects := (objects s)(k \<mapsto> p\<lparr>SpecStatus := []\<rparr>), started := (started s)(k \<mapsto> ps)\<rparr> \<and>
    map (\<lambda>pod. map Requests (Containers pod)) ps = [[requests_of Q (Annotations p)]])"
  using assms(1)
proof cases
  case (start k' p' kvs ps q)
  then have "k' = k" using assms(3,4) by (auto split: if_splits)
  with start assms(2) have p': "p' = p" "q = p\<lparr>SpecStatus := []\<rparr>" by (simp_all add: RunWithPodSetsInfo_def)
  have "map (\<lambda>pod. map Requests (Containers pod)) ps = [[requests_of Q (Annotations p)]]"
    using start(4,5) p' resourcesRequests_value [of kvs] by (auto simp: PodSets_def split: sum.splits)
  moreover have "startable Q p" using start(3-5) p' PodSets_readable [of kvs p Q] by simp
  ultimately show ?thesis using start(1) \<open>k' = k\<close> p' by (intro conjI exI [of _ ps]) simp_all
qed (use assms in \<open>auto split: if_splits\<close>)

lemma cluster_step_starts_stored:
  assumes "cluster_step C V T Y TS Q nf s t" "objects s k = None" "started s k = None"
  shows "started t k = None"
  using assms(1) by cases (use assms(2,3) in \<open>auto split: if_splits\<close>)


section \<open>Properties\<close>

text \<open>
  (C3) Kueue controls every run. However create requests, Kueue's starts and stops, status
  reports, reloads of the configuration, Tekton's work and cancellations by users are
  interleaved from the start of the system, every stored PipelineRun has a queue; it runs
  (its \<open>spec.status\<close> is empty) only after Kueue has started it, on a pod set of one pod that
  takes exactly one concurrency token; and a run that Kueue has started is never suspended
  again.
\<close>

theorem kueue_controls_every_run:
  assumes "cluster_reachable C V T Y TS Q nf s" and "objects s k = Some p"
  shows "map_get (Labels p) QueueLabel \<noteq> None \<and>
    (SpecStatus p = [] \<longrightarrow> (\<exists>pod. started s k = Some [pod] \<and> Count pod = 1 \<and>
       map (\<lambda>c. Requests c ResourcePipelineRunCount) (Containers pod) = [Some (MustParse Q ''1'')])) \<and>
    (started s k \<noteq> None \<longrightarrow> \<not> IsSuspended p)"
  using cluster_okD(3) [OF cluster_reachable_ok [OF assms(1)] assms(2)]
  by (auto simp: run_ok_def one_token_def)

text \<open>
  (C7) Which runs are started, and how. In every reachable state a stored run can be started
  exactly when it is suspended and every annotation under the request prefix names a resource
  other than the concurrency token and holds a non-negative quantity. Whatever step starts
  it clears its \<open>spec.status\<close>, records a pod set with the annotated requests, and changes
  nothing else of the run, of the other runs and of the webhook; and no step starts a run
  that is not stored.
\<close>

theorem start_enabled:
  assumes "cluster_reachable C V T Y TS Q nf s" and "objects s k = Some p"
    and "finite (dom (map_get (Annotations p)))"
  shows "(startable Q p \<longleftrightarrow>
      (\<exists>t. cluster_step C V T Y TS Q nf s t \<and> started s k = None \<and> started t k \<noteq> None)) \<and>
    (\<forall>t. cluster_step C V T Y TS Q nf s t \<and> started s k = None \<and> started t k \<noteq> None \<longrightarrow> (\<exists>ps.
       t = s\<lparr>objects := (objects s)(k \<mapsto> p\<lparr>SpecStatus := []\<rparr>), started := (started s)(k \<mapsto> ps)\<rparr> \<and>
       map (\<lambda>pod. map Requests (Containers pod)) ps = [[requests_of Q (Annotations p)]])) \<and>
    (\<forall>t j. cluster_step C V T Y TS Q nf s t \<and> objects s j = None \<longrightarrow> started t j = None)"
proof (intro conjI allI impI)
  note ok = cluster_reachable_ok [OF assms(1)]
  have starts: "startable Q p \<and> (\<exists>ps.
      t = s\<lparr>objects := (objects s)(k \<mapsto> p\<lparr>SpecStatus := []\<rparr>), started := (started s)(k \<mapsto> ps)\<rparr> \<and>
      map (\<lambda>pod. map Requests (Containers pod)) ps = [[requests_of Q (Annotations p)]])"
    if "cluster_step C V T Y TS Q nf s t \<and> started s k = None \<and> started t k \<noteq> None" for t
    using cluster_step_starts [OF conjunct1 [OF that] assms(2)] that by simp
  show "startable Q p \<longleftrightarrow>
      (\<exists>t. cluster_step C V T Y TS Q nf s t \<and> started s k = None \<and> started t k \<noteq> None)"
  proof
    assume can: "startable Q p"
    then have "started s k = None" using cluster_okD(3) [OF ok assms(2)] by (simp add: run_ok_def startable_def)
    with startable_step [OF can assms(2,3), of C V T Y TS nf]
    show "\<exists>t. cluster_step C V T Y TS Q nf s t \<and> started s k = None \<and> started t k \<noteq> None"
      by (elim exE conjE) (intro exI conjI, assumption, simp_all)
  qed (elim exE, rule conjunct1 [OF starts])
  show "\<exists>ps. t = s\<lparr>objects := (objects s)(k \<mapsto> p\<lparr>SpecStatus := []\<rparr>), started := (started s)(k \<mapsto> ps)\<rparr> \<and>
      map (\<lambda>pod. map Requests (Containers pod)) ps = [[requests_of Q (Annotations p)]]"
    if "cluster_step C V T Y TS Q nf s t \<and> started s k = None \<and> started t k \<noteq> None" for t
    by (rule conjunct2 [OF starts [OF that]])
  show "started t j = None" if "cluster_step C V T Y TS Q nf s t \<and> objects s j = None" for t j
    using cluster_step_starts_stored [OF conjunct1 [OF that]] cluster_okD(2) [OF ok, of j] that by simp
qed

text \<open>
  (C22) What the counters of the webhook process tell. In every reachable state the successful
  evaluations are as many as the successful and failed mutations together, and the counter
  of successful reloads is zero exactly when no configuration is loaded, that is when every
  create request panics.
\<close>

theorem counters_tell_state:
  assumes "cluster_reachable C V T Y TS Q nf s"
  shows "celEvaluationsTotal (hookMetrics s) ''success'' =
      celMutationsTotal (hookMetrics s) ''success'' + celMutationsTotal (hookMetrics s) ''failure'' \<and>
    (configReloadTotal (hookMetrics s) ''success'' = 0 \<longleftrightarrow>
      (\<forall>p. \<exists>msg. Default \<lparr>configStore = hookStore s\<rparr> (PipelineRunObj p) (hookMetrics s) = Panic msg))"
  using cluster_reachable_counters [OF assms] Default_panics_iff [of "\<lparr>configStore = hookStore s\<rparr>"]
  by (auto simp: counters_ok_def balanced_def)

definition plain_config :: Config where
  "plain_config = \<lparr>QueueName = ''pipelines'', MultiKueueOverride = False, CfgCEL = \<lparr>Expressions = []\<rparr>\<rparr>"

definition plain_yaml :: yaml where
  "plain_yaml raw = Inr plain_config"

definition plain_store :: "unit ConfigStore" where
  "plain_store = \<lparr>config = Some plain_config, mutators = []\<rparr>"

definition sample_map :: configMap where
  "sample_map = \<lparr>CmName = ConfigMapName, CmNamespace = ''tekton-kueue'', Data = [ConfigKey \<mapsto> ''raw'']\<rparr>"

lemma plain_reload:
  "ReconcileConfigMap sample_cel sample_validation sample_tekton plain_yaml (\<lambda>_. False) (Inr sample_map)
     emptyStore zero_metrics = ((\<lparr>RequeueAfter = 0\<rparr>, None), plain_store, RecordReloadSuccess zero_metrics)"
  by (simp add: ReconcileConfigMap_def sample_map_def Update_def prepareUpdate_def parseConfig_def
      plain_yaml_def validateConfig_def plain_config_def plain_store_def emptyStore_def)

abbreviation sample_cluster_step :: "(unit, int) cluster \<Rightarrow> (unit, int) cluster \<Rightarrow> bool" where
  "sample_cluster_step \<equiv> cluster_step sample_cel sample_validation sample_tekton plain_yaml sample_status
     sample_quantities (\<lambda>_. False)"

lemma dom_map_get_None [simp]: "dom (map_get None) = {}"
  by (simp add: dom_def)

text \<open>The configuration is loaded, then a run is created.\<close>

lemma sample_created:
  obtains s1 s :: "(unit, int) cluster" and p where "sample_cluster_step init_cluster s1"
    "sample_cluster_step s1 s" "sample_cluster_step\<^sup>*\<^sup>* init_cluster s"
    "started s1 = Map.empty" "started s = Map.empty" "objects s = [''run'' \<mapsto> p]"
    "objects s ''run'' = Some p" "IsSuspended p" "Annotations p = None" "config (hookStore s) \<noteq> None"
proof -
  let ?s0 = "init_cluster :: (unit, int) cluster"
  let ?m = "RecordReloadSuccess zero_metrics"
  let ?s1 = "?s0\<lparr>hookStore := plain_store, hookMetrics := ?m\<rparr>"
  let ?p = "applyConfig plain_config sample_run"
  let ?s2 = "?s1\<lparr>objects := (objects ?s1)(''run'' \<mapsto> ?p), hookMetrics := ?m\<rparr>"
  have 1: "sample_cluster_step ?s0 ?s1"
    using plain_reload by (intro reload) (simp add: init_cluster_def)
  have "Default \<lparr>configStore = plain_store\<rparr> (PipelineRunObj sample_run) ?m = Ret (None, PipelineRunObj ?p, ?m)"
    by (simp add: Default_def plain_store_def)
  then have 2: "sample_cluster_step ?s1 ?s2"
    by (intro create [where p = sample_run]) (simp_all add: init_cluster_def)
  have "sample_cluster_step\<^sup>*\<^sup>* ?s0 ?s2"
    using 1 2 by (meson r_into_rtranclp rtranclp.rtrancl_into_rtrancl)
  with 1 2 show thesis
    by (rule that [where p = ?p]) (simp_all add: IsSuspended_def plain_store_def init_cluster_def)
qed

lemma sample_started:
  obtains s :: "(unit, int) cluster" and p where "sample_cluster_step\<^sup>*\<^sup>* init_cluster s"
    "objects s ''run'' = Some p" "SpecStatus p = []"
proof -
  obtain s :: "(unit, int) cluster" and p where s: "sample_cluster_step\<^sup>*\<^sup>* init_cluster s"
    "objects s ''run'' = Some p" "IsSuspended p" "Annotations p = None" by (rule sample_created)
  have "startable sample_quantities p" "finite (dom (map_get (Annotations p)))"
    using s(3,4) by (simp_all add: startable_def)
  from startable_step [OF this(1) s(2) this(2), where C = sample_cel and V = sample_validation and T = sample_tekton
      and Y = plain_yaml and TS = sample_status and nf = "\<lambda>_. False"]
  obtain ps where "sample_cluster_step s
      (s\<lparr>objects := (objects s)(''run'' \<mapsto> p\<lparr>SpecStatus := []\<rparr>), started := (started s)(''run'' \<mapsto> ps)\<rparr>)"
    by (elim exE conjE) (rule that)
  with s(1) have "sample_cluster_step\<^sup>*\<^sup>* init_cluster
      (s\<lparr>objects := (objects s)(''run'' \<mapsto> p\<lparr>SpecStatus := []\<rparr>), started := (started s)(''run'' \<mapsto> ps)\<rparr>)"
    by (rule rtranclp.rtrancl_into_rtrancl)
  then show thesis
    by (rule that [where p = "p\<lparr>SpecStatus := []\<rparr>"]) simp_all
qed

theorem kueue_controls_every_run_witness:
  "\<exists>s p pod. sample_cluster_step\<^sup>*\<^sup>* init_cluster s \<and> objects s ''run'' = Some p \<and> SpecStatus p = [] \<and>
     started s ''run'' = Some [pod] \<and> Count pod = 1"
proof -
  obtain s :: "(unit, int) cluster" and p where s: "sample_cluster_step\<^sup>*\<^sup>* init_cluster s"
      "objects s ''run'' = Some p" "SpecStatus p = []" by (rule sample_started)
  from kueue_controls_every_run [OF s(1,2)] s show ?thesis by blast
qed

theorem start_enabled_witness:
  "\<exists>s p t. sample_cluster_step\<^sup>*\<^sup>* init_cluster s \<and> objects s ''run'' = Some p \<and> startable sample_quantities p \<and>
     sample_cluster_step s t \<and> started s ''run'' = None \<and> objects t ''run'' = Some (p\<lparr>SpecStatus := []\<rparr>) \<and>
     hookStore t = hookStore s"
proof -
  obtain s :: "(unit, int) cluster" and p where s: "sample_cluster_step\<^sup>*\<^sup>* init_cluster s"
    "objects s ''run'' = Some p" "IsSuspended p" "Annotations p = None" by (rule sample_created)
  have can: "startable sample_quantities p" using s(3,4) by (simp add: startable_def)
  have "finite (dom (map_get (Annotations p)))" by (simp add: s(4))
  note start = start_enabled [OF s(1,2) this]
  then obtain t where t: "sample_cluster_step s t" "started s ''run'' = None" "started t ''run'' \<noteq> None"
    using can by blast
  with start have "objects t ''run'' = Some (p\<lparr>SpecStatus := []\<rparr>)" "hookStore t = hookStore s" by auto
  with s(1,2) can t show ?thesis by blast
qed

theorem counters_tell_state_witness:
  "\<exists>s :: (unit, int) cluster. sample_cluster_step\<^sup>*\<^sup>* init_cluster s \<and>
     configReloadTotal (hookMetrics s) ''success'' \<noteq> 0"
proof -
  obtain s :: "(unit, int) cluster" and p where s: "sample_cluster_step\<^sup>*\<^sup>* init_cluster s"
    "objects s ''run'' = Some p" "config (hookStore s) \<noteq> None" by (rule sample_created)
  then have "\<not> (\<exists>msg. Default \<lparr>configStore = hookStore s\<rparr> (PipelineRunObj p) (hookMetrics s) = Panic msg)"
    by (simp add: Default_panics_iff)
  with counters_tell_state [OF s(1)] s(1) show ?thesis by blast
qed

end
