(* ===== verification/Ledger.thy ===== *)
theory Ledger
  imports Prelude
begin

text \<open>
  What queueing promises, without the program: a ledger of the phases of runs. A run that
  arrives is queued; it may be started only when every resource has room for what it asks
  for; from then on it holds its demand until it is done or removed, also while it is being
  stopped. The invariant is that the demands held stay within the limits. Theory \<open>Quota\<close>
  shows that the components of the repository, driven by a queueing system that keeps to its
  quota, refine this ledger.
\<close>

section \<open>The ledger\<close>

text \<open>A run is \<open>Loose\<close> when it runs although it was never started: no step leads there.\<close>

datatype 'd phase = Queued | Running 'd | Stopping 'd | Ended | Loose

type_synonym ('k, 'd) ledger = "'k \<Rightarrow> 'd phase option"

fun demand :: "'d phase option \<Rightarrow> 'd option" where
  "demand (Some (Running d)) = Some d"
| "demand (Some (Stopping d)) = Some d"
| "demand _ = None"

definition holders :: "('k, 'd) ledger \<Rightarrow> 'k set" where
  "holders f = {k. demand (f k) \<noteq> None}"

definition used :: "('d \<Rightarrow> 'res \<Rightarrow> nat) \<Rightarrow> ('k, 'd) ledger \<Rightarrow> 'res \<Rightarrow> nat" where
  "used amount f r = (\<Sum>k \<in> holders f. amount (the (demand (f k))) r)"

inductive ledger_step ::
    "('d \<Rightarrow> 'res \<Rightarrow> nat) \<Rightarrow> ('res \<Rightarrow> nat) \<Rightarrow> ('k, 'd) ledger \<Rightarrow> ('k, 'd) ledger \<Rightarrow> bool"
  for amount limit where
  arrive: "f k = None \<Longrightarrow> ledger_step amount limit f (f(k \<mapsto> Queued))"
| start: "f k = Some Queued \<Longrightarrow> \<forall>r. used amount f r + amount d r \<le> limit r \<Longrightarrow>
     ledger_step amount limit f (f(k \<mapsto> Running d))"
| stop: "f k = Some (Running d) \<Longrightarrow> ledger_step amount limit f (f(k \<mapsto> Stopping d))"
| finish: "f k = Some ph \<Longrightarrow> ledger_step amount limit f (f(k \<mapsto> Ended))"
| remove: "ledger_step amount limit f (f(k := None))"

inductive_cases ledger_stepE: "ledger_step amount limit f g"

text \<open>A run arrives queued.\<close>

lemma ledger_step_new:
  assumes "ledger_step amount limit f g" "f k = None" "g k = Some ph"
  shows "ph = Queued"
  using assms by (auto elim!: ledger_stepE split: if_splits)


section \<open>A run only moves forward\<close>

text \<open>The stages of a run, in the order in which it passes them; it may leave some out.\<close>

datatype stage = Waiting | Executing | Leaving | Over

fun stage_rank :: "stage \<Rightarrow> nat" where
  "stage_rank Waiting = 0"
| "stage_rank Executing = 1"
| "stage_rank Leaving = 2"
| "stage_rank Over = 3"

lemma stage_rank_le [simp]: "stage_rank x \<le> 3"
  by (cases x) simp_all

lemma stage_rank_inject: "stage_rank x = stage_rank y \<Longrightarrow> x = y"
  by (cases x; cases y) simp_all

instantiation stage :: linorder
begin

definition less_eq_stage_def: "x \<le> y \<longleftrightarrow> stage_rank x \<le> stage_rank y"

definition less_stage_def: "x < y \<longleftrightarrow> stage_rank x < stage_rank y"

instance
  by standard (auto simp: less_eq_stage_def less_stage_def intro: stage_rank_inject)

end

fun stage_of :: "'d phase \<Rightarrow> stage" where
  "stage_of Queued = Waiting"
| "stage_of (Running d) = Executing"
| "stage_of (Stopping d) = Leaving"
| "stage_of Ended = Over"
| "stage_of Loose = Executing"

lemma ledger_step_forward:
  assumes "ledger_step amount limit f g" "f k = Some a" "g k = Some b"
  shows "stage_of a \<le> stage_of b"
  using assms by (auto elim!: ledger_stepE simp: less_eq_stage_def split: if_splits)


section \<open>Demands stay within the limits\<close>

text \<open>A change of one entry, for the demand held.\<close>

lemma holders_upd:
  "holders (f(k := x)) = (if demand x = None then holders f - {k} else insert k (holders f))"
  by (auto simp: holders_def)

lemma used_split:
  assumes "finite (holders f)"
  shows "used amount f r = (\<Sum>j \<in> holders f - {k}. amount (the (demand (f j))) r) +
    (case demand (f k) of None \<Rightarrow> 0 | Some d \<Rightarrow> amount d r)"
proof (cases "demand (f k)")
  case None
  then have "holders f - {k} = holders f" by (auto simp: holders_def)
  with None show ?thesis by (simp add: used_def)
next
  case (Some d)
  then have "k \<in> holders f" by (simp add: holders_def)
  from sum.remove [OF assms this, of "\<lambda>j. amount (the (demand (f j))) r"] Some
  show ?thesis by (simp add: used_def)
qed

lemma used_upd:
  assumes "finite (holders f)"
  shows "used amount (f(k := x)) r + (case demand (f k) of None \<Rightarrow> 0 | Some d \<Rightarrow> amount d r) =
    used amount f r + (case demand x of None \<Rightarrow> 0 | Some d \<Rightarrow> amount d r)"
proof -
  have fin: "finite (holders (f(k := x)))" using assms by (simp add: holders_upd)
  have "holders (f(k := x)) - {k} = holders f - {k}" by (auto simp: holders_upd)
  then have "(\<Sum>j \<in> holders (f(k := x)) - {k}. amount (the (demand ((f(k := x)) j))) r) =
      (\<Sum>j \<in> holders f - {k}. amount (the (demand (f j))) r)" by (intro sum.cong) auto
  with used_split [OF fin, of amount r k] used_split [OF assms, of amount r k] show ?thesis by simp
qed

definition ledger_ok :: "('d \<Rightarrow> 'res \<Rightarrow> nat) \<Rightarrow> ('res \<Rightarrow> nat) \<Rightarrow> ('k, 'd) ledger \<Rightarrow> bool" where
  "ledger_ok amount limit f \<longleftrightarrow> finite (holders f) \<and> (\<forall>r. used amount f r \<le> limit r)"

lemma ledger_ok_empty: "ledger_ok amount limit Map.empty"
  by (simp add: ledger_ok_def holders_def used_def)

lemma ledger_ok_upd:
  assumes "ledger_ok amount limit f"
    and "\<And>r. used amount f r + (case demand x of None \<Rightarrow> 0 | Some d \<Rightarrow> amount d r) \<le>
      limit r + (case demand (f k) of None \<Rightarrow> 0 | Some d \<Rightarrow> amount d r)"
  shows "ledger_ok amount limit (f(k := x))"
proof -
  have fin: "finite (holders f)" using assms(1) by (simp add: ledger_ok_def)
  moreover have "used amount (f(k := x)) r \<le> limit r" for r
    using used_upd [OF fin, of amount k x r] assms(2) [of r] by simp
  ultimately show ?thesis by (simp add: ledger_ok_def holders_upd)
qed

lemma ledger_step_ok:
  assumes "ledger_step amount limit f g" "ledger_ok amount limit f"
  shows "ledger_ok amount limit g"
proof -
  have le: "used amount f r \<le> limit r" for r using assms(2) by (simp add: ledger_ok_def)
  from assms(1) show ?thesis
  proof cases
    case (arrive k)
    with le show ?thesis by (auto intro!: ledger_ok_upd [OF assms(2)])
  qed (use le in \<open>auto intro!: ledger_ok_upd [OF assms(2)] simp: trans_le_add1\<close>)
qed

text \<open>Demands that all take one unit of a resource: their holders are at most its limit.\<close>

lemma holders_le_limit:
  assumes "ledger_ok amount limit f" "\<And>k d. demand (f k) = Some d \<Longrightarrow> amount d r = 1"
  shows "card (holders f) \<le> limit r"
proof -
  have "used amount f r = (\<Sum>k \<in> holders f. 1)"
    unfolding used_def by (intro sum.cong) (auto simp: holders_def assms(2))
  with assms(1) show ?thesis by (simp add: ledger_ok_def) (metis card_eq_sum)
qed

end
