(* ===== verification/Quota.thy ===== *)
theory Quota
  imports Cluster Ledger
begin

text \<open>
  The composed system under quota. Kueue is not part of the repository; what it is told by
  \<open>PodSets\<close>, \<open>IsSuspended\<close>, \<open>RunWithPodSetsInfo\<close>, \<open>Stop\<close> and \<open>Finished\<close> is. The system is
  observed as the ledger of theory \<open>Ledger\<close>, and driven by a queueing system that starts a
  run only when the demand of its pod sets fits beside the demands still held, every step of
  it is a step of the ledger. So a limit on a resource bounds what is executed.

  \<open>amt\<close> is the integer value of a quantity, \<open>limit\<close> the quota of a resource.
\<close>

section \<open>Observing a run\<close>

definition podset_total :: "('q \<Rightarrow> nat) \<Rightarrow> 'q podSet list \<Rightarrow> string \<Rightarrow> nat" where
  "podset_total amt ps r =
     sum_list (map (\<lambda>pod. unat (Count pod) *
       sum_list (map (\<lambda>c. case Requests c r of None \<Rightarrow> 0 | Some q \<Rightarrow> amt q) (Containers pod))) ps)"

text \<open>
  A suspended run is queued. A run that Kueue has started holds its pod sets until \<open>Finished\<close>
  says that it is finished, also while a stop or a cancellation lets tasks end. A run that is
  neither suspended nor finished nor was started is \<open>Loose\<close> when its \<open>spec.status\<close> lets Tekton run
  it, and has ended otherwise: it was cancelled before it could start.
\<close>

abbreviation finished :: "'r tekton_status \<Rightarrow> 'r PipelineRun \<Rightarrow> bool" where
  "finished TS p \<equiv> snd (snd (Finished TS p))"

definition phase_of :: "'r tekton_status \<Rightarrow> 'r PipelineRun \<Rightarrow> 'q podSet list option \<Rightarrow> 'q podSet list phase" where
  "phase_of TS p st =
     (if IsSuspended p then Queued
      else if finished TS p then Ended
      else case st of
        None \<Rightarrow> if SpecStatus p = [] then Loose else Ended
      | Some ps \<Rightarrow> if SpecStatus p = [] then Running ps else Stopping ps)"

definition phases :: "'r tekton_status \<Rightarrow> ('r, 'q) cluster \<Rightarrow> (string, 'q podSet list) ledger" where
  "phases TS s k = map_option (\<lambda>p. phase_of TS p (started s k)) (objects s k)"

lemma phases_upd:
  "phases TS (s\<lparr>objects := (objects s)(k \<mapsto> q)\<rparr>) = (phases TS s)(k \<mapsto> phase_of TS q (started s k))"
  "phases TS (s\<lparr>objects := (objects s)(k \<mapsto> q), started := (started s)(k \<mapsto> ps)\<rparr>) =
     (phases TS s)(k \<mapsto> phase_of TS q (Some ps))"
  "phases TS (s\<lparr>objects := (objects s)(k \<mapsto> q), hookMetrics := m\<rparr>) =
     (phases TS s)(k \<mapsto> phase_of TS q (started s k))"
  "phases TS (s\<lparr>objects := (objects s)(k := None), started := (started s)(k := None)\<rparr>) = (phases TS s)(k := None)"
  "phases TS (s\<lparr>hookMetrics := m\<rparr>) = phases TS s"
  "phases TS (s\<lparr>hookStore := st\<rparr>) = phases TS s"
  by (auto simp: phases_def)

lemma phases_init: "phases TS init_cluster = Map.empty"
  by (auto simp: phases_def init_cluster_def)

text \<open>
  What is documented of the Tekton type: whether a run is done is read off its conditions,
  and a run without a \<open>Succeeded\<close> condition is not done.
\<close>

definition done_by_conditions :: "'r tekton_status \<Rightarrow> bool" where
  "done_by_conditions TS \<longleftrightarrow>
     (\<forall>p q. Conditions p = Conditions q \<longrightarrow> IsDone TS p = IsDone TS q) \<and>
     (\<forall>p. GetCondition TS p ConditionSucceeded = None \<longrightarrow> \<not> IsDone TS p)"

lemma finished_iff_done:
  assumes "done_by_conditions TS"
  shows "finished TS p = IsDone TS p"
proof (cases "GetCondition TS p ConditionSucceeded")
  case None
  then have "\<not> IsDone TS p" using assms unfolding done_by_conditions_def by blast
  with None show ?thesis by (simp add: Finished_def)
qed (simp add: Finished_def)

lemma finished_cong:
  assumes "done_by_conditions TS" "Conditions p = Conditions q"
  shows "finished TS p = finished TS q"
  using assms(1,2) unfolding finished_iff_done [OF assms(1)] done_by_conditions_def by blast


section \<open>Steps under quota\<close>

definition quota_step ::
    "('q \<Rightarrow> nat) \<Rightarrow> (string \<Rightarrow> nat) \<Rightarrow> ('env, 'ast) cel_go \<Rightarrow> validation \<Rightarrow> 'r tekton \<Rightarrow> yaml
       \<Rightarrow> 'r tekton_status \<Rightarrow> 'q quantities \<Rightarrow> (go_error \<Rightarrow> bool) \<Rightarrow> ('r, 'q) cluster \<Rightarrow> ('r, 'q) cluster \<Rightarrow> bool" where
  "quota_step amt limit C V T Y TS Q nf s t \<longleftrightarrow>
     cluster_step C V T Y TS Q nf s t \<and>
     (\<forall>k ps. started s k = None \<longrightarrow> started t k = Some ps \<longrightarrow>
        (\<forall>r. used (podset_total amt) (phases TS s) r + podset_total amt ps r \<le> limit r))"

lemma quota_step_cluster: "quota_step amt limit C V T Y TS Q nf s t \<Longrightarrow> cluster_step C V T Y TS Q nf s t"
  by (simp add: quota_step_def)

text \<open>A change of \<open>spec.status\<close> to something that is neither running nor pending.\<close>

lemma ledger_halt:
  assumes "phases TS s k = Some (phase_of TS p st)" "run_ok Q p st"
    and "finished TS q = finished TS p" "SpecStatus q \<noteq> []" "\<not> IsSuspended q"
  shows "(phases TS s)(k \<mapsto> phase_of TS q st) = phases TS s \<or>
    ledger_step D limit (phases TS s) ((phases TS s)(k \<mapsto> phase_of TS q st))"
proof (cases "finished TS p \<or> st = None")
  case True
  then have "phase_of TS q st = Ended" using assms(3-5) by (auto simp: phase_of_def)
  with ledger_step.finish [of "phases TS s" k _ D limit, OF assms(1)] show ?thesis by simp
next
  case False
  then obtain ps where st: "st = Some ps" and "\<not> finished TS p" by auto
  then have "\<not> IsSuspended p" using assms(2) by (auto simp: run_ok_def)
  show ?thesis
  proof (cases "SpecStatus p = []")
    case True
    then have "phases TS s k = Some (Running ps)" "phase_of TS q st = Stopping ps"
      using assms st \<open>\<not> finished TS p\<close> \<open>\<not> IsSuspended p\<close> by (simp_all add: phase_of_def)
    then show ?thesis by (simp add: ledger_step.stop)
  next
    case False
    then have "phase_of TS q st = phase_of TS p st"
      using assms st \<open>\<not> finished TS p\<close> \<open>\<not> IsSuspended p\<close> by (simp add: phase_of_def)
    with assms(1) show ?thesis by (simp add: fun_upd_idem)
  qed
qed

text \<open>A change of anything but \<open>spec.status\<close> that cannot undo the end of a run.\<close>

lemma ledger_report:
  assumes "phases TS s k = Some (phase_of TS p st)" "SpecStatus q = SpecStatus p"
    and "finished TS p \<Longrightarrow> finished TS q"
  shows "(phases TS s)(k \<mapsto> phase_of TS q st) = phases TS s \<or>
    ledger_step D limit (phases TS s) ((phases TS s)(k \<mapsto> phase_of TS q st))"
proof (cases "finished TS q \<and> \<not> IsSuspended q")
  case True
  then have "phase_of TS q st = Ended" by (simp add: phase_of_def)
  with ledger_step.finish [of "phases TS s" k _ D limit, OF assms(1)] show ?thesis by simp
next
  case False
  then have "phase_of TS q st = phase_of TS p st"
    using assms(2,3) by (auto simp: phase_of_def IsSuspended_def split: option.split)
  with assms(1) show ?thesis by (simp add: fun_upd_idem)
qed

lemma quota_step_simulates:
  assumes laws: "done_by_conditions TS" and ok: "cluster_ok C V T Q s"
    and step: "quota_step amt limit C V T Y TS Q nf s t"
  shows "phases TS t = phases TS s \<or> ledger_step (podset_total amt) limit (phases TS s) (phases TS t)"
  using quota_step_cluster [OF step]
proof cases
  case (create k p q m)
  have "SpecStatus q = PipelineRunSpecStatusPending"
    using Default_accepted [of C V T "\<lparr>configStore = hookStore s\<rparr>", OF _ create(3)] cluster_okD(1) [OF ok] by auto
  then have "phase_of TS q (started s k) = Queued" by (simp add: phase_of_def IsSuspended_def)
  moreover have "phases TS s k = None" using create(2) by (simp add: phases_def)
  ultimately show ?thesis by (simp only: create(1) phases_upd) (auto intro: ledger_step.arrive)
next
  case (start k p kvs ps q)
  from start(6) have q: "q = p\<lparr>SpecStatus := []\<rparr>" by (simp add: RunWithPodSetsInfo_def)
  have none: "started s k = None" using cluster_okD(3) [OF ok start(2)] start(3) by (simp add: run_ok_def)
  have same: "finished TS q = finished TS p" using finished_cong [OF laws, of q p] by (simp add: q)
  have view: "phases TS s k = Some (phase_of TS p None)" using start(2) none by (simp add: phases_def)
  have room: "\<forall>r. used (podset_total amt) (phases TS s) r + podset_total amt ps r \<le> limit r"
    using step none start(1) by (auto simp: quota_step_def)
  have queued: "phases TS s k = Some Queued" using view start(3) by (simp add: phase_of_def)
  have "phase_of TS q (Some ps) = (if finished TS p then Ended else Running ps)"
    using same by (simp add: phase_of_def q IsSuspended_def PipelineRunSpecStatusPending_def)
  then show ?thesis
    using ledger_step.finish [where f = "phases TS s" and amount = "podset_total amt" and limit = limit, OF queued]
      ledger_step.start [where f = "phases TS s", OF queued room] by (simp add: start(1) phases_upd)
next
  case (halt k p req)
  have q: "applyObject req = plr_stopped p"
    using halt(3) by (cases rule: Stop_cases [of TS p "\<lambda>_. None"]) simp_all
  show ?thesis unfolding halt(1) phases_upd
    by (rule ledger_halt [where p = p, OF _ cluster_okD(3) [OF ok halt(2)]])
      (use halt(2) finished_cong [OF laws, of "plr_stopped p" p] in
        \<open>simp_all add: phases_def q plr_stopped_def IsSuspended_def\<close>)
next
  case (report k p now q)
  have "\<not> finished TS p"
    using report(3) by (cases rule: ReconcileStatus_cases [of p TS nf now "\<lambda>_. None"]) (auto simp: Finished_def)
  then show ?thesis unfolding report(1) phases_upd
    by (intro ledger_report [where p = p]) (use report(2) in \<open>simp_all add: phases_def\<close>)
next
  case (works k p q)
  then show ?thesis unfolding works(1) phases_upd
    by (intro ledger_report [where p = p])
      (simp_all add: phases_def tekton_works_def tekton_progress_def finished_iff_done [OF laws])
next
  case (cancel k p st)
  show ?thesis unfolding cancel(1) phases_upd
    by (rule ledger_halt [where p = p, OF _ cluster_okD(3) [OF ok cancel(2)]])
      (use cancel(2-4) finished_cong [OF laws, of "p\<lparr>SpecStatus := st\<rparr>" p] in
        \<open>simp_all add: phases_def IsSuspended_def\<close>)
next
  case (delete k)
  then show ?thesis by (simp add: phases_upd ledger_step.remove)
qed (simp_all add: phases_upd)


interpretation queueing: simulation "quota_step amt limit C V T Y TS Q nf"
  "\<lambda>s. done_by_conditions TS \<and> cluster_ok C V T Q s" "ledger_step (podset_total amt) limit" "phases TS"
proof
  fix s t
  assume s: "done_by_conditions TS \<and> cluster_ok C V T Q s" and step: "quota_step amt limit C V T Y TS Q nf s t"
  then show "done_by_conditions TS \<and> cluster_ok C V T Q t"
    using cluster_step_ok [OF quota_step_cluster] by blast
  from s step show "phases TS t = phases TS s \<or>
      ledger_step (podset_total amt) limit (phases TS s) (phases TS t)"
    using quota_step_simulates by blast
qed


section \<open>Runs that are executed\<close>

definition executed :: "'r tekton_status \<Rightarrow> ('r, 'q) cluster \<Rightarrow> string set" where
  "executed TS s = {k. \<exists>p. objects s k = Some p \<and> SpecStatus p = [] \<and> \<not> finished TS p}"

lemma podset_total_token:
  assumes "one_token Q ps" "amt (MustParse Q ''1'') = 1"
  shows "podset_total amt ps ResourcePipelineRunCount = 1"
proof -
  from assms(1) obtain pod where pod: "ps = [pod]" "Count pod = 1"
    "map (\<lambda>c. Requests c ResourcePipelineRunCount) (Containers pod) = [Some (MustParse Q ''1'')]"
    by (auto simp: one_token_def)
  then obtain c where "Containers pod = [c]" "Requests c ResourcePipelineRunCount = Some (MustParse Q ''1'')"
    by auto
  with pod assms(2) show ?thesis by (simp add: podset_total_def)
qed

lemma demand_phases:
  assumes "demand (phases TS s k) = Some ps"
  shows "started s k = Some ps"
  using assms by (auto simp: phases_def phase_of_def split: option.splits if_splits elim: demand.elims)

lemma executed_holds:
  assumes "cluster_ok C V T Q s" "k \<in> executed TS s"
  shows "demand (phases TS s k) = started s k \<and> started s k \<noteq> None"
proof -
  from assms(2) obtain p where p: "objects s k = Some p" "SpecStatus p = []" "\<not> finished TS p"
    by (auto simp: executed_def)
  then obtain ps where "started s k = Some ps"
    using cluster_okD(3) [OF assms(1) p(1)] by (auto simp: run_ok_def)
  with p show ?thesis by (simp add: phases_def phase_of_def IsSuspended_def PipelineRunSpecStatusPending_def)
qed

lemma ledger_bounds_executed:
  assumes "cluster_ok C V T Q s" "ledger_ok (podset_total amt) limit (phases TS s)"
  shows "finite (executed TS s)"
    and "(\<Sum>k \<in> executed TS s. podset_total amt (the (started s k)) r) \<le> limit r"
    and "amt (MustParse Q ''1'') = 1 \<Longrightarrow> card (executed TS s) \<le> limit ResourcePipelineRunCount"
proof -
  have fin: "finite (holders (phases TS s))" using assms(2) by (simp add: ledger_ok_def)
  have sub: "executed TS s \<subseteq> holders (phases TS s)"
    using executed_holds [OF assms(1)] by (auto simp: holders_def)
  from finite_subset [OF sub fin] show "finite (executed TS s)" .
  have "(\<Sum>k \<in> executed TS s. podset_total amt (the (started s k)) r) =
      (\<Sum>k \<in> executed TS s. podset_total amt (the (demand (phases TS s k))) r)"
    using executed_holds [OF assms(1)] by (intro sum.cong) auto
  also have "\<dots> \<le> used (podset_total amt) (phases TS s) r"
    unfolding used_def by (rule sum_mono2 [OF fin sub]) simp
  also have "\<dots> \<le> limit r" using assms(2) by (simp add: ledger_ok_def)
  finally show "(\<Sum>k \<in> executed TS s. podset_total amt (the (started s k)) r) \<le> limit r" .
  assume one: "amt (MustParse Q ''1'') = 1"
  have "podset_total amt ps ResourcePipelineRunCount = 1" if "demand (phases TS s k) = Some ps" for k ps
  proof -
    have st: "started s k = Some ps" using that by (rule demand_phases)
    then obtain p where "objects s k = Some p" using cluster_okD(2) [OF assms(1), of k] by fastforce
    from cluster_okD(3) [OF assms(1) this] st have "one_token Q ps" by (simp add: run_ok_def)
    then show ?thesis using one by (rule podset_total_token)
  qed
  from holders_le_limit [OF assms(2) this] card_mono [OF fin sub]
  show "card (executed TS s) \<le> limit ResourcePipelineRunCount" by (rule order_trans [rotated])
qed


text \<open>No run is loose, and a run that is newly stored is queued.\<close>

lemma no_loose_run:
  assumes "cluster_ok C V T Q s"
  shows "Loose \<notin> ran (phases TS s)"
  using cluster_okD(3) [OF assms]
  by (fastforce simp: ran_def phases_def phase_of_def run_ok_def split: if_splits option.splits)

lemma quota_step_new:
  assumes "done_by_conditions TS \<and> cluster_ok C V T Q s" "quota_step amt limit C V T Y TS Q nf s t"
    and "objects s k = None" "objects t k \<noteq> None"
  shows "phases TS t k = Some Queued"
proof -
  obtain ph where ph: "phases TS s k = None" "phases TS t k = Some ph"
    using assms(3,4) by (auto simp: phases_def)
  with queueing.simulates [OF assms(1,2)] ledger_step_new [of _ _ "phases TS s" "phases TS t" k ph]
  show ?thesis by auto
qed

text \<open>A run that is not deleted on the way.\<close>

lemma kept_run_forward:
  assumes "done_by_conditions TS \<and> cluster_ok C V T Q s"
    and "(\<lambda>u v. quota_step amt limit C V T Y TS Q nf u v \<and> objects v k \<noteq> None)\<^sup>*\<^sup>* s t"
    and "phases TS s k = Some a" "phases TS t k = Some b"
  shows "stage_of a \<le> stage_of b"
  using assms(2,4)
proof (induction arbitrary: b rule: rtranclp_induct)
  case base
  with assms(3) show ?case by simp
next
  case (step u v)
  have kept: "\<exists>c. phases TS u k = Some c"
    using step.hyps(1) assms(3) by (cases rule: rtranclp.cases) (auto simp: phases_def)
  then obtain c where c: "phases TS u k = Some c" by blast
  have "(quota_step amt limit C V T Y TS Q nf)\<^sup>*\<^sup>* s u"
    using step.hyps(1) by (rule mono_rtranclp [rule_format, rotated]) simp
  then have "done_by_conditions TS \<and> cluster_ok C V T Q u" using assms(1) by (rule queueing.inv_steps)
  from queueing.simulates [OF this conjunct1 [OF step.hyps(2)]] c step.prems
  have "stage_of c \<le> stage_of b" by (metis ledger_step_forward option.inject order_refl)
  with step.IH [OF c] show ?case by (rule order_trans)
qed


section \<open>Properties\<close>

text \<open>
  (C4) Quota bounds what is executed. When Kueue starts a run only while the demand of its pod
  sets fits beside the demands held by started runs that are not finished, then in every
  reachable state the runs that Tekton executes (\<open>spec.status\<close> empty and not finished) are
  finitely many, their pod sets together request no more of any resource than its limit, and
  there are at most as many of them as the limit on the concurrency token: however runs are
  created, stopped, cancelled, reported and deleted in between, and whatever the CEL
  expressions and the users' annotations ask for.
\<close>

theorem quota_bounds_execution:
  assumes "done_by_conditions TS" and "amt (MustParse Q ''1'') = 1"
    and "(quota_step amt limit C V T Y TS Q nf)\<^sup>*\<^sup>* init_cluster s"
  shows "finite (executed TS s) \<and> card (executed TS s) \<le> limit ResourcePipelineRunCount \<and>
    (\<forall>r. (\<Sum>k \<in> executed TS s. podset_total amt (the (started s k)) r) \<le> limit r)"
proof -
  have init: "done_by_conditions TS \<and> cluster_ok C V T Q init_cluster"
    using assms(1) by (simp add: cluster_ok_init)
  have ok: "cluster_ok C V T Q s" using queueing.inv_steps [OF assms(3) init] by simp
  have "ledger_ok (podset_total amt) limit (phases TS s)"
    by (rule queueing.transfers [OF assms(3) init]) (auto simp: phases_init ledger_ok_empty intro: ledger_step_ok)
  from ledger_bounds_executed [OF ok this] assms(2) show ?thesis by blast
qed

text \<open>
  (C5) The composed system refines the ledger. From every reachable state on, whatever happens
  under quota is seen as a sequence of ledger steps: a run arrives queued, is started when
  its demand fits, keeps its demand while it is stopped, ends, and is removed. In particular
  a run that is newly stored is queued, and no run ever runs that was not started; and as
  long as a run is not deleted it only moves forward from waiting to executing, leaving and
  over.
\<close>

theorem system_refines_ledger:
  assumes "done_by_conditions TS" and "cluster_reachable C V T Y TS Q nf s"
    and "(quota_step amt limit C V T Y TS Q nf)\<^sup>*\<^sup>* s t"
  shows "(ledger_step (podset_total amt) limit)\<^sup>*\<^sup>* (phases TS s) (phases TS t) \<and>
    Loose \<notin> ran (phases TS t) \<and>
    (\<forall>u k. quota_step amt limit C V T Y TS Q nf t u \<and> objects t k = None \<and> objects u k \<noteq> None \<longrightarrow>
       phases TS u k = Some Queued) \<and>
    (\<forall>k a b. (\<lambda>u v. quota_step amt limit C V T Y TS Q nf u v \<and> objects v k \<noteq> None)\<^sup>*\<^sup>* s t \<longrightarrow>
       phases TS s k = Some a \<longrightarrow> phases TS t k = Some b \<longrightarrow> stage_of a \<le> stage_of b)"
proof (intro conjI allI impI)
  note ok = conjI [OF assms(1) cluster_reachable_ok [OF assms(2)]]
  note ok' = queueing.inv_steps [OF assms(3) ok]
  show "(ledger_step (podset_total amt) limit)\<^sup>*\<^sup>* (phases TS s) (phases TS t)"
    using assms(3) ok by (rule queueing.refines)
  show "Loose \<notin> ran (phases TS t)" using ok' by (intro no_loose_run) blast
  show "phases TS u k = Some Queued"
    if "quota_step amt limit C V T Y TS Q nf t u \<and> objects t k = None \<and> objects u k \<noteq> None" for u k
    using quota_step_new [OF ok' conjunct1 [OF that]] that by blast
  fix k a b
  assume "(\<lambda>u v. quota_step amt limit C V T Y TS Q nf u v \<and> objects v k \<noteq> None)\<^sup>*\<^sup>* s t"
    and "phases TS s k = Some a" "phases TS t k = Some b"
  with ok show "stage_of a \<le> stage_of b" by (rule kept_run_forward)
qed

text \<open>The sample run, admitted and started under a quota of one run at a time.\<close>

abbreviation sample_quota_step :: "(unit, int) cluster \<Rightarrow> (unit, int) cluster \<Rightarrow> bool" where
  "sample_quota_step \<equiv> quota_step nat (\<lambda>r. 1) sample_cel sample_validation sample_tekton plain_yaml sample_status
     sample_quantities (\<lambda>_. False)"

lemma sample_done: "done_by_conditions sample_status"
  by (simp add: done_by_conditions_def sample_status_def)

lemma sample_unfinished [simp]: "\<not> finished sample_status p"
  using finished_iff_done [OF sample_done, of p] by (simp add: sample_status_def)

lemma quota_stepI:
  assumes "cluster_step C V T Y TS Q nf s t" "\<And>k. started s k = None \<Longrightarrow> started t k = None"
  shows "quota_step amt limit C V T Y TS Q nf s t"
  using assms by (auto simp: quota_step_def)

lemma sample_quota_started:
  obtains q s :: "(unit, int) cluster" and ps where "sample_quota_step\<^sup>*\<^sup>* init_cluster q"
    "phases sample_status q ''run'' = Some Queued" "sample_quota_step q s"
    "phases sample_status s ''run'' = Some (Running ps)" "''run'' \<in> executed sample_status s"
proof -
  obtain s1 s2 :: "(unit, int) cluster" and p where s: "sample_cluster_step init_cluster s1"
    "sample_cluster_step s1 s2" "started s1 = Map.empty" "started s2 = Map.empty"
    "objects s2 = [''run'' \<mapsto> p]" "IsSuspended p" "Annotations p = None" by (rule sample_created)
  obtain ps where ps: "PodSets sample_quantities [] = Inr ps" "\<And>r. podset_total nat ps r \<le> 1"
    by (simp add: PodSets_def resourcesRequests_def podset_total_def)
  let ?s3 = "s2\<lparr>objects := (objects s2)(''run'' \<mapsto> p\<lparr>SpecStatus := []\<rparr>), started := (started s2)(''run'' \<mapsto> ps)\<rparr>"
  have "sample_cluster_step s2 ?s3"
    using s(5-7) ps(1) by (intro cluster_step.start [where kvs = "[]"]) (simp_all add: enumerates_def RunWithPodSetsInfo_def)
  moreover have queued: "phases sample_status s2 k = (if k = ''run'' then Some Queued else None)" for k
    using s(5,6) by (simp add: phases_def phase_of_def)
  then have "holders (phases sample_status s2) = {}" by (auto simp: holders_def split: if_splits)
  ultimately have 3: "sample_quota_step s2 ?s3"
    using ps(2) by (auto simp: quota_step_def used_def split: if_splits)
  have 1: "sample_quota_step init_cluster s1" using s(1,3) by (intro quota_stepI) simp_all
  have 2: "sample_quota_step s1 s2" using s(2,4) by (intro quota_stepI) simp_all
  from 1 2 have "sample_quota_step\<^sup>*\<^sup>* init_cluster s2" by (meson r_into_rtranclp rtranclp.rtrancl_into_rtrancl)
  moreover have "phases sample_status s2 ''run'' = Some Queued" by (simp add: queued)
  moreover note 3
  ultimately show thesis
    by (rule that [where ps = ps])
      (simp_all add: executed_def phases_def phase_of_def IsSuspended_def PipelineRunSpecStatusPending_def)
qed

theorem quota_bounds_execution_witness:
  "\<exists>s :: (unit, int) cluster. sample_quota_step\<^sup>*\<^sup>* init_cluster s \<and> card (executed sample_status s) = 1"
proof -
  obtain q s :: "(unit, int) cluster" where q: "sample_quota_step\<^sup>*\<^sup>* init_cluster q" "sample_quota_step q s"
    and run: "''run'' \<in> executed sample_status s" by (rule sample_quota_started)
  from q have s: "sample_quota_step\<^sup>*\<^sup>* init_cluster s" by (rule rtranclp.rtrancl_into_rtrancl)
  have "nat (MustParse sample_quantities ''1'') = 1" by simp
  from quota_bounds_execution [OF sample_done this s] s run show ?thesis
    by (metis One_nat_def card_0_eq empty_iff le_SucE le_zero_eq)
qed

theorem system_refines_ledger_witness:
  "\<exists>(s :: (unit, int) cluster) t ps. sample_quota_step\<^sup>*\<^sup>* init_cluster s \<and> sample_quota_step s t \<and>
     phases sample_status s ''run'' = Some Queued \<and> phases sample_status t ''run'' = Some (Running ps) \<and>
     (ledger_step (podset_total nat) (\<lambda>r. 1))\<^sup>*\<^sup>* (phases sample_status s) (phases sample_status t) \<and>
     stage_of (Queued :: int podSet list phase) \<le> stage_of (Running ps)"
proof -
  obtain s t :: "(unit, int) cluster" and ps where s: "sample_quota_step\<^sup>*\<^sup>* init_cluster s"
    "phases sample_status s ''run'' = Some Queued" "sample_quota_step s t"
    "phases sample_status t ''run'' = Some (Running ps)" by (rule sample_quota_started)
  have "sample_cluster_step\<^sup>*\<^sup>* init_cluster s"
    using s(1) by (rule mono_rtranclp [rule_format, rotated]) (rule quota_step_cluster)
  note refines = system_refines_ledger [OF sample_done this r_into_rtranclp, OF s(3)]
  have "(\<lambda>u v. sample_quota_step u v \<and> objects v ''run'' \<noteq> None)\<^sup>*\<^sup>* s t"
    using s(3,4) by (intro r_into_rtranclp) (auto simp: phases_def)
  with refines s show ?thesis by blast
qed

end
