(* ===== verification/GoJson.thy ===== *)
theory GoJson
  imports GoStrings
begin

text \<open>
  The part of Go's package \<^verbatim>\<open>encoding/json\<close> that the mutation types use: \<open>json.Marshal\<close> of
  a string and \<open>json.Unmarshal\<close> into a string. \<open>Unmarshal\<close> first runs the byte-driven
  scanner over the whole input (\<open>checkValid\<close>), so any malformed document is a syntax error,
  and only then looks at the value. The theory shows that \<open>Unmarshal\<close> never reaches the
  panic behind a failed \<open>unquote\<close>, and that it reads back what \<open>Marshal\<close> wrote, up to the
  replacement of bytes that are no UTF-8.
\<close>

section \<open>Encoding a string\<close>

definition hex_digit :: "nat \<Rightarrow> char" where
  "hex_digit d = char_of (if d < 10 then 48 + d else 87 + d)"

text \<open>
  \<open>htmlSafeSet\<close>: the ASCII bytes written as they are. Control characters, the quote and the
  backslash are escaped, and so are the three characters with a meaning in HTML.
\<close>

definition html_safe :: "char \<Rightarrow> bool" where
  "html_safe c \<longleftrightarrow> 0x20 \<le> byte c \<and> byte c < 0x80 \<and>
     c \<notin> {CHR 0x22, CHR 0x5C, CHR ''<'', CHR ''>'', CHR ''&''}"

definition escape_ascii :: "char \<Rightarrow> string" where
  "escape_ascii c =
     (if c = CHR 0x5C \<or> c = CHR 0x22 then [CHR 0x5C, c]
      else if c = CHR 0x08 then [CHR 0x5C, CHR ''b'']
      else if c = CHR 0x0C then [CHR 0x5C, CHR ''f'']
      else if c = CHR 0x0A then [CHR 0x5C, CHR ''n'']
      else if c = CHR 0x0D then [CHR 0x5C, CHR ''r'']
      else if c = CHR 0x09 then [CHR 0x5C, CHR ''t'']
      else [CHR 0x5C, CHR ''u'', CHR ''0'', CHR ''0'',
            hex_digit (byte c div 16), hex_digit (byte c mod 16)])"

text \<open>One code point as \<open>explode_runes\<close> cuts it: a byte that starts none stands alone.\<close>

definition replacement_char :: string where
  "replacement_char = [CHR 0xEF, CHR 0xBF, CHR 0xBD]"

definition encode_rune_json :: "string \<Rightarrow> string" where
  "encode_rune_json r =
     (case r of
        [c] \<Rightarrow> (if byte c < 0x80 then (if html_safe c then [c] else escape_ascii c)
                else CHR 0x5C # ''ufffd'')
      | _ \<Rightarrow> (if r = [CHR 0xE2, CHR 0x80, CHR 0xA8] then CHR 0x5C # ''u2028''
             else if r = [CHR 0xE2, CHR 0x80, CHR 0xA9] then CHR 0x5C # ''u2029''
             else r))"

definition json_Marshal_string :: "string \<Rightarrow> bytes" where
  "json_Marshal_string s =
     CHR 0x22 # concat (map encode_rune_json (explode_runes s)) @ [CHR 0x22]"


section \<open>The scanner\<close>

text \<open>
  The states of \<open>scanner.step\<close>; \<open>InStringEscU n\<close> waits for \<open>n\<close> more hexadecimal digits and
  \<open>Lit\<close> for the rest of \<open>true\<close>, \<open>false\<close> or \<open>null\<close>. The stack holds what each open object or
  array expects next.
\<close>

datatype scan_step =
    BeginValue | BeginValueOrEmpty | BeginStringOrEmpty | BeginString
  | EndValue | EndTop | InString | InStringEsc | InStringEscU nat
  | Neg | S1 | S0 | Dot | Dot0 | Exp | ExpSign | Exp0 | Lit string

datatype parse_state = ParseObjectKey | ParseObjectValue | ParseArrayValue

type_synonym scanner = "scan_step \<times> parse_state list"

definition json_space :: "char \<Rightarrow> bool" where
  "json_space c \<longleftrightarrow> c \<in> {CHR '' '', CHR 0x09, CHR 0x0D, CHR 0x0A}"

definition dec_digit :: "char \<Rightarrow> bool" where
  "dec_digit c \<longleftrightarrow> 48 \<le> byte c \<and> byte c \<le> 57"

definition hex_value :: "char \<Rightarrow> nat option" where
  "hex_value c =
     (if 48 \<le> byte c \<and> byte c \<le> 57 then Some (byte c - 48)
      else if 97 \<le> byte c \<and> byte c \<le> 102 then Some (byte c - 87)
      else if 65 \<le> byte c \<and> byte c \<le> 70 then Some (byte c - 55)
      else None)"

definition maxNestingDepth :: nat where
  "maxNestingDepth = 10000"

definition push_state :: "scan_step \<Rightarrow> parse_state \<Rightarrow> parse_state list \<Rightarrow> scanner option" where
  "push_state st p ps = (if length ps < maxNestingDepth then Some (st, p # ps) else None)"

definition pop_state :: "parse_state list \<Rightarrow> scanner option" where
  "pop_state ps = Some (if tl ps = [] then EndTop else EndValue, tl ps)"

definition end_top :: "char \<Rightarrow> scanner option" where
  "end_top c = (if json_space c then Some (EndTop, []) else None)"

definition end_value :: "parse_state list \<Rightarrow> char \<Rightarrow> scanner option" where
  "end_value ps c =
     (case ps of
        [] \<Rightarrow> end_top c
      | p # qs \<Rightarrow>
          if json_space c then Some (EndValue, ps)
          else case p of
            ParseObjectKey \<Rightarrow> if c = CHR '':'' then Some (BeginValue, ParseObjectValue # qs) else None
          | ParseObjectValue \<Rightarrow>
              if c = CHR '','' then Some (BeginString, ParseObjectKey # qs)
              else if c = CHR ''}'' then pop_state ps else None
          | ParseArrayValue \<Rightarrow>
              if c = CHR '','' then Some (BeginValue, ps)
              else if c = CHR '']'' then pop_state ps else None)"

definition begin_value :: "parse_state list \<Rightarrow> char \<Rightarrow> scanner option" where
  "begin_value ps c =
     (if json_space c then Some (BeginValue, ps)
      else if c = CHR ''{'' then push_state BeginStringOrEmpty ParseObjectKey ps
      else if c = CHR ''['' then push_state BeginValueOrEmpty ParseArrayValue ps
      else if c = CHR 0x22 then Some (InString, ps)
      else if c = CHR ''-'' then Some (Neg, ps)
      else if c = CHR ''0'' then Some (S0, ps)
      else if c = CHR ''t'' then Some (Lit ''rue'', ps)
      else if c = CHR ''f'' then Some (Lit ''alse'', ps)
      else if c = CHR ''n'' then Some (Lit ''ull'', ps)
      else if dec_digit c then Some (S1, ps)
      else None)"

definition begin_string :: "parse_state list \<Rightarrow> char \<Rightarrow> scanner option" where
  "begin_string ps c =
     (if json_space c then Some (BeginString, ps)
      else if c = CHR 0x22 then Some (InString, ps) else None)"

definition after_int :: "parse_state list \<Rightarrow> char \<Rightarrow> scanner option" where
  "after_int ps c =
     (if c = CHR ''.'' then Some (Dot, ps)
      else if c = CHR ''e'' \<or> c = CHR ''E'' then Some (Exp, ps)
      else end_value ps c)"

definition e_sign :: "parse_state list \<Rightarrow> char \<Rightarrow> scanner option" where
  "e_sign ps c = (if dec_digit c then Some (Exp0, ps) else None)"

fun scan_byte :: "scanner \<Rightarrow> char \<Rightarrow> scanner option" where
  "scan_byte (BeginValue, ps) c = begin_value ps c"
| "scan_byte (BeginValueOrEmpty, ps) c =
     (if json_space c then Some (BeginValueOrEmpty, ps)
      else if c = CHR '']'' then end_value ps c else begin_value ps c)"
| "scan_byte (BeginStringOrEmpty, ps) c =
     (if json_space c then Some (BeginStringOrEmpty, ps)
      else if c = CHR ''}'' then end_value (ParseObjectValue # tl ps) c else begin_string ps c)"
| "scan_byte (BeginString, ps) c = begin_string ps c"
| "scan_byte (EndValue, ps) c = end_value ps c"
| "scan_byte (EndTop, ps) c = end_top c"
| "scan_byte (InString, ps) c =
     (if c = CHR 0x22 then Some (EndValue, ps)
      else if c = CHR 0x5C then Some (InStringEsc, ps)
      else if byte c < 0x20 then None
      else Some (InString, ps))"
| "scan_byte (InStringEsc, ps) c =
     (if c \<in> {CHR ''b'', CHR ''f'', CHR ''n'', CHR ''r'', CHR ''t'', CHR 0x5C, CHR ''/'', CHR 0x22}
      then Some (InString, ps)
      else if c = CHR ''u'' then Some (InStringEscU 4, ps)
      else None)"
| "scan_byte (InStringEscU n, ps) c =
     (if hex_value c = None then None
      else Some (if n \<le> 1 then InString else InStringEscU (n - 1), ps))"
| "scan_byte (Neg, ps) c =
     (if c = CHR ''0'' then Some (S0, ps) else if dec_digit c then Some (S1, ps) else None)"
| "scan_byte (S1, ps) c = (if dec_digit c then Some (S1, ps) else after_int ps c)"
| "scan_byte (S0, ps) c = after_int ps c"
| "scan_byte (Dot, ps) c = (if dec_digit c then Some (Dot0, ps) else None)"
| "scan_byte (Dot0, ps) c =
     (if dec_digit c then Some (Dot0, ps)
      else if c = CHR ''e'' \<or> c = CHR ''E'' then Some (Exp, ps)
      else end_value ps c)"
| "scan_byte (Exp, ps) c =
     (if c = CHR ''+'' \<or> c = CHR ''-'' then Some (ExpSign, ps) else e_sign ps c)"
| "scan_byte (ExpSign, ps) c = e_sign ps c"
| "scan_byte (Exp0, ps) c = (if dec_digit c then Some (Exp0, ps) else end_value ps c)"
| "scan_byte (Lit w, ps) c =
     (case w of
        [] \<Rightarrow> None
      | x # xs \<Rightarrow>
          if c = x then Some (if xs = [] then EndValue else Lit xs, ps) else None)"

fun scan_bytes :: "scanner \<Rightarrow> bytes \<Rightarrow> scanner option" where
  "scan_bytes sc [] = Some sc"
| "scan_bytes sc (c # cs) = (case scan_byte sc c of None \<Rightarrow> None | Some sc' \<Rightarrow> scan_bytes sc' cs)"

text \<open>\<open>scanner.eof\<close> feeds one space to a value that may still be open, such as a number.\<close>

definition scan_eof :: "scanner \<Rightarrow> bool" where
  "scan_eof sc =
     (fst sc = EndTop \<or>
      (case scan_byte sc (CHR '' '') of None \<Rightarrow> False | Some sc' \<Rightarrow> fst sc' = EndTop))"

definition checkValid :: "bytes \<Rightarrow> bool" where
  "checkValid b =
     (case scan_bytes (BeginValue, []) b of None \<Rightarrow> False | Some sc \<Rightarrow> scan_eof sc)"


section \<open>Decoding into a string\<close>

text \<open>\<open>utf8.AppendRune\<close> of a code point that is no surrogate half.\<close>

definition encode_utf8 :: "nat \<Rightarrow> string" where
  "encode_utf8 u =
     map char_of
       (if u < 0x80 then [u]
        else if u < 0x800 then [0xC0 + u div 64, 0x80 + u mod 64]
        else if u < 0x10000 then [0xE0 + u div 4096, 0x80 + u div 64 mod 64, 0x80 + u mod 64]
        else [0xF0 + u div 262144, 0x80 + u div 4096 mod 64, 0x80 + u div 64 mod 64,
              0x80 + u mod 64])"

text \<open>\<open>getu4\<close> reads \<open>\uXXXX\<close> at the front of its argument.\<close>

fun hex4 :: "string \<Rightarrow> nat option" where
  "hex4 (a # b # c # d # cs) =
     (case (hex_value a, hex_value b, hex_value c, hex_value d) of
        (Some w, Some x, Some y, Some z) \<Rightarrow> Some (((w * 16 + x) * 16 + y) * 16 + z)
      | _ \<Rightarrow> None)"
| "hex4 _ = None"

definition getu4 :: "string \<Rightarrow> nat option" where
  "getu4 s = (if take 2 s = [CHR 0x5C, CHR ''u''] then hex4 (drop 2 s) else None)"

text \<open>
  The code point of an escape \<open>\uXXXX\<close> with the number of bytes after the first escape that
  it takes: a high surrogate and a low one make a pair, any other surrogate half is replaced.
\<close>

definition escape_rune :: "nat \<Rightarrow> string \<Rightarrow> string \<times> nat" where
  "escape_rune u cs =
     (if 0xD800 \<le> u \<and> u < 0xE000 then
        (case getu4 cs of
           Some v \<Rightarrow>
             (if u < 0xDC00 \<and> 0xDC00 \<le> v \<and> v < 0xE000
              then (encode_utf8 ((u - 0xD800) * 1024 + (v - 0xDC00) + 0x10000), 6)
              else (replacement_char, 0))
         | None \<Rightarrow> (replacement_char, 0))
      else (encode_utf8 u, 0))"

definition simple_escape :: "char \<Rightarrow> char option" where
  "simple_escape c =
     (if c \<in> {CHR 0x22, CHR 0x5C, CHR ''/'', CHR 0x27} then Some c
      else if c = CHR ''b'' then Some (CHR 0x08)
      else if c = CHR ''f'' then Some (CHR 0x0C)
      else if c = CHR ''n'' then Some (CHR 0x0A)
      else if c = CHR ''r'' then Some (CHR 0x0D)
      else if c = CHR ''t'' then Some (CHR 0x09)
      else None)"

text \<open>\<open>unquoteBytes\<close>, from behind the opening quote to the closing one.\<close>

function unquote :: "string \<Rightarrow> string option" where
  "unquote s =
     (case s of
        [] \<Rightarrow> None
      | c # cs \<Rightarrow>
          if c = CHR 0x22 then Some []
          else if c = CHR 0x5C then
            (case cs of
               [] \<Rightarrow> None
             | d # ds \<Rightarrow>
                 if d = CHR ''u'' then
                   (case hex4 ds of
                      None \<Rightarrow> None
                    | Some u \<Rightarrow>
                        map_option ((@) (fst (escape_rune u (drop 4 ds))))
                          (unquote (drop (snd (escape_rune u (drop 4 ds))) (drop 4 ds))))
                 else (case simple_escape d of
                         None \<Rightarrow> None
                       | Some x \<Rightarrow> map_option ((#) x) (unquote ds)))
          else if byte c < 0x20 then None
          else if byte c < 0x80 then map_option ((#) c) (unquote cs)
          else map_option ((@) (if rune_size s = 1 then replacement_char else take (rune_size s) s))
                 (unquote (drop (rune_size s) s)))"
  by pat_completeness auto
termination
  by (relation "measure length") (auto simp: rune_size_pos)

declare unquote.simps [simp del]

lemma unquote_Nil: "unquote [] = None"
  by (subst unquote.simps) simp

lemma unquote_quote: "unquote (CHR 0x22 # cs) = Some []"
  by (subst unquote.simps) simp

lemma unquote_u:
  "unquote (CHR 0x5C # CHR ''u'' # ds) =
     (case hex4 ds of
        None \<Rightarrow> None
      | Some u \<Rightarrow>
          map_option ((@) (fst (escape_rune u (drop 4 ds))))
            (unquote (drop (snd (escape_rune u (drop 4 ds))) (drop 4 ds))))"
  by (subst unquote.simps) simp

lemma unquote_escape:
  "d \<noteq> CHR ''u'' \<Longrightarrow> unquote (CHR 0x5C # d # ds) =
     (case simple_escape d of None \<Rightarrow> None | Some x \<Rightarrow> map_option ((#) x) (unquote ds))"
  by (subst unquote.simps) simp

lemma unquote_ascii:
  "c \<noteq> CHR 0x22 \<Longrightarrow> c \<noteq> CHR 0x5C \<Longrightarrow> 0x20 \<le> byte c \<Longrightarrow> byte c < 0x80 \<Longrightarrow>
     unquote (c # cs) = map_option ((#) c) (unquote cs)"
  by (subst unquote.simps) simp

lemma unquote_wide:
  assumes "0x80 \<le> byte c"
  shows "unquote (c # cs) =
     map_option ((@) (if rune_size (c # cs) = 1 then replacement_char
                      else take (rune_size (c # cs)) (c # cs)))
       (unquote (drop (rune_size (c # cs)) (c # cs)))"
proof -
  have "c \<noteq> CHR 0x22" "c \<noteq> CHR 0x5C" "\<not> byte c < 0x20" "\<not> byte c < 0x80"
    using assms by (auto simp: byte_def)
  then show ?thesis by (subst unquote.simps) (simp only: list.case if_False if_True refl)
qed

lemmas unquote_rules = unquote_Nil unquote_quote unquote_u unquote_escape unquote_ascii

text \<open>
  \<open>json.Unmarshal\<close> into a variable that holds \<open>old\<close>: \<open>null\<close> leaves it alone, a string
  replaces it, any other value is a type error. A literal that passed the scanner and fails
  to unquote would be a panic.
\<close>

definition json_Unmarshal_string :: "bytes \<Rightarrow> string \<Rightarrow> string result outcome" where
  "json_Unmarshal_string b old =
     (if \<not> checkValid b then Ret (Inl (LibError ''json: SyntaxError''))
      else case dropWhile json_space b of
             [] \<Rightarrow> Ret (Inl (LibError ''json: SyntaxError''))
           | c # cs \<Rightarrow>
               if c = CHR 0x22 then
                 (case unquote cs of
                    None \<Rightarrow> Panic ''JSON decoder out of sync - data changing underfoot?''
                  | Some s \<Rightarrow> Ret (Inr s))
               else if c = CHR ''n'' then Ret (Inr old)
               else Ret (Inl (LibError ''json: UnmarshalTypeError'')))"


section \<open>Code points as the encoder cuts them\<close>

lemma byte_at_prefix:
  "i < n \<Longrightarrow> n \<le> length s \<Longrightarrow> byte_at (take n s @ t) i lo hi = byte_at s i lo hi"
  by (auto simp: byte_at_def nth_append)

definition enc2 :: "string \<Rightarrow> bool" where
  "enc2 s \<longleftrightarrow> byte_at s 0 0xC2 0xDF \<and> byte_at s 1 0x80 0xBF"

definition enc3 :: "string \<Rightarrow> bool" where
  "enc3 s \<longleftrightarrow> (byte_at s 0 0xE0 0xE0 \<and> byte_at s 1 0xA0 0xBF
               \<or> byte_at s 0 0xE1 0xEC \<and> byte_at s 1 0x80 0xBF
               \<or> byte_at s 0 0xED 0xED \<and> byte_at s 1 0x80 0x9F
               \<or> byte_at s 0 0xEE 0xEF \<and> byte_at s 1 0x80 0xBF)
              \<and> byte_at s 2 0x80 0xBF"

definition enc4 :: "string \<Rightarrow> bool" where
  "enc4 s \<longleftrightarrow> (byte_at s 0 0xF0 0xF0 \<and> byte_at s 1 0x90 0xBF
               \<or> byte_at s 0 0xF1 0xF3 \<and> byte_at s 1 0x80 0xBF
               \<or> byte_at s 0 0xF4 0xF4 \<and> byte_at s 1 0x80 0x8F)
              \<and> byte_at s 2 0x80 0xBF \<and> byte_at s 3 0x80 0xBF"

lemma rune_size_enc:
  "rune_size s =
     (if s = [] then 0 else if enc2 s then 2 else if enc3 s then 3 else if enc4 s then 4 else 1)"
  by (simp only: rune_size_def enc2_def enc3_def enc4_def)

lemma enc_prefix:
  "2 \<le> n \<Longrightarrow> n \<le> length s \<Longrightarrow> enc2 (take n s @ t) = enc2 s"
  "3 \<le> n \<Longrightarrow> n \<le> length s \<Longrightarrow> enc3 (take n s @ t) = enc3 s"
  "4 \<le> n \<Longrightarrow> n \<le> length s \<Longrightarrow> enc4 (take n s @ t) = enc4 s"
  by (simp_all add: enc2_def enc3_def enc4_def byte_at_prefix)

lemma byte_atD: "byte_at s i lo hi \<Longrightarrow> 0x80 \<le> lo \<Longrightarrow> Suc i \<le> length s \<and> 0x80 \<le> byte (s ! i)"
  by (simp add: byte_at_def)

lemma enc_bytes:
  "enc2 s \<Longrightarrow> 2 \<le> length s \<and> 0x80 \<le> byte (s ! 0) \<and> 0x80 \<le> byte (s ! 1)"
  "enc3 s \<Longrightarrow> 3 \<le> length s \<and> 0x80 \<le> byte (s ! 0) \<and> 0x80 \<le> byte (s ! 1) \<and> 0x80 \<le> byte (s ! 2)"
  "enc4 s \<Longrightarrow> 4 \<le> length s \<and> 0x80 \<le> byte (s ! 0) \<and> 0x80 \<le> byte (s ! 1) \<and>
     0x80 \<le> byte (s ! 2) \<and> 0x80 \<le> byte (s ! 3)"
  unfolding enc2_def enc3_def enc4_def by (elim conjE disjE; drule byte_atD; auto dest: byte_atD)+

lemma rune_size_cases:
  obtains (0) "rune_size s = 0" "s = []" | (1) "rune_size s = 1" "s \<noteq> []"
    | (2) "rune_size s = 2" "enc2 s"
    | (3) "rune_size s = 3" "enc3 s" "\<not> enc2 s"
    | (4) "rune_size s = 4" "enc4 s" "\<not> enc2 s" "\<not> enc3 s"
  using rune_size_enc [of s] by (simp split: if_splits)

lemma rune_size_le: "rune_size s \<le> length s"
  by (cases s rule: rune_size_cases) (auto simp: Suc_leI dest: enc_bytes)

lemma rune_size_take_append:
  assumes "1 < rune_size s"
  shows "rune_size (take (rune_size s) s @ t) = rune_size s"
proof -
  have "s \<noteq> []" using assms by (auto simp: rune_size_enc)
  with assms rune_size_le [of s] show ?thesis
    by (cases s rule: rune_size_cases) (simp_all add: rune_size_enc [of "take _ s @ t"] enc_prefix)
qed

definition wide_rune :: "string \<Rightarrow> bool" where
  "wide_rune r \<longleftrightarrow> 2 \<le> length r \<and> list_all (\<lambda>c. 0x80 \<le> byte c) r \<and>
     (\<forall>t. rune_size (r @ t) = length r)"

lemma less_2_3_4:
  "(i :: nat) < 2 \<longleftrightarrow> i = 0 \<or> i = 1" "(i :: nat) < 3 \<longleftrightarrow> i = 0 \<or> i = 1 \<or> i = 2"
  "(i :: nat) < 4 \<longleftrightarrow> i = 0 \<or> i = 1 \<or> i = 2 \<or> i = 3"
  by auto

lemma wide_rune_take:
  assumes "1 < rune_size s"
  shows "wide_rune (take (rune_size s) s)"
proof -
  have "list_all (\<lambda>c. 0x80 \<le> byte c) (take (rune_size s) s)" using assms
    by (cases s rule: rune_size_cases) (auto simp: list_all_length less_2_3_4 dest: enc_bytes)
  with assms show ?thesis
    by (auto simp: wide_rune_def rune_size_take_append min_absorb2 [OF rune_size_le])
qed

lemma explode_runes_mem: "r \<in> set (explode_runes s) \<Longrightarrow> length r = 1 \<or> wide_rune r"
proof (induction s rule: explode_runes.induct)
  case (1 s)
  then have s: "s \<noteq> []" by auto
  have "length (take (rune_size s) s) = 1 \<or> wide_rune (take (rune_size s) s)"
    using s rune_size_pos [OF s] wide_rune_take [of s]
    by (cases "rune_size s = 1") (auto simp: neq_Nil_conv)
  with 1 s show ?case by (auto simp: explode_runes.simps [of s])
qed

lemma explode_runes_cases:
  assumes "r \<in> set (explode_runes s)"
  obtains (single) c where "r = [c]" | (wide) "wide_rune r"
  using explode_runes_mem [OF assms] by (auto simp: length_Suc_conv)

text \<open>
  What a reader of the JSON text gets for a string: \<open>strings.ToValidUTF8\<close> with the
  replacement character for each byte that starts no code point.
\<close>

definition valid_rune :: "string \<Rightarrow> string" where
  "valid_rune r = (case r of [c] \<Rightarrow> (if byte c < 0x80 then [c] else replacement_char) | _ \<Rightarrow> r)"

definition to_valid_utf8 :: "string \<Rightarrow> string" where
  "to_valid_utf8 s = concat (map valid_rune (explode_runes s))"

lemma rune_size_ascii: "byte c < 0x80 \<Longrightarrow> rune_size (c # cs) = 1"
  by (simp add: rune_size_def byte_at_def)

lemma to_valid_utf8_ascii: "list_all (\<lambda>c. byte c < 0x80) s \<Longrightarrow> to_valid_utf8 s = s"
proof (induction s)
  case (Cons c cs)
  then show ?case
    by (simp add: to_valid_utf8_def explode_runes.simps [of "c # cs"] rune_size_ascii valid_rune_def)
qed (simp add: to_valid_utf8_def)


section \<open>Reading back what was written\<close>

lemma hex_value_hex_digit: "d < 16 \<Longrightarrow> hex_value (hex_digit d) = Some d"
  by (simp add: hex_value_def hex_digit_def byte_def)

lemma byte_less: "byte c < 256"
  by (simp add: byte_def)

lemma byte_eq_iff: "c = d \<longleftrightarrow> byte c = byte d"
  by (simp add: byte_def)

lemma char_of_byte [simp]: "char_of (byte c) = c"
  by (simp add: byte_def)

lemma scan_bytes_append:
  "scan_bytes sc (xs @ ys) = (case scan_bytes sc xs of None \<Rightarrow> None | Some sc' \<Rightarrow> scan_bytes sc' ys)"
  by (induction sc xs rule: scan_bytes.induct) (auto split: option.splits)

lemma scan_bytes_wide:
  "list_all (\<lambda>c. 0x80 \<le> byte c) r \<Longrightarrow> scan_bytes (InString, ps) r = Some (InString, ps)"
  by (induction r) (auto simp: byte_def)

lemma hex_value_literals [simp]:
  "hex_value CHR ''0'' = Some 0" "hex_value CHR ''2'' = Some 2" "hex_value CHR ''8'' = Some 8"
  "hex_value CHR ''9'' = Some 9" "hex_value CHR ''d'' = Some 13" "hex_value CHR ''f'' = Some 15"
  by (simp_all add: hex_value_def byte_def)

lemma scan_escape_ascii:
  "byte c < 0x80 \<Longrightarrow> scan_bytes (InString, ps) (escape_ascii c) = Some (InString, ps)"
  by (simp add: escape_ascii_def hex_value_hex_digit)

lemma unquote_escape_ascii:
  assumes "byte c < 0x80"
  shows "unquote (escape_ascii c @ t) = map_option ((@) [c]) (unquote t)"
  using assms
  by (cases "unquote t")
    (simp_all add: escape_ascii_def unquote_rules simple_escape_def
      hex_value_hex_digit escape_rune_def encode_utf8_def)

lemma scan_encode_rune:
  assumes "r \<in> set (explode_runes s)"
  shows "scan_bytes (InString, ps) (encode_rune_json r) = Some (InString, ps)"
  using assms
proof (cases rule: explode_runes_cases)
  case (single c)
  then show ?thesis
    by (auto simp: encode_rune_json_def scan_escape_ascii html_safe_def)
next
  case wide
  then have "encode_rune_json r \<in> {r, CHR 0x5C # ''u2028'', CHR 0x5C # ''u2029''}"
    by (auto simp: encode_rune_json_def wide_rune_def split: list.splits)
  with wide show ?thesis by (auto simp: scan_bytes_wide wide_rune_def)
qed

lemma encode_rune_wide:
  "wide_rune r \<Longrightarrow> encode_rune_json r =
     (if r = [CHR 0xE2, CHR 0x80, CHR 0xA8] then CHR 0x5C # ''u2028''
      else if r = [CHR 0xE2, CHR 0x80, CHR 0xA9] then CHR 0x5C # ''u2029'' else r)"
  by (auto simp: encode_rune_json_def wide_rune_def split: list.split)

lemma unquote_wide_rune:
  assumes "wide_rune r"
  shows "unquote (r @ t) = map_option ((@) r) (unquote t)"
proof -
  from assms obtain c cs where r: "r = c # cs" "0x80 \<le> byte c" "cs \<noteq> []"
    by (cases r; cases "tl r") (auto simp: wide_rune_def)
  moreover have "rune_size (r @ t) = length r" using assms by (simp add: wide_rune_def)
  ultimately show ?thesis by (simp add: unquote_wide)
qed

lemma encode_utf8_literals:
  "encode_utf8 0xFFFD = replacement_char"
  "encode_utf8 0x2028 = [CHR 0xE2, CHR 0x80, CHR 0xA8]"
  "encode_utf8 0x2029 = [CHR 0xE2, CHR 0x80, CHR 0xA9]"
  by (simp_all add: encode_utf8_def replacement_char_def char_of_def bit_0)

lemma unquote_encode_rune:
  assumes "r \<in> set (explode_runes s)"
  shows "unquote (encode_rune_json r @ t) = map_option ((@) (valid_rune r)) (unquote t)"
  using assms
proof (cases rule: explode_runes_cases)
  case (single c)
  have "unquote (c # t) = map_option ((@) [c]) (unquote t)" if "html_safe c"
    using that by (cases "unquote t") (simp_all add: html_safe_def unquote_ascii)
  moreover have "unquote (CHR 0x5C # ''ufffd'' @ t) = map_option ((@) replacement_char) (unquote t)"
    by (simp add: unquote_u escape_rune_def encode_utf8_literals)
  ultimately show ?thesis using single
    by (auto simp: encode_rune_json_def valid_rune_def unquote_escape_ascii [simplified])
next
  case wide
  then have v: "valid_rune r = r"
    by (auto simp: valid_rune_def wide_rune_def split: list.splits)
  show ?thesis
    using v unquote_wide_rune [OF wide, of t]
    by (simp add: encode_rune_wide [OF wide] unquote_u
        escape_rune_def encode_utf8_literals)
qed

lemma concat_explode_ind:
  assumes "\<And>r t. r \<in> set rs \<Longrightarrow> f (g r @ t) = map_option ((@) (h r)) (f t)"
  shows "f (concat (map g rs) @ t) = map_option ((@) (concat (map h rs))) (f t)"
  using assms
  by (induction rs) (cases "f t"; simp)+

lemma unquote_Marshal:
  "unquote (concat (map encode_rune_json (explode_runes s)) @ [CHR 0x22]) = Some (to_valid_utf8 s)"
  using concat_explode_ind [of "explode_runes s" unquote encode_rune_json valid_rune "[CHR 0x22]"]
  by (simp add: unquote_encode_rune unquote_quote to_valid_utf8_def)

lemma scan_concat_runes:
  "set rs \<subseteq> set (explode_runes s) \<Longrightarrow>
   scan_bytes (InString, ps) (concat (map encode_rune_json rs)) = Some (InString, ps)"
  by (induction rs) (auto simp: scan_bytes_append scan_encode_rune)

lemma json_space_literals [simp]:
  "json_space CHR '' ''" "\<not> json_space CHR 0x22" "\<not> json_space CHR ''n''"
  by (simp_all add: json_space_def)

lemma checkValid_Marshal: "checkValid (json_Marshal_string s)"
  by (simp add: checkValid_def json_Marshal_string_def begin_value_def scan_bytes_append
      scan_concat_runes [where s = s] scan_eof_def end_value_def end_top_def)

lemma json_Unmarshal_Marshal:
  "json_Unmarshal_string (json_Marshal_string s) old = Ret (Inr (to_valid_utf8 s))"
  using checkValid_Marshal [of s] unquote_Marshal [of s]
  by (simp add: json_Unmarshal_string_def json_Marshal_string_def)


section \<open>A scanned literal can be unquoted\<close>

lemma scan_EscU:
  assumes "scan_bytes (InStringEscU n, ps) ds = Some sc" "scan_eof sc"
  obtains d ds' x where "ds = d # ds'" "hex_value d = Some x"
    "scan_bytes (if n \<le> 1 then InString else InStringEscU (n - 1), ps) ds' = Some sc"
proof (cases ds)
  case Nil
  with assms show thesis by (auto simp: scan_eof_def hex_value_def byte_def)
next
  case (Cons d ds')
  with assms that show thesis by (cases "hex_value d") auto
qed

lemma scan_bytes_hex4:
  assumes "scan_bytes (InStringEscU 4, ps) ds = Some sc" "scan_eof sc"
  shows "hex4 ds \<noteq> None \<and> scan_bytes (InString, ps) (drop 4 ds) = Some sc"
proof -
  from assms obtain a as w where a: "ds = a # as" "hex_value a = Some w"
    "scan_bytes (InStringEscU 3, ps) as = Some sc" by (rule scan_EscU) simp
  from a(3) assms(2) obtain b bs x where b: "as = b # bs" "hex_value b = Some x"
    "scan_bytes (InStringEscU 2, ps) bs = Some sc" by (rule scan_EscU) simp
  from b(3) assms(2) obtain c cs y where c: "bs = c # cs" "hex_value c = Some y"
    "scan_bytes (InStringEscU 1, ps) cs = Some sc" by (rule scan_EscU) simp
  from c(3) assms(2) obtain d es z where d: "cs = d # es" "hex_value d = Some z"
    "scan_bytes (InString, ps) es = Some sc" by (rule scan_EscU) simp
  from a b c d show ?thesis by simp
qed

lemma scan_InString:
  assumes "scan_bytes (InString, ps) s = Some sc" "scan_eof sc"
  obtains (quote) cs where "s = CHR 0x22 # cs"
    | (u) ds where "s = CHR 0x5C # CHR ''u'' # ds" "hex4 ds \<noteq> None"
        "scan_bytes (InString, ps) (drop 4 ds) = Some sc"
    | (escape) d ds where "s = CHR 0x5C # d # ds" "d \<noteq> CHR ''u''" "simple_escape d \<noteq> None"
        "scan_bytes (InString, ps) ds = Some sc"
    | (plain) c cs where "s = c # cs" "c \<noteq> CHR 0x22" "c \<noteq> CHR 0x5C" "0x20 \<le> byte c"
        "scan_bytes (InString, ps) cs = Some sc"
proof (cases s)
  case Nil
  with assms show thesis by (auto simp: scan_eof_def byte_def)
next
  case (Cons c cs)
  consider "c = CHR 0x22" | "c = CHR 0x5C" | "c \<noteq> CHR 0x22" "c \<noteq> CHR 0x5C" by blast
  then show thesis
  proof cases
    case 1
    with Cons quote show thesis by simp
  next
    case 2
    with assms Cons have esc: "scan_bytes (InStringEsc, ps) cs = Some sc" by simp
    with assms(2) obtain d ds where cs: "cs = d # ds"
      by (cases cs) (auto simp: scan_eof_def)
    show thesis
    proof (cases "d = CHR ''u''")
      case True
      with esc cs have "scan_bytes (InStringEscU 4, ps) ds = Some sc" by simp
      from scan_bytes_hex4 [OF this assms(2)] True Cons 2 cs u show thesis by simp
    next
      case False
      with esc cs have "scan_bytes (InString, ps) ds = Some sc" "simple_escape d \<noteq> None"
        by (auto simp: simple_escape_def split: if_splits)
      with False Cons 2 cs escape show thesis by simp
    qed
  next
    case 3
    with assms Cons plain show thesis by (auto split: if_splits)
  qed
qed

text \<open>
  After a pair of surrogates, or a code point of several bytes, the decoder skips bytes that
  are themselves literal text or a second escape, so the scanner is again inside the string.
\<close>

lemma scan_drop_wide:
  assumes "scan_bytes (InString, ps) s = Some sc" "list_all (\<lambda>c. 0x80 \<le> byte c) (take n s)"
  shows "scan_bytes (InString, ps) (drop n s) = Some sc"
proof -
  have "scan_bytes (InString, ps) (take n s @ drop n s) = Some sc" using assms(1) by simp
  then show ?thesis using scan_bytes_wide [OF assms(2)] by (simp only: scan_bytes_append option.case)
qed

lemma scan_drop_getu4:
  assumes "scan_bytes (InString, ps) s = Some sc" "scan_eof sc" "getu4 s \<noteq> None"
  shows "scan_bytes (InString, ps) (drop 6 s) = Some sc"
proof -
  from assms(3) have "take 2 s = [CHR 0x5C, CHR ''u'']" by (auto simp: getu4_def split: if_splits)
  then obtain ds where s: "s = CHR 0x5C # CHR ''u'' # ds"
    by (cases s; cases "tl s") auto
  with assms(1) have "scan_bytes (InStringEscU 4, ps) ds = Some sc" by simp
  from scan_bytes_hex4 [OF this assms(2)] s show ?thesis by simp
qed

lemma escape_rune_skip: "snd (escape_rune u cs) = 0 \<or> snd (escape_rune u cs) = 6 \<and> getu4 cs \<noteq> None"
  by (auto simp: escape_rune_def split: option.splits)

lemma rune_bytes_wide:
  assumes "0x80 \<le> byte c"
  shows "list_all (\<lambda>c. 0x80 \<le> byte c) (take (rune_size (c # cs)) (c # cs))"
proof (cases "1 < rune_size (c # cs)")
  case True
  from wide_rune_take [OF this] show ?thesis by (simp add: wide_rune_def)
next
  case False
  then have "rune_size (c # cs) = 1" using rune_size_pos [of "c # cs"] by simp
  with assms show ?thesis by simp
qed

lemma unquote_scanned:
  "scan_bytes (InString, ps) s = Some sc \<Longrightarrow> scan_eof sc \<Longrightarrow> unquote s \<noteq> None"
proof (induction "length s" arbitrary: s rule: less_induct)
  case less
  from less.prems show ?case
  proof (cases rule: scan_InString)
    case (quote cs)
    then show ?thesis by (simp add: unquote_quote)
  next
    case (u ds)
    then obtain v where v: "hex4 ds = Some v" by blast
    let ?n = "snd (escape_rune v (drop 4 ds))"
    have "scan_bytes (InString, ps) (drop ?n (drop 4 ds)) = Some sc"
      using escape_rune_skip [of v "drop 4 ds"] u(3) scan_drop_getu4 [OF u(3) less.prems(2)]
      by (elim disjE conjE) (simp_all only: drop_0 not_False_eq_True)
    moreover have "length (drop ?n (drop 4 ds)) < length s" using u(1) by simp
    ultimately have "unquote (drop ?n (drop 4 ds)) \<noteq> None" using less by blast
    with u(1) v show ?thesis by (simp add: unquote_u)
  next
    case (escape d ds)
    then show ?thesis using less by (auto simp: unquote_escape)
  next
    case (plain c cs)
    show ?thesis
    proof (cases "byte c < 0x80")
      case True
      with plain show ?thesis using less by (auto simp: unquote_ascii)
    next
      case False
      then have wide: "0x80 \<le> byte c" by simp
      let ?n = "rune_size s"
      have "scan_bytes (InString, ps) (drop ?n s) = Some sc"
        using scan_drop_wide [OF less.prems(1)] rune_bytes_wide [OF wide, of cs] plain(1) by simp
      moreover have "length (drop ?n s) < length s" using plain(1) rune_size_pos [of s] by simp
      ultimately have "unquote (drop ?n s) \<noteq> None" using less by blast
      with plain(1) wide show ?thesis by (simp add: unquote_wide)
    qed
  qed
qed

lemma scan_skip_space:
  "scan_bytes (BeginValue, []) b = scan_bytes (BeginValue, []) (dropWhile json_space b)"
  by (induction b) (auto simp: begin_value_def)

lemma json_Unmarshal_no_panic: "\<exists>r. json_Unmarshal_string b old = Ret r"
proof (cases "checkValid b \<and> (\<exists>cs. dropWhile json_space b = CHR 0x22 # cs)")
  case True
  then obtain cs where cs: "dropWhile json_space b = CHR 0x22 # cs" by blast
  from True obtain sc where "scan_bytes (BeginValue, []) b = Some sc" "scan_eof sc"
    by (auto simp: checkValid_def split: option.splits)
  with cs have "scan_bytes (InString, []) cs = Some sc"
    by (simp add: scan_skip_space [of b] begin_value_def)
  from unquote_scanned [OF this \<open>scan_eof sc\<close>] True cs show ?thesis
    by (auto simp: json_Unmarshal_string_def)
next
  case False
  then show ?thesis
    by (auto simp: json_Unmarshal_string_def split: list.splits)
qed

end
