(* ===== verification/MutationTypesJson.thy ===== *)
theory MutationTypesJson
  imports MutationTypes GoJson
begin

text \<open>
  The methods of \<open>MutationType\<close> in \<^verbatim>\<open>internal/cel/types.go\<close> that convert it to text:
  \<open>String\<close>, \<open>MarshalJSON\<close> and \<open>UnmarshalJSON\<close>, over the JSON strings of theory \<open>GoJson\<close>.
  The receiver of \<open>UnmarshalJSON\<close> is a pointer: its value after the call is returned beside
  the error.
\<close>

definition String :: "MutationType \<Rightarrow> string" where
  "String mt = mt"

definition UnmarshalJSON :: "bytes \<Rightarrow> MutationType \<Rightarrow> (MutationType \<times> go_error option) outcome" where
  "UnmarshalJSON b mt =
     (case json_Unmarshal_string b [] of
        Panic msg \<Rightarrow> Panic msg
      | Ret (Inl err) \<Rightarrow> Ret (mt, Some err)
      | Ret (Inr s) \<Rightarrow>
          (let mutationType = s in
           if \<not> IsValid mutationType
           then Ret (mt, Some (Errorf ''invalid mutation type: %q, must be one of: %v''
                                 [ArgS s, ArgL (map String ValidTypes)]))
           else Ret (mutationType, None)))"

definition MarshalJSON :: "MutationType \<Rightarrow> bytes result" where
  "MarshalJSON mt = Inr (json_Marshal_string mt)"

lemma IsValid_ascii: "IsValid mt \<Longrightarrow> list_all (\<lambda>c. byte c < 0x80) mt"
  by (cases mt rule: IsValid_cases) (simp_all add: mutation_type_defs byte_def)

text \<open>
  A byte of the replacement character is outside ASCII, so a string that is not already UTF-8
  never turns into one of the valid types.
\<close>

lemma to_valid_utf8_ascii_only:
  assumes "list_all (\<lambda>c. byte c < 0x80) (to_valid_utf8 s)"
  shows "to_valid_utf8 s = s"
proof -
  have "valid_rune r = r" if r: "r \<in> set (explode_runes s)" for r
  proof -
    have "list_all (\<lambda>c. byte c < 0x80) (valid_rune r)"
      using assms r by (auto simp: to_valid_utf8_def list_all_iff)
    with r show ?thesis
      by (cases rule: explode_runes_cases)
        (auto simp: valid_rune_def replacement_char_def byte_def wide_rune_def
          split: list.splits if_splits)
  qed
  then have "map valid_rune (explode_runes s) = explode_runes s" by (simp add: map_idI)
  then show ?thesis by (simp add: to_valid_utf8_def concat_explode_runes)
qed

lemma IsValid_to_valid_utf8: "IsValid (to_valid_utf8 mt) \<longleftrightarrow> IsValid mt"
proof
  assume valid: "IsValid (to_valid_utf8 mt)"
  then have "to_valid_utf8 mt = mt" by (rule to_valid_utf8_ascii_only [OF IsValid_ascii])
  with valid show "IsValid mt" by simp
next
  assume "IsValid mt"
  with to_valid_utf8_ascii [OF IsValid_ascii] show "IsValid (to_valid_utf8 mt)" by simp
qed

text \<open>
  (C30) The JSON form of a mutation type round trips: unmarshalling what \<open>MarshalJSON\<close> wrote
  gives the type back without an error when it is one of the five valid types, and otherwise
  leaves the receiver unchanged and reports the value read, whatever bytes the type has.
\<close>

theorem MutationType_JSON_roundtrip:
  "\<exists>b. MarshalJSON mt = Inr b \<and>
     UnmarshalJSON b old =
       Ret (if IsValid mt then (mt, None)
            else (old, Some (Errorf ''invalid mutation type: %q, must be one of: %v''
                               [ArgS (to_valid_utf8 mt), ArgL ValidTypes])))"
proof (cases "IsValid mt")
  case True
  with to_valid_utf8_ascii [OF IsValid_ascii, OF True] show ?thesis
    by (simp add: MarshalJSON_def UnmarshalJSON_def json_Unmarshal_Marshal)
next
  case False
  then show ?thesis
    by (simp add: MarshalJSON_def UnmarshalJSON_def json_Unmarshal_Marshal IsValid_to_valid_utf8
        String_def [abs_def])
qed

text \<open>
  (C31) \<open>UnmarshalJSON\<close> is total and guards the type: on no input does it panic; it succeeds
  only by storing a valid type, which it read as a well-formed JSON string, and on every error
  (malformed JSON, \<open>null\<close>, a number, an unknown name) the receiver keeps its value.
\<close>

theorem UnmarshalJSON_guards_type:
  "\<exists>mt' err. UnmarshalJSON b mt = Ret (mt', err) \<and>
     (case err of
        None \<Rightarrow> IsValid mt' \<and> checkValid b \<and>
                (\<exists>cs. dropWhile json_space b = CHR 0x22 # cs \<and> unquote cs = Some mt')
      | Some e \<Rightarrow> mt' = mt)"
proof -
  obtain r where r: "json_Unmarshal_string b [] = Ret r" using json_Unmarshal_no_panic by blast
  have "\<not> IsValid []" by (simp add: IsValid_iff ValidTypes_def mutation_type_defs)
  moreover have "s \<noteq> [] \<Longrightarrow> checkValid b \<and>
      (\<exists>cs. dropWhile json_space b = CHR 0x22 # cs \<and> unquote cs = Some s)" if "r = Inr s" for s
    using r that
    by (auto simp: json_Unmarshal_string_def split: if_splits list.splits option.splits)
  ultimately show ?thesis
    using r by (cases r) (auto simp: UnmarshalJSON_def Let_def)
qed

end
