(* ===== verification/DeepCopy.thy ===== *)
theory DeepCopy
  imports ConfigStore
begin

text \<open>
  \<^verbatim>\<open>pkg/config/zz_generated.deepcopy.go\<close>: the copy methods of \<open>CEL\<close> and \<open>Config\<close>. What they
  are for is the absence of sharing, so here the two structs live in an explicit memory: a
  slice is a window of an array that other slices may share, and a pointer to a \<open>CEL\<close> may
  point into a \<open>Config\<close>. \<open>abs_config\<close> reads the value of theory \<open>ConfigStore\<close> off the memory.
\<close>

section \<open>Memory\<close>

record slice =
  sl_arr :: nat
  sl_off :: nat
  sl_len :: nat
  sl_cap :: nat

record celMem =
  ExpressionsM :: "slice option"

record configMem =
  QueueNameM :: string
  MultiKueueOverrideM :: bool
  CELM :: celMem

record memory =
  arrays :: "nat \<rightharpoonup> string list"
  cels :: "nat \<rightharpoonup> celMem"
  configs :: "nat \<rightharpoonup> configMem"
  fresh :: nat

text \<open>A \<open>*CEL\<close> is nil, an object of its own, or the field of a \<open>Config\<close>.\<close>

datatype celPtr = NilCEL | CELAt nat | CELOf nat

fun load_CEL :: "memory \<Rightarrow> celPtr \<Rightarrow> celMem option" where
  "load_CEL h NilCEL = None"
| "load_CEL h (CELAt a) = cels h a"
| "load_CEL h (CELOf a) = map_option CELM (configs h a)"

fun store_CEL :: "memory \<Rightarrow> celPtr \<Rightarrow> celMem \<Rightarrow> memory" where
  "store_CEL h NilCEL v = h"
| "store_CEL h (CELAt a) v = h\<lparr>cels := (cels h)(a \<mapsto> v)\<rparr>"
| "store_CEL h (CELOf a) v =
     h\<lparr>configs := (configs h)(a := map_option (\<lambda>c. c\<lparr>CELM := v\<rparr>) (configs h a))\<rparr>"

definition array_of :: "memory \<Rightarrow> slice \<Rightarrow> string list" where
  "array_of h s = (case arrays h (sl_arr s) of None \<Rightarrow> [] | Some xs \<Rightarrow> xs)"

definition elems :: "memory \<Rightarrow> slice \<Rightarrow> string list" where
  "elems h s = take (sl_len s) (drop (sl_off s) (array_of h s))"

text \<open>\<open>make([]string, n)\<close>, \<open>new\<close>, and \<open>copy(dst, src)\<close>, which moves the shorter length.\<close>

definition make_strings :: "memory \<Rightarrow> nat \<Rightarrow> memory \<times> slice" where
  "make_strings h n =
     (h\<lparr>arrays := (arrays h)(fresh h \<mapsto> replicate n []), fresh := Suc (fresh h)\<rparr>,
      \<lparr>sl_arr = fresh h, sl_off = 0, sl_len = n, sl_cap = n\<rparr>)"

definition new_CEL :: "memory \<Rightarrow> memory \<times> nat" where
  "new_CEL h = (h\<lparr>cels := (cels h)(fresh h \<mapsto> \<lparr>ExpressionsM = None\<rparr>), fresh := Suc (fresh h)\<rparr>, fresh h)"

definition new_Config :: "memory \<Rightarrow> memory \<times> nat" where
  "new_Config h =
     (h\<lparr>configs := (configs h)(fresh h \<mapsto>
          \<lparr>QueueNameM = [], MultiKueueOverrideM = False, CELM = \<lparr>ExpressionsM = None\<rparr>\<rparr>),
        fresh := Suc (fresh h)\<rparr>, fresh h)"

definition copy_strings :: "memory \<Rightarrow> slice \<Rightarrow> slice \<Rightarrow> memory" where
  "copy_strings h dst src =
     (let n = min (sl_len dst) (sl_len src); xs = array_of h dst
      in h\<lparr>arrays := (arrays h)(sl_arr dst \<mapsto>
             take (sl_off dst) xs @ take n (elems h src) @ drop (sl_off dst + n) xs)\<rparr>)"

definition nil_deref :: string where
  "nil_deref = ''invalid memory address or nil pointer dereference''"


section \<open>The copy methods\<close>

text \<open>
  The statement \<open>copy(*out, *in)\<close> reads both fields again, after \<open>*out\<close> has got its new
  slice.
\<close>

definition copy_Expressions :: "memory \<Rightarrow> celPtr \<Rightarrow> celPtr \<Rightarrow> memory" where
  "copy_Expressions h inp outp =
     (case (map_option ExpressionsM (load_CEL h outp), map_option ExpressionsM (load_CEL h inp)) of
        (Some (Some dst), Some (Some src)) \<Rightarrow> copy_strings h dst src
      | _ \<Rightarrow> h)"

definition CEL_DeepCopyInto :: "memory \<Rightarrow> celPtr \<Rightarrow> celPtr \<Rightarrow> memory outcome" where
  "CEL_DeepCopyInto h inp outp =
     (case (load_CEL h inp, load_CEL h outp) of
        (Some v, Some w) \<Rightarrow>
          (let h = store_CEL h outp v in
           case ExpressionsM v of
             None \<Rightarrow> Ret h
           | Some s \<Rightarrow>
               (let (h, s') = make_strings h (sl_len s);
                    h = store_CEL h outp (v\<lparr>ExpressionsM := Some s'\<rparr>)
                in Ret (copy_Expressions h inp outp)))
      | _ \<Rightarrow> Panic nil_deref)"

definition CEL_DeepCopy :: "memory \<Rightarrow> celPtr \<Rightarrow> (memory \<times> celPtr) outcome" where
  "CEL_DeepCopy h inp =
     (if inp = NilCEL then Ret (h, NilCEL)
      else let (h, a) = new_CEL h in
           case CEL_DeepCopyInto h inp (CELAt a) of
             Panic msg \<Rightarrow> Panic msg
           | Ret h \<Rightarrow> Ret (h, CELAt a))"

text \<open>A \<open>*Config\<close> is an address or nil.\<close>

definition Config_DeepCopyInto :: "memory \<Rightarrow> nat option \<Rightarrow> nat option \<Rightarrow> memory outcome" where
  "Config_DeepCopyInto h inp outp =
     (case (inp, outp) of
        (Some i, Some j) \<Rightarrow>
          (case (configs h i, configs h j) of
             (Some c, Some d) \<Rightarrow>
               CEL_DeepCopyInto (h\<lparr>configs := (configs h)(j \<mapsto> c)\<rparr>) (CELOf i) (CELOf j)
           | _ \<Rightarrow> Panic nil_deref)
      | _ \<Rightarrow> Panic nil_deref)"

definition Config_DeepCopy :: "memory \<Rightarrow> nat option \<Rightarrow> (memory \<times> nat option) outcome" where
  "Config_DeepCopy h inp =
     (case inp of
        None \<Rightarrow> Ret (h, None)
      | Some i \<Rightarrow>
          (let (h, j) = new_Config h in
           case Config_DeepCopyInto h (Some i) (Some j) of
             Panic msg \<Rightarrow> Panic msg
           | Ret h \<Rightarrow> Ret (h, Some j)))"


section \<open>Well-formed memory\<close>

definition slice_ok :: "memory \<Rightarrow> slice \<Rightarrow> bool" where
  "slice_ok h s \<longleftrightarrow> (\<exists>xs. arrays h (sl_arr s) = Some xs \<and> sl_off s + sl_cap s \<le> length xs) \<and>
     sl_len s \<le> sl_cap s"

definition cel_ok :: "memory \<Rightarrow> celMem \<Rightarrow> bool" where
  "cel_ok h v \<longleftrightarrow> (case ExpressionsM v of None \<Rightarrow> True | Some s \<Rightarrow> slice_ok h s)"

definition mem_ok :: "memory \<Rightarrow> bool" where
  "mem_ok h \<longleftrightarrow>
     (\<forall>a. fresh h \<le> a \<longrightarrow> arrays h a = None \<and> cels h a = None \<and> configs h a = None) \<and>
     (\<forall>a v. cels h a = Some v \<longrightarrow> cel_ok h v) \<and>
     (\<forall>a c. configs h a = Some c \<longrightarrow> cel_ok h (CELM c))"

definition extends :: "memory \<Rightarrow> memory \<Rightarrow> bool" where
  "extends h h' \<longleftrightarrow> arrays h \<subseteq>\<^sub>m arrays h' \<and> cels h \<subseteq>\<^sub>m cels h' \<and> configs h \<subseteq>\<^sub>m configs h'"

definition abs_cel :: "memory \<Rightarrow> celMem \<Rightarrow> CEL" where
  "abs_cel h v = \<lparr>Expressions = (case ExpressionsM v of None \<Rightarrow> [] | Some s \<Rightarrow> elems h s)\<rparr>"

definition abs_config :: "memory \<Rightarrow> configMem \<Rightarrow> Config" where
  "abs_config h c =
     \<lparr>QueueName = QueueNameM c, MultiKueueOverride = MultiKueueOverrideM c, CfgCEL = abs_cel h (CELM c)\<rparr>"

lemma mem_ok_fresh:
  "mem_ok h \<Longrightarrow> arrays h (fresh h) = None \<and> cels h (fresh h) = None \<and> configs h (fresh h) = None"
  by (simp add: mem_ok_def)

lemma extends_elems:
  "arrays h \<subseteq>\<^sub>m arrays h' \<Longrightarrow> slice_ok h s \<Longrightarrow> elems h' s = elems h s"
  by (auto simp: slice_ok_def elems_def array_of_def map_le_def dom_def)

lemma extends_slice_ok: "arrays h \<subseteq>\<^sub>m arrays h' \<Longrightarrow> slice_ok h s \<Longrightarrow> slice_ok h' s"
  by (auto simp: slice_ok_def map_le_def dom_def)

lemma extends_cel:
  "arrays h \<subseteq>\<^sub>m arrays h' \<Longrightarrow> cel_ok h v \<Longrightarrow> cel_ok h' v \<and> abs_cel h' v = abs_cel h v"
  by (auto simp: cel_ok_def abs_cel_def extends_elems extends_slice_ok split: option.splits)

lemma elems_whole:
  "arrays h (sl_arr s) = Some xs \<Longrightarrow> sl_off s = 0 \<Longrightarrow> sl_len s = length xs \<Longrightarrow> elems h s = xs"
  by (simp add: elems_def array_of_def)

lemma elems_length: "slice_ok h s \<Longrightarrow> length (elems h s) = sl_len s"
  by (auto simp: slice_ok_def elems_def array_of_def)


section \<open>What the methods compute\<close>

lemma load_store_other [simp]: "p \<noteq> q \<Longrightarrow> load_CEL (store_CEL h q v) p = load_CEL h p"
  by (cases p; cases q) auto

lemma load_store_same [simp]: "load_CEL h p = Some w \<Longrightarrow> load_CEL (store_CEL h p v) p = Some v"
  by (cases p) auto

lemma store_store [simp]: "store_CEL (store_CEL h p v) p w = store_CEL h p w"
  by (cases p) (auto simp: option.map_comp comp_def)

lemma store_arrays [simp]:
  "store_CEL (h\<lparr>arrays := A, fresh := n\<rparr>) p v = (store_CEL h p v)\<lparr>arrays := A, fresh := n\<rparr>"
  "store_CEL (h\<lparr>arrays := A\<rparr>) p v = (store_CEL h p v)\<lparr>arrays := A\<rparr>"
  "arrays (store_CEL h p v) = arrays h" "fresh (store_CEL h p v) = fresh h"
  by (cases p; simp)+

lemma load_arrays [simp]:
  "load_CEL (h\<lparr>arrays := A, fresh := n\<rparr>) p = load_CEL h p"
  "load_CEL (h\<lparr>arrays := A\<rparr>) p = load_CEL h p"
  by (cases p; simp)+

definition fresh_slice :: "memory \<Rightarrow> slice \<Rightarrow> slice" where
  "fresh_slice h s = \<lparr>sl_arr = fresh h, sl_off = 0, sl_len = sl_len s, sl_cap = sl_len s\<rparr>"

lemma CEL_DeepCopyInto_result:
  assumes "load_CEL h inp = Some v" "load_CEL h outp = Some w" "inp \<noteq> outp"
    and "cel_ok h v" "arrays h (fresh h) = None"
  shows "CEL_DeepCopyInto h inp outp =
    Ret (case ExpressionsM v of
           None \<Rightarrow> store_CEL h outp v
         | Some s \<Rightarrow> (store_CEL h outp \<lparr>ExpressionsM = Some (fresh_slice h s)\<rparr>)
             \<lparr>arrays := (arrays h)(fresh h \<mapsto> elems h s), fresh := Suc (fresh h)\<rparr>)"
proof (cases "ExpressionsM v")
  case None
  with assms show ?thesis by (simp add: CEL_DeepCopyInto_def)
next
  case (Some s)
  with assms(4) have s: "slice_ok h s" by (simp add: cel_ok_def)
  with assms(5) have ne: "sl_arr s \<noteq> fresh h" by (auto simp: slice_ok_def)
  have v: "v\<lparr>ExpressionsM := x\<rparr> = \<lparr>ExpressionsM = x\<rparr>" for x by simp
  have el: "elems (h'\<lparr>arrays := (arrays h)(fresh h \<mapsto> xs), fresh := n\<rparr>) s = elems h s" for h' xs n
    using ne by (simp add: elems_def array_of_def)
  show ?thesis
    using assms Some elems_length [OF s]
    by (simp add: CEL_DeepCopyInto_def make_strings_def copy_Expressions_def copy_strings_def
        array_of_def el v fresh_slice_def Let_def)
qed

text \<open>The result of copying a configuration, in a memory in which it is well formed.\<close>

definition copied :: "memory \<Rightarrow> configMem \<Rightarrow> memory" where
  "copied h c =
     (let j = fresh h in
      case ExpressionsM (CELM c) of
        None \<Rightarrow> h\<lparr>configs := (configs h)(j \<mapsto> c), fresh := Suc j\<rparr>
      | Some s \<Rightarrow>
          h\<lparr>arrays := (arrays h)(Suc j \<mapsto> elems h s),
            configs := (configs h)(j \<mapsto> c\<lparr>CELM := \<lparr>ExpressionsM =
              Some \<lparr>sl_arr = Suc j, sl_off = 0, sl_len = sl_len s, sl_cap = sl_len s\<rparr>\<rparr>\<rparr>),
            fresh := Suc (Suc j)\<rparr>)"

lemma Config_DeepCopy_result:
  assumes "mem_ok h" "configs h i = Some c"
  shows "Config_DeepCopy h (Some i) = Ret (copied h c, Some (fresh h))"
proof -
  from assms have ij: "i \<noteq> fresh h" "cel_ok h (CELM c)" "arrays h (Suc (fresh h)) = None"
    by (auto simp: mem_ok_def)
  let ?h = "h\<lparr>fresh := Suc (fresh h), configs := (configs h)(fresh h \<mapsto> c)\<rparr>"
  have "cel_ok ?h (CELM c)" using ij(2) by (auto simp: cel_ok_def slice_ok_def split: option.splits)
  with ij assms
  have "CEL_DeepCopyInto ?h (CELOf i) (CELOf (fresh h)) = Ret (copied h c)"
    by (subst CEL_DeepCopyInto_result [where v = "CELM c" and w = "CELM c"])
      (auto simp: copied_def fresh_slice_def elems_def array_of_def Let_def split: option.split)
  with ij assms show ?thesis
    by (simp add: Config_DeepCopy_def new_Config_def Config_DeepCopyInto_def)
qed

lemma map_le_upd_fresh: "m a = None \<Longrightarrow> m \<subseteq>\<^sub>m m(a \<mapsto> x)"
  by (auto simp: map_le_def dom_def)

lemma copied_extends:
  assumes "mem_ok h"
  shows "extends h (copied h c)"
proof -
  have "arrays h (Suc (fresh h)) = None" using assms by (simp add: mem_ok_def)
  with mem_ok_fresh [OF assms] show ?thesis
    by (simp add: extends_def copied_def Let_def map_le_upd_fresh split: option.split)
qed

lemma copied_config:
  assumes "mem_ok h" "cel_ok h (CELM c)"
  obtains c' where "configs (copied h c) (fresh h) = Some c'"
    "abs_config (copied h c) c' = abs_config h c" "cel_ok (copied h c) (CELM c')"
    "case ExpressionsM (CELM c') of
       None \<Rightarrow> ExpressionsM (CELM c) = None
     | Some s' \<Rightarrow> ExpressionsM (CELM c) \<noteq> None \<and> arrays h (sl_arr s') = None"
proof (cases "ExpressionsM (CELM c)")
  case None
  with that [of c] show thesis
    by (simp add: copied_def abs_config_def abs_cel_def cel_ok_def Let_def)
next
  case (Some s)
  with assms(2) have "length (elems h s) = sl_len s" by (simp add: cel_ok_def elems_length)
  moreover have "arrays h (Suc (fresh h)) = None" using assms by (simp add: mem_ok_def)
  ultimately show thesis using Some
    by (intro that [of "c\<lparr>CELM := \<lparr>ExpressionsM =
              Some \<lparr>sl_arr = Suc (fresh h), sl_off = 0, sl_len = sl_len s, sl_cap = sl_len s\<rparr>\<rparr>\<rparr>"])
      (simp_all add: copied_def abs_config_def abs_cel_def cel_ok_def slice_ok_def Let_def elems_whole)
qed

lemma copied_mem_ok:
  assumes "mem_ok h" "cel_ok h (CELM c)"
  shows "mem_ok (copied h c)"
proof -
  let ?h = "copied h c"
  have ext: "arrays h \<subseteq>\<^sub>m arrays ?h" using copied_extends [OF assms(1)] by (simp add: extends_def)
  obtain c' where c': "configs ?h (fresh h) = Some c'" "cel_ok ?h (CELM c')"
    using copied_config [OF assms] by blast
  have same: "cels ?h = cels h" "a \<noteq> fresh h \<Longrightarrow> configs ?h a = configs h a" for a
    by (simp_all add: copied_def Let_def split: option.split)
  have "cel_ok ?h (CELM d)" if "configs ?h a = Some d" for a d
  proof (cases "a = fresh h")
    case False
    with same that assms(1) show ?thesis by (metis mem_ok_def extends_cel [OF ext])
  qed (use that c' in simp)
  moreover have "cel_ok ?h v" if "cels ?h a = Some v" for a v
    using that same assms(1) by (metis mem_ok_def extends_cel [OF ext])
  moreover have "arrays ?h a = None \<and> cels ?h a = None \<and> configs ?h a = None" if "fresh ?h \<le> a" for a
    using that assms(1) by (auto simp: copied_def mem_ok_def Let_def split: option.splits)
  ultimately show ?thesis by (simp add: mem_ok_def)
qed


section \<open>Properties\<close>

text \<open>An assignment \<open>s[k] = x\<close> to an element of a slice.\<close>

definition write_elem :: "memory \<Rightarrow> slice \<Rightarrow> nat \<Rightarrow> string \<Rightarrow> memory" where
  "write_elem h s k x =
     h\<lparr>arrays := (arrays h)(sl_arr s \<mapsto> (array_of h s)[sl_off s + k := x])\<rparr>"

lemma write_elem_other:
  "(\<And>t. ExpressionsM v = Some t \<Longrightarrow> sl_arr t \<noteq> sl_arr s) \<Longrightarrow>
     abs_cel (write_elem h s k x) v = abs_cel h v"
  by (auto simp: abs_cel_def write_elem_def elems_def array_of_def split: option.split)

text \<open>
  (C32) A deep copy has the same value and shares nothing. In a well-formed memory
  \<open>Config.DeepCopy\<close> of a configuration returns a new object with the value of the original,
  with nil expressions exactly when the original has none, in a memory that is well formed
  and keeps every object and array it had. Afterwards a write through any slice that existed
  before leaves the copy's value alone, and a write through the slice of the copy leaves the
  value of every earlier object alone.
\<close>

theorem Config_DeepCopy_isolated:
  assumes "mem_ok h" "configs h i = Some c"
  shows "\<exists>h' j c'. Config_DeepCopy h (Some i) = Ret (h', Some j) \<and>
    configs h j = None \<and> configs h' j = Some c' \<and> mem_ok h' \<and> extends h h' \<and>
    abs_config h' c' = abs_config h c \<and>
    (ExpressionsM (CELM c') = None \<longleftrightarrow> ExpressionsM (CELM c) = None) \<and>
    (\<forall>s k x. slice_ok h s \<longrightarrow> abs_cel (write_elem h' s k x) (CELM c') = abs_cel h (CELM c)) \<and>
    (\<forall>s' k x v. ExpressionsM (CELM c') = Some s' \<and> cel_ok h v \<longrightarrow>
       abs_cel (write_elem h' s' k x) v = abs_cel h v)"
proof -
  let ?h = "copied h c"
  have ok: "cel_ok h (CELM c)" using assms by (simp add: mem_ok_def)
  obtain c' where c': "configs ?h (fresh h) = Some c'" "abs_config ?h c' = abs_config h c"
    and new: "case ExpressionsM (CELM c') of None \<Rightarrow> ExpressionsM (CELM c) = None
      | Some s' \<Rightarrow> ExpressionsM (CELM c) \<noteq> None \<and> arrays h (sl_arr s') = None"
    using copied_config [OF assms(1) ok] by blast
  have ext: "arrays h \<subseteq>\<^sub>m arrays ?h" using copied_extends [OF assms(1)] by (simp add: extends_def)
  have "abs_cel (write_elem ?h s k x) (CELM c') = abs_cel h (CELM c)" if "slice_ok h s" for s k x
  proof -
    have "sl_arr t \<noteq> sl_arr s" if "ExpressionsM (CELM c') = Some t" for t
      using \<open>slice_ok h s\<close> new that by (auto simp: slice_ok_def)
    from write_elem_other [OF this] c'(2) show ?thesis by (simp add: abs_config_def)
  qed
  moreover have "abs_cel (write_elem ?h s' k x) v = abs_cel h v"
    if "ExpressionsM (CELM c') = Some s'" "cel_ok h v" for s' k x v
  proof -
    have "sl_arr t \<noteq> sl_arr s'" if "ExpressionsM v = Some t" for t
      using \<open>cel_ok h v\<close> \<open>ExpressionsM (CELM c') = Some s'\<close> new that
      by (auto simp: cel_ok_def slice_ok_def)
    from write_elem_other [OF this] extends_cel [OF ext that(2)] show ?thesis by simp
  qed
  moreover have "ExpressionsM (CELM c') = None \<longleftrightarrow> ExpressionsM (CELM c) = None"
    using new by (auto split: option.splits)
  ultimately show ?thesis
    using Config_DeepCopy_result [OF assms] mem_ok_fresh [OF assms(1)] c'
      copied_mem_ok [OF assms(1) ok] copied_extends [OF assms(1), of c]
    by (intro exI [of _ ?h] exI [of _ "fresh h"] exI [of _ c']) simp
qed

definition sample_configMem :: configMem where
  "sample_configMem =
     \<lparr>QueueNameM = ''q'', MultiKueueOverrideM = False,
      CELM = \<lparr>ExpressionsM = Some \<lparr>sl_arr = 0, sl_off = 1, sl_len = 1, sl_cap = 2\<rparr>\<rparr>\<rparr>"

definition sample_memory :: memory where
  "sample_memory =
     \<lparr>arrays = [0 \<mapsto> [''a'', ''b'', ''c'']], cels = Map.empty, configs = [1 \<mapsto> sample_configMem], fresh = 2\<rparr>"

theorem Config_DeepCopy_isolated_witness:
  "\<exists>h' j c'. Config_DeepCopy sample_memory (Some 1) = Ret (h', Some j) \<and>
     configs h' j = Some c' \<and> abs_config h' c' =
       \<lparr>QueueName = ''q'', MultiKueueOverride = False, CfgCEL = \<lparr>Expressions = [''b'']\<rparr>\<rparr>"
proof -
  have "mem_ok sample_memory" "configs sample_memory 1 = Some sample_configMem"
    by (auto simp: mem_ok_def sample_memory_def sample_configMem_def cel_ok_def slice_ok_def)
  from Config_DeepCopy_isolated [OF this] have "\<exists>h' j c'.
      Config_DeepCopy sample_memory (Some 1) = Ret (h', Some j) \<and> configs h' j = Some c' \<and>
      abs_config h' c' = abs_config sample_memory sample_configMem" by blast
  then show ?thesis
    by (simp add: abs_config_def abs_cel_def sample_memory_def sample_configMem_def elems_def array_of_def)
qed

text \<open>The same for the \<open>CEL\<close> struct on its own; a nil pointer is copied to nil.\<close>

lemma DeepCopy_nil: "CEL_DeepCopy h NilCEL = Ret (h, NilCEL)" "Config_DeepCopy h None = Ret (h, None)"
  by (simp_all add: CEL_DeepCopy_def Config_DeepCopy_def)

lemma CEL_DeepCopy_value:
  assumes "mem_ok h" "load_CEL h p = Some v" "cel_ok h v"
  obtains h' v' where "CEL_DeepCopy h p = Ret (h', CELAt (fresh h))"
    "load_CEL h' (CELAt (fresh h)) = Some v'" "abs_cel h' v' = abs_cel h v"
proof -
  let ?h = "h\<lparr>cels := (cels h)(fresh h \<mapsto> \<lparr>ExpressionsM = None\<rparr>), fresh := Suc (fresh h)\<rparr>"
  have p: "p \<noteq> NilCEL" "p \<noteq> CELAt (fresh h)"
    using assms(2) mem_ok_fresh [OF assms(1)] by auto
  then have load: "load_CEL ?h p = Some v" using assms(2) by (cases p) auto
  have ok: "cel_ok ?h v" using assms(3) by (auto simp: cel_ok_def slice_ok_def split: option.splits)
  have none: "arrays ?h (fresh ?h) = None" using assms(1) by (simp add: mem_ok_def)
  have elems: "elems ?h s = elems h s" for s by (simp add: elems_def array_of_def)
  note result = CEL_DeepCopyInto_result [OF load _ p(2) ok none, of "\<lparr>ExpressionsM = None\<rparr>"]
  show thesis
  proof (cases "ExpressionsM v")
    case None
    with result p(1) that [of "store_CEL ?h (CELAt (fresh h)) v" v] show thesis
      by (simp add: CEL_DeepCopy_def new_CEL_def abs_cel_def)
  next
    case (Some s)
    have "length (elems h s) = sl_len s" using Some assms(3) by (simp add: cel_ok_def elems_length)
    with Some result p(1) elems show thesis
      by (intro that) (auto simp: CEL_DeepCopy_def new_CEL_def abs_cel_def fresh_slice_def elems_whole)
  qed
qed

end
