(* ===== verification/MutateCommand.thy ===== *)
theory MutateCommand
  imports Webhook
begin

text \<open>
  \<^verbatim>\<open>pkg/mutate/mutate.go\<close>, the offline preview of the webhook, and \<^verbatim>\<open>pkg/common/common_utils.go\<close>.
  The file system is the parameter \<open>readFile\<close> (\<open>os.ReadFile\<close>); \<open>PY\<close> is the YAML codec of
  \<open>sigs.k8s.io/yaml\<close> at the PipelineRun type.
\<close>

section \<open>path.Join\<close>

text \<open>
  \<open>path.Clean\<close> on the elements between slashes: empty elements and \<open>.\<close> are dropped, \<open>..\<close>
  removes the element before it, and at the root of a rooted path it is dropped too.
\<close>

fun clean_elems :: "bool \<Rightarrow> string list \<Rightarrow> string list \<Rightarrow> string list" where
  "clean_elems rooted out [] = out"
| "clean_elems rooted out (e # es) =
     (if e = [] \<or> e = ''.'' then clean_elems rooted out es
      else if e = ''..'' then
        (if out \<noteq> [] \<and> last out \<noteq> ''..'' then clean_elems rooted (butlast out) es
         else if rooted then clean_elems rooted out es
         else clean_elems rooted (out @ [e]) es)
      else clean_elems rooted (out @ [e]) es)"

definition path_Clean :: "string \<Rightarrow> string" where
  "path_Clean p =
     (let rooted = HasPrefix p ''/''; elems = clean_elems rooted [] (split_slash p)
      in if rooted then ''/'' @ Join elems ''/''
         else if elems = [] then ''.'' else Join elems ''/'')"

definition path_Join :: "string list \<Rightarrow> string" where
  "path_Join elems =
     (let es = filter (\<lambda>e. e \<noteq> []) elems
      in if es = [] then [] else path_Clean (Join es ''/''))"


section \<open>Loading the configuration\<close>

type_synonym filesystem = "string \<Rightarrow> bytes result"

record 'r plr_yaml =
  plr_Unmarshal :: "bytes \<Rightarrow> 'r PipelineRun result"
  plr_Marshal :: "'r PipelineRun \<Rightarrow> bytes result"

definition configPath :: "string \<Rightarrow> string" where
  "configPath configDir = path_Join [configDir, ''config.yaml'']"

definition LoadDefaulter ::
    "('env, 'ast) cel_go \<Rightarrow> validation \<Rightarrow> 'r tekton \<Rightarrow> yaml \<Rightarrow> filesystem \<Rightarrow> string \<Rightarrow> metrics
       \<Rightarrow> 'r ConfigStore result \<times> metrics" where
  "LoadDefaulter C V T Y readFile configDir m =
     (if configDir = [] then (Inl (Errorf ''configDir cannot be empty'' []), m)
      else case readFile (configPath configDir) of
        Inl err \<Rightarrow>
          (Inl (Errorf ''failed to read config file %q: %w'' [ArgS (configPath configDir), ArgW err]), m)
      | Inr data \<Rightarrow>
          (case Update C V T Y data emptyStore m of
             (Some err, cfgStore, m') \<Rightarrow> (Inl (Errorf ''failed to update config: %w'' [ArgW err]), m')
           | (None, cfgStore, m') \<Rightarrow> (Inr cfgStore, m')))"


section \<open>Mutating a PipelineRun file\<close>

text \<open>The part of \<open>MutatePipelineRun\<close> after the defaulter has been created. The object passed to
  \<open>Default\<close> is a PipelineRun, so its type assertion succeeds.\<close>

definition applyDefaulter ::
    "'r plr_yaml \<Rightarrow> 'r pipelineRunCustomDefaulter \<Rightarrow> 'r PipelineRun \<Rightarrow> metrics
       \<Rightarrow> (bytes result \<times> metrics) outcome" where
  "applyDefaulter PY defaulter plr m =
     (case DefaultRun defaulter plr m of
        Panic msg \<Rightarrow> Panic msg
      | Ret (Some err, plr', m') \<Rightarrow>
          Ret (Inl (Errorf ''failed to apply mutation to PipelineRun: %w'' [ArgW err]), m')
      | Ret (None, plr', m') \<Rightarrow>
          (case plr_Marshal PY plr' of
             Inl err \<Rightarrow>
               Ret (Inl (Errorf ''failed to marshal mutated PipelineRun to YAML: %w'' [ArgW err]), m')
           | Inr mutatedData \<Rightarrow> Ret (Inr mutatedData, m')))"

definition MutatePipelineRun ::
    "('env, 'ast) cel_go \<Rightarrow> validation \<Rightarrow> 'r tekton \<Rightarrow> yaml \<Rightarrow> 'r plr_yaml \<Rightarrow> filesystem
       \<Rightarrow> string \<Rightarrow> string \<Rightarrow> metrics \<Rightarrow> (bytes result \<times> metrics) outcome" where
  "MutatePipelineRun C V T Y PY readFile pipelineRunFile configDir m =
     (if pipelineRunFile = [] then Ret (Inl (Errorf ''pipelineRunFile cannot be empty'' []), m)
      else if configDir = [] then Ret (Inl (Errorf ''configDir cannot be empty'' []), m)
      else case readFile pipelineRunFile of
        Inl err \<Rightarrow>
          Ret (Inl (Errorf ''failed to read PipelineRun file %q: %w''
                      [ArgS pipelineRunFile, ArgW err]), m)
      | Inr pipelineRunData \<Rightarrow>
          (case plr_Unmarshal PY pipelineRunData of
             Inl err \<Rightarrow> Ret (Inl (Errorf ''failed to parse PipelineRun YAML: %w'' [ArgW err]), m)
           | Inr plr \<Rightarrow>
               (case LoadDefaulter C V T Y readFile configDir m of
                  (Inl err, m') \<Rightarrow> Ret (Inl err, m')
                | (Inr cfgStore, m') \<Rightarrow>
                    (case NewCustomDefaulter cfgStore of
                       Inl err \<Rightarrow>
                         Ret (Inl (Errorf ''failed to create custom defaulter: %w'' [ArgW err]), m')
                     | Inr defaulter \<Rightarrow> applyDefaulter PY defaulter plr m'))))"


section \<open>The namespace of the pod\<close>

definition namespaceFile :: string where
  "namespaceFile = ''/var/run/secrets/kubernetes.io/serviceaccount/namespace''"

definition readNamespace :: "filesystem \<Rightarrow> string \<Rightarrow> string result" where
  "readNamespace readFile path =
     (case readFile path of
        Inl err \<Rightarrow> Inl (Errorf ''not able to read namespace file %s: %w'' [ArgS path, ArgW err])
      | Inr bs \<Rightarrow> Inr (TrimSpace bs))"

definition GetCurrentNamespace :: "filesystem \<Rightarrow> string result" where
  "GetCurrentNamespace readFile = readNamespace readFile namespaceFile"


section \<open>Lemmas\<close>

lemma LoadDefaulter_loaded:
  assumes "LoadDefaulter C V T Y readFile dir m = (Inr s, m')"
  shows "store_ok C V T s" "\<exists>cfg. config s = Some cfg \<and> QueueName cfg \<noteq> []"
proof -
  from assms obtain data where u: "Update C V T Y data emptyStore m = (None, s, m')"
    by (auto simp: LoadDefaulter_def split: if_splits sum.splits option.splits prod.splits)
  show "store_ok C V T s" using Update_store_ok [OF store_ok_empty u] .
  from config_store.accepted_sets [OF u]
  show "\<exists>cfg. config s = Some cfg \<and> QueueName cfg \<noteq> []"
    by (auto simp: GetConfigAndMutators_def)
qed

lemma applyDefaulter_ok:
  "applyDefaulter PY d plr m = Ret (Inr out, m') \<longleftrightarrow>
     (\<exists>q. DefaultRun d plr m = Ret (None, q, m') \<and> plr_Marshal PY q = Inr out)"
  by (auto simp: applyDefaulter_def split: outcome.splits prod.splits option.splits sum.splits)

lemma applyDefaulter_returns:
  assumes "config (configStore d) = Some cfg"
  shows "\<exists>r m'. applyDefaulter PY d plr m = Ret (r, m')"
  using assms by (auto simp: applyDefaulter_def split: prod.splits option.splits sum.splits)


section \<open>Properties\<close>

text \<open>
  The \<open>mutate\<close> command is a faithful preview of the webhook. It never panics, whatever
  the files hold, and it prints \<open>out\<close> exactly when the run file can be read and parsed, the
  configuration of the directory loads into an empty store, and the webhook's \<open>Default\<close> on that
  store admits the run as one whose YAML is \<open>out\<close>.
\<close>

lemma MutatePipelineRun_previews_webhook:
  "(\<exists>r m'. MutatePipelineRun C V T Y PY readFile file dir m = Ret (r, m')) \<and>
   (MutatePipelineRun C V T Y PY readFile file dir m = Ret (Inr out, m') \<longleftrightarrow>
     file \<noteq> [] \<and> dir \<noteq> [] \<and>
     (\<exists>bs plr data s m1 q.
        readFile file = Inr bs \<and> plr_Unmarshal PY bs = Inr plr \<and>
        readFile (path_Join [dir, ''config.yaml'']) = Inr data \<and>
        Update C V T Y data emptyStore m = (None, s, m1) \<and>
        Default \<lparr>configStore = s\<rparr> (PipelineRunObj plr) m1 = Ret (None, PipelineRunObj q, m') \<and>
        plr_Marshal PY q = Inr out))"
proof
  show "\<exists>r m'. MutatePipelineRun C V T Y PY readFile file dir m = Ret (r, m')"
    by (auto simp: MutatePipelineRun_def NewCustomDefaulter_def dest!: LoadDefaulter_loaded(2)
        intro: applyDefaulter_returns split: sum.splits prod.splits)
  show "MutatePipelineRun C V T Y PY readFile file dir m = Ret (Inr out, m') \<longleftrightarrow>
     file \<noteq> [] \<and> dir \<noteq> [] \<and>
     (\<exists>bs plr data s m1 q.
        readFile file = Inr bs \<and> plr_Unmarshal PY bs = Inr plr \<and>
        readFile (path_Join [dir, ''config.yaml'']) = Inr data \<and>
        Update C V T Y data emptyStore m = (None, s, m1) \<and>
        Default \<lparr>configStore = s\<rparr> (PipelineRunObj plr) m1 = Ret (None, PipelineRunObj q, m') \<and>
        plr_Marshal PY q = Inr out)"
    unfolding Default_PipelineRun configPath_def [symmetric]
    by (auto simp: MutatePipelineRun_def NewCustomDefaulter_def LoadDefaulter_def applyDefaulter_ok
        split: sum.splits prod.splits option.splits)
qed

text \<open>
  The namespace of the pod is the content of its file with the white space around it
  removed, all of it and nothing else; a file that cannot be read is an error that wraps
  the cause.
\<close>

lemma readNamespace_trims:
  "(case readFile path of
      Inl err \<Rightarrow> readNamespace readFile path =
        Inl (Errorf ''not able to read namespace file %s: %w'' [ArgS path, ArgW err])
    | Inr bs \<Rightarrow>
        (\<exists>ns ws ws'. readNamespace readFile path = Inr ns \<and> bs = concat ws @ ns @ concat ws' \<and>
           set ws \<subseteq> set space_encodings \<and> set ws' \<subseteq> set space_encodings \<and>
           filter (\<lambda>e. prefix e ns \<or> suffix e ns) space_encodings = []))"
proof (cases "readFile path")
  case (Inr bs)
  then show ?thesis
    using TrimSpace_spec [of bs] by (auto simp: readNamespace_def filter_empty_conv)
qed (simp add: readNamespace_def)

end
