(* ===== verification/GoFloat.thy ===== *)
theory GoFloat
  imports Complex_Main
begin

text \<open>
  The part of Go's floating point that \<^verbatim>\<open>cmd/main.go\<close> uses: \<open>float64\<close> values with the tests of
  package \<open>math\<close>, and the conversion of a finite value to \<open>float32\<close>, which rounds to the nearest
  representable number and on a tie to the one with an even significand. A finite value is
  the rational number it stands for; the two zeros are one.
\<close>

datatype float64 = NaN | Infty bool | Fin rat

definition IsNaN :: "float64 \<Rightarrow> bool" where
  "IsNaN v = (case v of NaN \<Rightarrow> True | _ \<Rightarrow> False)"

text \<open>\<open>math.IsInf(v, 0)\<close>: either infinity.\<close>

definition IsInf :: "float64 \<Rightarrow> bool" where
  "IsInf v = (case v of Infty _ \<Rightarrow> True | _ \<Rightarrow> False)"

fun float_less :: "float64 \<Rightarrow> float64 \<Rightarrow> bool" where
  "float_less (Fin x) (Fin y) = (x < y)"
| "float_less (Infty neg) (Fin y) = neg"
| "float_less (Fin x) (Infty neg) = (\<not> neg)"
| "float_less (Infty neg) (Infty neg') = (neg \<and> \<not> neg')"
| "float_less _ _ = False"

definition MaxFloat32 :: rat where
  "MaxFloat32 = (2 ^ 24 - 1) * 2 ^ 104"

text \<open>\<open>2 ^ e\<close> for an integer \<open>e\<close>, and the spacing of the \<open>float32\<close> numbers around \<open>x\<close>.\<close>

definition pow2 :: "int \<Rightarrow> rat" where
  "pow2 e = (if 0 \<le> e then 2 ^ nat e else 1 / 2 ^ nat (- e))"

fun exponent_from :: "nat \<Rightarrow> int \<Rightarrow> rat \<Rightarrow> int option" where
  "exponent_from 0 e x = None"
| "exponent_from (Suc n) e x = (if pow2 e \<le> \<bar>x\<bar> then Some e else exponent_from n (e - 1) x)"

text \<open>The exponent of a normal number: the largest of 127 down to -126 that fits.\<close>

definition exponent32 :: "rat \<Rightarrow> int option" where
  "exponent32 x = exponent_from 254 127 x"

definition ulp32 :: "rat \<Rightarrow> rat" where
  "ulp32 x = (case exponent32 x of None \<Rightarrow> pow2 (- 149) | Some e \<Rightarrow> pow2 (e - 23))"

definition round_even :: "rat \<Rightarrow> int" where
  "round_even y =
     (let f = \<lfloor>y\<rfloor>; d = y - of_int f
      in if d < 1 / 2 then f else if 1 / 2 < d then f + 1 else if even f then f else f + 1)"

definition float32_of :: "rat \<Rightarrow> rat" where
  "float32_of x = of_int (round_even (x / ulp32 x)) * ulp32 x"


section \<open>The rounding error\<close>

lemma pow2_pos [simp]: "0 < pow2 e"
  by (simp add: pow2_def)

lemma pow2_add: "pow2 (a + b) = pow2 a * pow2 b"
proof -
  have real: "pow2 e = 2 powi e" for e
    by (cases "0 \<le> e") (simp_all add: pow2_def power_int_def inverse_eq_divide power_one_over)
  show ?thesis by (simp add: real power_int_add)
qed

lemma ulp32_pos [simp]: "0 < ulp32 x"
  by (simp add: ulp32_def split: option.split)

lemma ulp32_nonneg [simp]: "0 \<le> ulp32 x"
  by (rule less_imp_le) simp

lemma ulp32_abs [simp]: "\<bar>ulp32 x\<bar> = ulp32 x"
  by (rule abs_of_nonneg) simp

lemma round_even_error: "\<bar>of_int (round_even y) - y\<bar> \<le> 1 / 2"
proof -
  have "of_int \<lfloor>y\<rfloor> \<le> y" "y < of_int \<lfloor>y\<rfloor> + 1" by linarith+
  then show ?thesis by (auto simp: round_even_def Let_def abs_le_iff)
qed

lemma round_even_le: "y \<le> of_int n \<Longrightarrow> round_even y \<le> n"
proof -
  assume le: "y \<le> of_int n"
  show ?thesis
  proof (cases "y = of_int n")
    case True
    then show ?thesis by (simp add: round_even_def)
  next
    case False
    with le have "y < of_int n" by simp
    then have "\<lfloor>y\<rfloor> < n" by (simp only: floor_less_iff)
    then show ?thesis by (auto simp: round_even_def Let_def)
  qed
qed

lemma round_even_ge: "of_int n \<le> y \<Longrightarrow> n \<le> round_even y"
proof -
  assume "of_int n \<le> y"
  then have "n \<le> \<lfloor>y\<rfloor>" by (simp add: le_floor_iff)
  then show ?thesis by (auto simp: round_even_def Let_def)
qed

lemma float32_of_error: "\<bar>float32_of x - x\<bar> \<le> ulp32 x / 2"
proof -
  have "float32_of x - x = (of_int (round_even (x / ulp32 x)) - x / ulp32 x) * ulp32 x"
    by (simp add: float32_of_def left_diff_distrib ulp32_pos [THEN less_imp_neq, THEN not_sym])
  then have "\<bar>float32_of x - x\<bar> = \<bar>of_int (round_even (x / ulp32 x)) - x / ulp32 x\<bar> * ulp32 x"
    by (simp add: abs_mult)
  also have "\<dots> \<le> 1 / 2 * ulp32 x"
    by (intro mult_right_mono round_even_error) simp
  finally show ?thesis by simp
qed

lemma exponent_from_Some:
  "exponent_from n e x = Some k \<Longrightarrow>
     pow2 k \<le> \<bar>x\<bar> \<and> e - int n < k \<and> k \<le> e \<and> (k < e \<longrightarrow> \<bar>x\<bar> < pow2 (k + 1))"
proof (induction n e x rule: exponent_from.induct)
  case (2 n e x)
  show ?case
  proof (cases "pow2 e \<le> \<bar>x\<bar>")
    case True
    with "2.prems" show ?thesis by simp
  next
    case False
    with "2.prems" have "exponent_from n (e - 1) x = Some k" by simp
    note ih = "2.IH" [OF False this]
    then show ?thesis using False by (cases "k = e - 1") auto
  qed
qed simp

lemma exponent_from_None:
  "exponent_from n e x = None \<Longrightarrow> e - int n < k \<Longrightarrow> k \<le> e \<Longrightarrow> \<not> pow2 k \<le> \<bar>x\<bar>"
proof (induction n e x rule: exponent_from.induct)
  case (2 n e x)
  then show ?case by (cases "k = e") (auto split: if_splits)
qed simp

lemma exponent32_Some:
  assumes "exponent32 x = Some e"
  shows "pow2 e \<le> \<bar>x\<bar>" "- 127 < e" "e \<le> 127" "e < 127 \<Longrightarrow> \<bar>x\<bar> < pow2 (e + 1)"
  using exponent_from_Some [of 254 127 x e] assms by (simp_all add: exponent32_def)

lemma ulp32_relative: "ulp32 x / 2 \<le> max (\<bar>x\<bar> / 2 ^ 24) (1 / 2 ^ 150)"
proof (cases "exponent32 x")
  case None
  then show ?thesis by (simp add: ulp32_def pow2_def)
next
  case (Some e)
  have "pow2 (e - 23) / 2 = pow2 e / 2 ^ 24"
    using pow2_add [of e "- 23"] by (simp add: pow2_def)
  also have "\<dots> \<le> \<bar>x\<bar> / 2 ^ 24" using exponent32_Some(1) [OF Some] by (simp add: divide_right_mono)
  finally show ?thesis using Some by (simp add: ulp32_def)
qed

lemma round_even_abs: "\<bar>y\<bar> \<le> of_int n \<Longrightarrow> \<bar>round_even y\<bar> \<le> n"
  using round_even_le [of y n] round_even_ge [of "- n" y] by (simp add: abs_le_iff)

lemma float32_of_bound:
  assumes "\<bar>x\<bar> \<le> of_int n * ulp32 x"
  shows "\<bar>float32_of x\<bar> \<le> of_int n * ulp32 x"
proof -
  have "\<bar>x / ulp32 x\<bar> \<le> of_int n"
    using assms by (simp add: abs_divide pos_divide_le_eq)
  then have "\<bar>round_even (x / ulp32 x)\<bar> \<le> n" by (rule round_even_abs)
  then have "\<bar>of_int (round_even (x / ulp32 x))\<bar> \<le> (of_int n :: rat)"
    by (metis of_int_abs of_int_le_iff)
  then show ?thesis by (simp add: float32_of_def abs_mult mult_right_mono)
qed

lemma pow2_le_mono: "a \<le> b \<Longrightarrow> pow2 a \<le> pow2 b"
proof -
  assume "a \<le> b"
  then have "pow2 b = pow2 a * 2 ^ nat (b - a)"
    using pow2_add [of a "b - a"] by (simp add: pow2_def)
  then show ?thesis by simp
qed

text \<open>A value in the range of \<open>float32\<close> stays there when it is rounded.\<close>

lemma float32_of_in_range:
  assumes "\<bar>x\<bar> \<le> MaxFloat32"
  shows "\<bar>float32_of x\<bar> \<le> MaxFloat32"
proof (cases "exponent32 x")
  case None
  from exponent_from_None [of 254 127 x "- 126"] None have "\<bar>x\<bar> < pow2 (- 126)" by (simp add: exponent32_def)
  then have "\<bar>x\<bar> \<le> of_int (2 ^ 23) * ulp32 x"
    using None pow2_add [of 23 "- 149"] by (simp add: ulp32_def pow2_def)
  from float32_of_bound [OF this] None show ?thesis
    by (simp add: ulp32_def pow2_def MaxFloat32_def)
next
  case (Some e)
  show ?thesis
  proof (cases "e < 127")
    case True
    have eq: "of_int (2 ^ 24) * ulp32 x = pow2 (e + 1)"
    proof -
      have "pow2 (e + 1) = pow2 24 * pow2 (e - 23)" using pow2_add [of 24 "e - 23"] by (simp add: add.commute)
      then show ?thesis using Some by (simp add: ulp32_def pow2_def [of 24])
    qed
    with exponent32_Some(4) [OF Some True] have "\<bar>float32_of x\<bar> \<le> pow2 (e + 1)"
      using float32_of_bound [of x "2 ^ 24"] by simp
    also have "\<dots> \<le> pow2 127" using True by (intro pow2_le_mono) simp
    also have "\<dots> \<le> MaxFloat32" by (simp add: pow2_def MaxFloat32_def)
    finally show ?thesis .
  next
    case False
    with exponent32_Some(3) [OF Some] have "e = 127" by simp
    with Some have "of_int (2 ^ 24 - 1) * ulp32 x = MaxFloat32"
      by (simp add: ulp32_def pow2_def MaxFloat32_def)
    with assms float32_of_bound [of x "2 ^ 24 - 1"] show ?thesis by simp
  qed
qed

end
