(* ===== verification/GoFlag.thy ===== *)
theory GoFlag
  imports GoStrings GoStrconv GoFloat
begin

text \<open>
  The part of Go's package \<^verbatim>\<open>flag\<close> that \<^verbatim>\<open>cmd/main.go\<close> uses: declaring flags on a flag set
  and parsing the arguments of a sub-command, with the conversions \<open>strconv.ParseBool\<close> and
  \<open>strconv.ParseInt\<close> at base zero. Flags that libraries register with a value type of their
  own are \<open>ValueVar\<close>; how such a value, a floating-point number and a duration read their text
  is a parameter.
\<close>

section \<open>Values\<close>

datatype flagval =
    StringVar string
  | BoolVar bool
  | Float64Var float64
  | IntVar int64
  | DurationVar int
  | ValueVar bool string

record flagSetters =
  ParseFloat :: "string \<Rightarrow> num_err + float64"
  ParseDuration :: "string \<Rightarrow> int option"
  SetValue :: "string \<Rightarrow> string \<Rightarrow> go_error option"

definition errParse :: go_error where
  "errParse = Errorf ''parse error'' []"

definition errRange :: go_error where
  "errRange = Errorf ''value out of range'' []"

definition ParseBool :: "string \<Rightarrow> bool option" where
  "ParseBool s =
     (if s \<in> {''1'', ''t'', ''T'', ''true'', ''TRUE'', ''True''} then Some True
      else if s \<in> {''0'', ''f'', ''F'', ''false'', ''FALSE'', ''False''} then Some False
      else None)"

text \<open>
  \<open>strconv.ParseInt(s, 0, 64)\<close>: the base is read off a prefix, a leading zero alone means
  octal, and underscores may separate digits.
\<close>

definition lower_byte :: "char \<Rightarrow> nat" where
  "lower_byte c = (if 65 \<le> byte c \<and> byte c \<le> 90 then byte c + 32 else byte c)"

definition base_digit :: "char \<Rightarrow> nat option" where
  "base_digit c =
     (if 48 \<le> byte c \<and> byte c \<le> 57 then Some (byte c - 48)
      else if 97 \<le> lower_byte c \<and> lower_byte c \<le> 122 then Some (lower_byte c - 87)
      else None)"

fun split_base :: "string \<Rightarrow> nat \<times> string" where
  "split_base (z # x # d # ds) =
     (if z \<noteq> CHR ''0'' then (10, z # x # d # ds)
      else if lower_byte x = 98 then (2, d # ds)
      else if lower_byte x = 111 then (8, d # ds)
      else if lower_byte x = 120 then (16, d # ds)
      else (8, x # d # ds))"
| "split_base (z # ds) = (if z = CHR ''0'' then (8, ds) else (10, z # ds))"
| "split_base [] = (10, [])"

fun parse_base :: "nat \<Rightarrow> nat \<Rightarrow> string \<Rightarrow> num_err + nat" where
  "parse_base b n [] = Inr n"
| "parse_base b n (c # cs) =
     (if c = CHR ''_'' then parse_base b n cs
      else case base_digit c of
             None \<Rightarrow> Inl ErrSyntax
           | Some d \<Rightarrow>
               if b \<le> d then Inl ErrSyntax
               else if 2 ^ 64 \<le> n * b + d then Inl ErrRange
               else parse_base b (n * b + d) cs)"

text \<open>\<open>underscoreOK\<close>: an underscore stands between digits, or a base prefix and a digit.\<close>

datatype last_seen = SeenStart | SeenDigit | SeenUnderscore | SeenOther

fun underscore_scan :: "bool \<Rightarrow> last_seen \<Rightarrow> string \<Rightarrow> bool" where
  "underscore_scan hex i [] = (i \<noteq> SeenUnderscore)"
| "underscore_scan hex i (c # cs) =
     (if is_digit c \<or> hex \<and> 97 \<le> lower_byte c \<and> lower_byte c \<le> 102
      then underscore_scan hex SeenDigit cs
      else if c = CHR ''_'' then i = SeenDigit \<and> underscore_scan hex SeenUnderscore cs
      else i \<noteq> SeenUnderscore \<and> underscore_scan hex SeenOther cs)"

definition underscoreOK :: "string \<Rightarrow> bool" where
  "underscoreOK s =
     (let s = snd (split_sign s) in
      case s of
        z # x # ds \<Rightarrow>
          if z = CHR ''0'' \<and> lower_byte x \<in> {98, 111, 120}
          then underscore_scan (lower_byte x = 120) SeenDigit ds
          else underscore_scan False SeenStart s
      | _ \<Rightarrow> underscore_scan False SeenStart s)"

definition ParseUint0 :: "string \<Rightarrow> num_err + nat" where
  "ParseUint0 s =
     (if s = [] then Inl ErrSyntax
      else case parse_base (fst (split_base s)) 0 (snd (split_base s)) of
             Inl e \<Rightarrow> Inl e
           | Inr n \<Rightarrow>
               if CHR ''_'' \<in> set (snd (split_base s)) \<and> \<not> underscoreOK s then Inl ErrSyntax
               else Inr n)"

definition ParseInt0 :: "string \<Rightarrow> num_err + int64" where
  "ParseInt0 s =
     (if s = [] then Inl ErrSyntax
      else let (neg, ds) = split_sign s in
           case ParseUint0 ds of
             Inl e \<Rightarrow> Inl e
           | Inr n \<Rightarrow>
               if \<not> neg \<and> 2 ^ 63 \<le> n \<or> neg \<and> 2 ^ 63 < n then Inl ErrRange
               else Inr (word_of_int (if neg then - int n else int n)))"

definition num_error :: "num_err \<Rightarrow> go_error" where
  "num_error e = (case e of ErrSyntax \<Rightarrow> errParse | ErrRange \<Rightarrow> errRange)"

text \<open>The \<open>Set\<close> method of a flag's value.\<close>

fun Value_Set :: "flagSetters \<Rightarrow> string \<Rightarrow> flagval \<Rightarrow> string \<Rightarrow> flagval result" where
  "Value_Set S name (StringVar _) s = Inr (StringVar s)"
| "Value_Set S name (BoolVar _) s =
     (case ParseBool s of None \<Rightarrow> Inl errParse | Some b \<Rightarrow> Inr (BoolVar b))"
| "Value_Set S name (Float64Var _) s =
     (case ParseFloat S s of Inl e \<Rightarrow> Inl (num_error e) | Inr x \<Rightarrow> Inr (Float64Var x))"
| "Value_Set S name (IntVar _) s =
     (case ParseInt0 s of Inl e \<Rightarrow> Inl (num_error e) | Inr i \<Rightarrow> Inr (IntVar i))"
| "Value_Set S name (DurationVar _) s =
     (case ParseDuration S s of None \<Rightarrow> Inl errParse | Some d \<Rightarrow> Inr (DurationVar d))"
| "Value_Set S name (ValueVar b _) s =
     (case SetValue S name s of Some err \<Rightarrow> Inl err | None \<Rightarrow> Inr (ValueVar b s))"

fun IsBoolFlag :: "flagval \<Rightarrow> bool" where
  "IsBoolFlag (BoolVar _) = True"
| "IsBoolFlag (ValueVar b _) = b"
| "IsBoolFlag _ = False"


section \<open>Flag sets\<close>

type_synonym FlagSet = "(string \<times> flagval) list"

text \<open>Declaring a flag twice panics. Durations are in nanoseconds.\<close>

fun declare_all :: "FlagSet \<Rightarrow> FlagSet \<Rightarrow> FlagSet outcome" where
  "declare_all fs [] = Ret fs"
| "declare_all fs ((n, v) # ds) =
     (if n \<in> set (map fst fs) then Panic (''flag redefined: '' @ n) else declare_all (fs @ [(n, v)]) ds)"

definition set_flag :: "FlagSet \<Rightarrow> string \<Rightarrow> flagval \<Rightarrow> FlagSet" where
  "set_flag fs name v = map (\<lambda>(n, w). (n, if n = name then v else w)) fs"

text \<open>The name and the value of an argument \<open>name=value\<close>; an equals sign cannot be first.\<close>

definition cut_value :: "string \<Rightarrow> string \<times> string option" where
  "cut_value s =
     (case s of
        [] \<Rightarrow> ([], None)
      | c # cs \<Rightarrow>
          (c # takeWhile (\<lambda>d. d \<noteq> CHR ''='') cs,
           case dropWhile (\<lambda>d. d \<noteq> CHR ''='') cs of [] \<Rightarrow> None | e # v \<Rightarrow> Some v))"

datatype flag_error = ErrHelp | FlagError go_error

datatype one = OneSeen FlagSet "string list" | OneStop "string list" | OneFail flag_error

text \<open>What \<open>parseOne\<close> does with the value of a flag that is declared.\<close>

definition set_one ::
    "flagSetters \<Rightarrow> FlagSet \<Rightarrow> string \<Rightarrow> flagval \<Rightarrow> string option \<Rightarrow> string list \<Rightarrow> one" where
  "set_one S fs name v value args =
     (if IsBoolFlag v then
        (case value of
           Some s \<Rightarrow>
             (case Value_Set S name v s of
                Inl err \<Rightarrow> OneFail (FlagError (Errorf ''invalid boolean value %q for -%s: %v''
                             [ArgS s, ArgS name, ArgE err]))
              | Inr w \<Rightarrow> OneSeen (set_flag fs name w) args)
         | None \<Rightarrow>
             (case Value_Set S name v ''true'' of
                Inl err \<Rightarrow> OneFail (FlagError (Errorf ''invalid boolean flag %s: %v'' [ArgS name, ArgE err]))
              | Inr w \<Rightarrow> OneSeen (set_flag fs name w) args))
      else
        (case (case value of Some s \<Rightarrow> Some (s, args)
                | None \<Rightarrow> (case args of [] \<Rightarrow> None | a # as \<Rightarrow> Some (a, as))) of
           None \<Rightarrow> OneFail (FlagError (Errorf ''flag needs an argument: -%s'' [ArgS name]))
         | Some (s, rest) \<Rightarrow>
             (case Value_Set S name v s of
                Inl err \<Rightarrow> OneFail (FlagError (Errorf ''invalid value %q for flag -%s: %v''
                             [ArgS s, ArgS name, ArgE err]))
              | Inr w \<Rightarrow> OneSeen (set_flag fs name w) rest)))"

definition parse_named :: "flagSetters \<Rightarrow> FlagSet \<Rightarrow> string \<Rightarrow> string \<Rightarrow> string list \<Rightarrow> one" where
  "parse_named S fs s rest args =
     (if rest = [] \<or> hd rest = CHR ''-'' \<or> hd rest = CHR ''=''
      then OneFail (FlagError (Errorf ''bad flag syntax: %s'' [ArgS s]))
      else let (name, value) = cut_value rest in
           case map_of fs name of
             None \<Rightarrow>
               if name = ''help'' \<or> name = ''h'' then OneFail ErrHelp
               else OneFail (FlagError (Errorf ''flag provided but not defined: -%s'' [ArgS name]))
           | Some v \<Rightarrow> set_one S fs name v value args)"

definition parseOne :: "flagSetters \<Rightarrow> FlagSet \<Rightarrow> string list \<Rightarrow> one" where
  "parseOne S fs args =
     (case args of
        [] \<Rightarrow> OneStop []
      | s # rest \<Rightarrow>
          (case s of
             c # d # cs \<Rightarrow>
               if c \<noteq> CHR ''-'' then OneStop args
               else if d = CHR ''-'' then (if cs = [] then OneStop rest else parse_named S fs s cs rest)
               else parse_named S fs s (d # cs) rest
           | _ \<Rightarrow> OneStop args))"

text \<open>Every flag that is seen takes at least its own argument, so the loop of \<open>Parse\<close> ends.\<close>

lemma set_one_shorter: "set_one S fs name v value args = OneSeen fs' args' \<Longrightarrow> length args' \<le> length args"
  by (auto simp: set_one_def split: if_splits option.splits sum.splits list.splits)

lemma parseOne_shorter:
  assumes "parseOne S fs args = OneSeen fs' args'"
  shows "length args' < length args"
proof -
  have named: "length args' \<le> length as" if "parse_named S fs s rest as = OneSeen fs' args'" for s rest as
    using that by (auto simp: parse_named_def split: if_splits option.splits prod.splits
        dest: set_one_shorter)
  from assms show ?thesis
    by (auto simp: parseOne_def split: list.splits if_splits dest!: named)
qed

function Parse_loop :: "flagSetters \<Rightarrow> FlagSet \<Rightarrow> string list \<Rightarrow> flag_error + FlagSet \<times> string list" where
  "Parse_loop S fs args =
     (case parseOne S fs args of
        OneSeen fs' args' \<Rightarrow> Parse_loop S fs' args'
      | OneStop args' \<Rightarrow> Inr (fs, args')
      | OneFail err \<Rightarrow> Inl err)"
  by pat_completeness auto
termination
  by (relation "measure (\<lambda>(S, fs, args). length args)") (auto dest: parseOne_shorter)

declare Parse_loop.simps [simp del]

text \<open>
  \<open>FlagSet.Parse\<close> with the error handling of the flag set: \<open>ExitOnError\<close> ends the process, with
  code 0 after \<open>-help\<close> and 2 otherwise.
\<close>

datatype errorHandling = ContinueOnError | ExitOnError | PanicOnError

datatype parsed =
    Parsed FlagSet
  | ParseExit nat flag_error
  | ParsePanic flag_error
  | ParseError flag_error

definition Parse :: "flagSetters \<Rightarrow> errorHandling \<Rightarrow> FlagSet \<Rightarrow> string list \<Rightarrow> parsed" where
  "Parse S handling fs args =
     (case Parse_loop S fs args of
        Inr (fs', rest) \<Rightarrow> Parsed fs'
      | Inl err \<Rightarrow>
          (case handling of
             ContinueOnError \<Rightarrow> ParseError err
           | ExitOnError \<Rightarrow> ParseExit (if err = ErrHelp then 0 else 2) err
           | PanicOnError \<Rightarrow> ParsePanic err))"


section \<open>The spellings of a flag\<close>

text \<open>A name that can be written on the command line.\<close>

definition flag_name :: "string \<Rightarrow> bool" where
  "flag_name n \<longleftrightarrow> n \<noteq> [] \<and> hd n \<noteq> CHR ''-'' \<and> CHR ''='' \<notin> set n"

lemma takeWhile_no_eq: "x \<notin> set xs \<Longrightarrow> takeWhile (\<lambda>d. d \<noteq> x) xs = xs"
  by (induction xs) auto

lemma dropWhile_no_eq: "x \<notin> set xs \<Longrightarrow> dropWhile (\<lambda>d. d \<noteq> x) xs = []"
  by (induction xs) auto

lemma cut_value_name: "flag_name n \<Longrightarrow> cut_value n = (n, None)"
  by (cases n) (auto simp: cut_value_def flag_name_def takeWhile_no_eq dropWhile_no_eq)

lemma cut_value_eq: "flag_name n \<Longrightarrow> cut_value (n @ CHR ''='' # v) = (n, Some v)"
  by (cases n)
    (auto simp: cut_value_def flag_name_def takeWhile_append2 dropWhile_append2 takeWhile_append
      dropWhile_append takeWhile_no_eq dropWhile_no_eq)

lemma parse_named_cut:
  assumes "flag_name n" "map_of fs n = Some w"
  shows "parse_named S fs s (n @ CHR ''='' # v) args = set_one S fs n w (Some v) args"
    and "parse_named S fs s n args = set_one S fs n w None args"
proof -
  have "n \<noteq> []" "hd n \<noteq> CHR ''-''" "hd n \<noteq> CHR ''=''"
    using assms(1) by (auto simp: flag_name_def neq_Nil_conv)
  with assms show "parse_named S fs s (n @ CHR ''='' # v) args = set_one S fs n w (Some v) args"
    and "parse_named S fs s n args = set_one S fs n w None args"
    by (simp_all add: parse_named_def cut_value_eq cut_value_name)
qed

lemma parseOne_dashes:
  assumes "flag_name n"
  shows "parseOne S fs ((CHR ''-'' # n @ t) # args) = parse_named S fs (CHR ''-'' # n @ t) (n @ t) args"
    and "parseOne S fs ((CHR ''-'' # CHR ''-'' # n @ t) # args) =
           parse_named S fs (CHR ''-'' # CHR ''-'' # n @ t) (n @ t) args"
  using assms by (cases n; simp add: parseOne_def flag_name_def)+

lemma set_one_next:
  "\<not> IsBoolFlag w \<Longrightarrow> set_one S fs n w None (v # args) = set_one S fs n w (Some v) args"
  by (simp add: set_one_def)

text \<open>
  A flag may be written with one dash or two, and its value behind an equals sign or, when it
  is no boolean, as the next argument: all spellings have the same effect.
\<close>

lemma flag_spellings:
  assumes "flag_name n" "map_of fs n = Some w"
  shows "parseOne S fs ((''-'' @ n @ ''='' @ v) # args) = set_one S fs n w (Some v) args"
    and "parseOne S fs ((''--'' @ n @ ''='' @ v) # args) = set_one S fs n w (Some v) args"
    and "\<not> IsBoolFlag w \<Longrightarrow> parseOne S fs ((''-'' @ n) # v # args) = set_one S fs n w (Some v) args"
    and "\<not> IsBoolFlag w \<Longrightarrow> parseOne S fs ((''--'' @ n) # v # args) = set_one S fs n w (Some v) args"
  using assms parseOne_dashes [OF assms(1), of S fs "[]"]
  by (simp_all add: parseOne_dashes parse_named_cut set_one_next)

text \<open>
  The reference for a command line that only sets flags: the settings are applied in order, and
  the first text that a flag refuses is the error.
\<close>

fun set_all :: "flagSetters \<Rightarrow> FlagSet \<Rightarrow> (string \<times> string) list \<Rightarrow> flag_error + FlagSet" where
  "set_all S fs [] = Inr fs"
| "set_all S fs ((n, v) # kvs) =
     (case map_of fs n of
        None \<Rightarrow> Inl (FlagError (Errorf ''flag provided but not defined: -%s'' [ArgS n]))
      | Some w \<Rightarrow>
          (case Value_Set S n w v of
             Inl err \<Rightarrow> Inl (FlagError (Errorf
               (if IsBoolFlag w then ''invalid boolean value %q for -%s: %v''
                else ''invalid value %q for flag -%s: %v'') [ArgS v, ArgS n, ArgE err]))
           | Inr w' \<Rightarrow> set_all S (set_flag fs n w') kvs))"

definition setting :: "string \<times> string \<Rightarrow> string" where
  "setting kv = ''--'' @ fst kv @ ''='' @ snd kv"

lemma map_fst_set_flag [simp]: "map fst (set_flag fs n v) = map fst fs"
  by (induction fs) (auto simp: set_flag_def)

lemma map_of_set_flag:
  "map_of (set_flag fs n v) m = (if m = n then map_option (\<lambda>_. v) (map_of fs m) else map_of fs m)"
  by (induction fs) (auto simp: set_flag_def)

lemma Parse_settings:
  assumes "list_all (\<lambda>kv. flag_name (fst kv) \<and> fst kv \<noteq> ''help'' \<and> fst kv \<noteq> ''h'') kvs"
  shows "Parse_loop S fs (map setting kvs) = map_sum id (\<lambda>fs'. (fs', [])) (set_all S fs kvs)"
  using assms
proof (induction kvs arbitrary: fs)
  case Nil
  then show ?case by (simp add: Parse_loop.simps parseOne_def)
next
  case (Cons kv kvs)
  obtain n v where kv: "kv = (n, v)" by (rule prod.exhaust)
  with Cons.prems have n: "flag_name n" "n \<noteq> ''help''" "n \<noteq> ''h''" by simp_all
  show ?case
  proof (cases "map_of fs n")
    case None
    have "n \<noteq> []" "hd n \<noteq> CHR ''-''" "hd n \<noteq> CHR ''=''"
      using n(1) by (auto simp: flag_name_def neq_Nil_conv)
    with None n kv show ?thesis
      by (simp add: Parse_loop.simps [of S fs "_ # _"] setting_def parseOne_dashes parse_named_def
          cut_value_eq)
  next
    case (Some w)
    have one: "parseOne S fs (setting kv # args) = set_one S fs n w (Some v) args" for args
      using flag_spellings(2) [OF n(1) Some] kv by (simp add: setting_def)
    with Some Cons kv show ?thesis
      by (simp add: Parse_loop.simps [of S fs "_ # _"] set_one_def split: sum.split)
  qed
qed

text \<open>A string flag ends up with the last text set, or its default.\<close>

definition last_setting :: "(string \<times> string) list \<Rightarrow> string \<Rightarrow> string option" where
  "last_setting kvs n = last_some (\<lambda>(m, v). if m = n then Some v else None) kvs"

text \<open>Setting a flag keeps its kind, and with it what it accepts.\<close>

lemma Value_Set_kind: "Value_Set S n w v = Inr w' \<Longrightarrow> Value_Set S n w' = Value_Set S n w"
  by (cases w) (auto simp: fun_eq_iff split: option.splits sum.splits)

lemma map_of_set_flag_kind:
  assumes "map_of fs m = Some w" "Value_Set S m w v = Inr w'"
  shows "(\<exists>u. map_of (set_flag fs m w') n = Some u \<and> is_ok (Value_Set S n u x)) \<longleftrightarrow>
    (\<exists>u. map_of fs n = Some u \<and> is_ok (Value_Set S n u x))"
  using assms by (auto simp: map_of_set_flag Value_Set_kind)

lemma set_all_ok_iff:
  "(\<exists>fs'. set_all S fs kvs = Inr fs') \<longleftrightarrow>
     (\<forall>(n, v) \<in> set kvs. \<exists>w. map_of fs n = Some w \<and> is_ok (Value_Set S n w v))"
proof (induction kvs arbitrary: fs)
  case (Cons kv kvs)
  obtain m v where kv: "kv = (m, v)" by (rule prod.exhaust)
  show ?case
  proof (cases "\<exists>w w'. map_of fs m = Some w \<and> Value_Set S m w v = Inr w'")
    case True
    then obtain w w' where w: "map_of fs m = Some w" "Value_Set S m w v = Inr w'" by blast
    with Cons.IH [of "set_flag fs m w'"] map_of_set_flag_kind [OF w] kv show ?thesis by auto
  next
    case False
    with kv show ?thesis by (auto simp: is_ok_iff split: option.splits sum.splits)
  qed
qed simp

lemma set_all_value:
  "set_all S fs kvs = Inr fs' \<Longrightarrow> map_of fs n = Some w \<Longrightarrow>
     \<exists>w'. map_of fs' n = Some w' \<and>
       (case last_setting kvs n of None \<Rightarrow> w' = w | Some x \<Rightarrow> Value_Set S n w x = Inr w')"
proof (induction S fs kvs arbitrary: w rule: set_all.induct)
  case (2 S fs m v kvs)
  then obtain u u' where u: "map_of fs m = Some u" "Value_Set S m u v = Inr u'"
      "set_all S (set_flag fs m u') kvs = Inr fs'"
    by (auto split: option.splits sum.splits)
  note ih = "2.IH" [OF u(1,2,3)]
  show ?case
  proof (cases "m = n")
    case True
    with u "2.prems"(2) have "map_of (set_flag fs m u') n = Some u'" "Value_Set S n u' = Value_Set S n w"
      by (auto simp: map_of_set_flag Value_Set_kind)
    with ih [OF this(1)] True u(2) show ?thesis using "2.prems"(2) u(1)
      by (auto simp: last_setting_def split: option.splits)
  next
    case False
    with "2.prems"(2) have "map_of (set_flag fs m u') n = Some w" by (simp add: map_of_set_flag)
    from ih [OF this] False show ?thesis by (auto simp: last_setting_def split: option.splits)
  qed
qed (simp add: last_setting_def)

lemma set_all_string:
  "set_all S fs kvs = Inr fs' \<Longrightarrow> map_of fs n = Some (StringVar d) \<Longrightarrow>
     map_of fs' n = Some (StringVar (case last_setting kvs n of None \<Rightarrow> d | Some v \<Rightarrow> v))"
  by (drule (1) set_all_value) (auto split: option.splits)

lemma declare_all_distinct:
  "distinct (map fst (fs @ ds)) \<Longrightarrow> declare_all fs ds = Ret (fs @ ds)"
  by (induction fs ds rule: declare_all.induct) auto

end
