(* ===== verification/Process.thy ===== *)
theory Process
  imports GoFlag
begin

text \<open>
  The vocabulary of \<^verbatim>\<open>cmd/main.go\<close> and of the set-up functions it calls: the options of
  the manager and its servers, and processes. A process is a computation over the history of
  what has been done so far; it ends with a value or with an exit code. The libraries that are
  not part of the repository (controller-runtime, Kueue's job framework, the certificate
  watcher, the Prometheus registry) are the parameter \<open>reply\<close>: their answer to an action, which
  may depend on the history.
\<close>

section \<open>Options\<close>

text \<open>A \<open>*certwatcher.CertWatcher\<close> is the pair of files it watches.\<close>

type_synonym certWatcher = "string \<times> string"

datatype tlsOpt = DisableHTTP2 | CertificateOf certWatcher

record tlsConfig =
  NextProtos :: "string list"
  GetCertificate :: "certWatcher option"

fun applyTLSOpt :: "tlsOpt \<Rightarrow> tlsConfig \<Rightarrow> tlsConfig" where
  "applyTLSOpt DisableHTTP2 c = c\<lparr>NextProtos := [''http/1.1'']\<rparr>"
| "applyTLSOpt (CertificateOf w) c = c\<lparr>GetCertificate := Some w\<rparr>"

record metricsOptions =
  BindAddress :: string
  SecureServing :: bool
  MetricsTLSOpts :: "tlsOpt list"
  FilterProvider :: "string option"

record webhookOptions =
  WebhookTLSOpts :: "tlsOpt list"

record restConfig =
  RestQPS :: rat
  RestBurst :: int64

record managerOptions =
  MgrMetrics :: metricsOptions
  HealthProbeBindAddress :: string
  LeaderElection :: bool
  LeaderElectionID :: string
  MgrDurations :: "(int \<times> int \<times> int) option"
  MgrWebhookServer :: "webhookOptions option"
  DefaultNamespaces :: "string list"


section \<open>Processes\<close>

text \<open>What the set-up functions hand to the manager; a nil \<open>WaitForPodsReady\<close> is \<^const>\<open>None\<close>.\<close>

record GroupVersionKind =
  GvkGroup :: string
  GvkVersion :: string
  GvkKind :: string

record genericReconciler =
  ReconcilerName :: string
  EventRecorder :: string
  WaitForPodsReady :: "string option"

datatype eventFilter = PendingStatusFilter | ConfigMapFilter string

record controllerSpec =
  CtrlNamed :: string
  CtrlFor :: string
  CtrlFilter :: eventFilter

datatype action =
    AddToScheme string
  | MustRegister string
  | NewCertWatcher string string
  | NewManager restConfig managerOptions
  | NewReconciler genericReconciler
  | SetupReconciler genericReconciler
  | CompleteController controllerSpec
  | SetupWorkloadOwnerIndex GroupVersionKind
  | RegisterWebhook string
  | AddRunnable certWatcher
  | AddHealthzCheck string
  | AddReadyzCheck string
  | StartManager

datatype event =
    Act action
  | LogInfo string
  | LogError string go_error
  | Stdout string "arg list"
  | Stderr string
  | FlagFailure go_error
  | Usage

type_synonym history = "event list"
type_synonym 'a proc = "history \<Rightarrow> history \<times> (nat + 'a)"

record platform =
  reply :: "history \<Rightarrow> action \<Rightarrow> go_error option"
  setters :: flagSetters
  zapFlags :: FlagSet
  clientFlags :: FlagSet
  kubeConfig :: "restConfig option"
  files :: "string \<Rightarrow> bytes result"

definition returnP :: "'a \<Rightarrow> 'a proc" where
  "returnP a h = (h, Inr a)"

definition bindP :: "'a proc \<Rightarrow> ('a \<Rightarrow> 'b proc) \<Rightarrow> 'b proc" where
  "bindP p g h = (case p h of (h', Inl c) \<Rightarrow> (h', Inl c) | (h', Inr a) \<Rightarrow> g a h')"

definition thenP :: "unit proc \<Rightarrow> 'b proc \<Rightarrow> 'b proc" where
  "thenP p q = bindP p (\<lambda>_. q)"

definition exitP :: "nat \<Rightarrow> 'a proc" where
  "exitP c h = (h, Inl c)"

definition emitP :: "event \<Rightarrow> unit proc" where
  "emitP e h = (h @ [e], Inr ())"

text \<open>Perform an action; on an error log it and exit with code 1.\<close>

definition orDie :: "platform \<Rightarrow> action \<Rightarrow> string \<Rightarrow> unit proc" where
  "orDie P a errMsg h =
     (case reply P h a of
        None \<Rightarrow> (h @ [Act a], Inr ())
      | Some err \<Rightarrow> (h @ [Act a, LogError errMsg err], Inl 1))"

text \<open>
  Perform an action and return its error; \<open>orFail\<close> logs the error of such a call and exits with
  code 1, and \<open>mustP\<close> panics on it.
\<close>

definition callP :: "platform \<Rightarrow> action \<Rightarrow> go_error option proc" where
  "callP P a h = (h @ [Act a], Inr (reply P h a))"

definition orFail :: "go_error option proc \<Rightarrow> string \<Rightarrow> unit proc" where
  "orFail p errMsg =
     bindP p (\<lambda>err. case err of
       None \<Rightarrow> returnP ()
     | Some e \<Rightarrow> thenP (emitP (LogError errMsg e)) (exitP 1))"

definition mustP :: "platform \<Rightarrow> action \<Rightarrow> unit proc" where
  "mustP P a = bindP (callP P a) (\<lambda>err. case err of None \<Rightarrow> returnP () | Some e \<Rightarrow> exitP 2)"

text \<open>A Go panic ends the process with code 2.\<close>

definition orPanic :: "'a outcome \<Rightarrow> 'a proc" where
  "orPanic o' = (case o' of Ret a \<Rightarrow> returnP a | Panic msg \<Rightarrow> exitP 2)"


section \<open>What a process performs\<close>

fun actions :: "history \<Rightarrow> action list" where
  "actions [] = []"
| "actions (e # h) = (case e of Act a \<Rightarrow> a # actions h | _ \<Rightarrow> actions h)"

lemma actions_append [simp]: "actions (h @ h') = actions h @ actions h'"
  by (induction h) (auto split: event.split)

text \<open>
  An action that returns an error may be refused, and the answer counts that the platform gives
  at that point of the history; the registration of a webhook returns nothing.
\<close>

fun fallible :: "action \<Rightarrow> bool" where
  "fallible (RegisterWebhook path) = False"
| "fallible _ = True"

definition accepted :: "platform \<Rightarrow> history \<Rightarrow> action \<Rightarrow> bool" where
  "accepted P h a \<longleftrightarrow> (fallible a \<longrightarrow> reply P h a = None)"

text \<open>\<open>went_well P h t\<close>: no action of the events \<open>t\<close> was refused when they happened after \<open>h\<close>.\<close>

fun went_well :: "platform \<Rightarrow> history \<Rightarrow> history \<Rightarrow> bool" where
  "went_well P h [] = True"
| "went_well P h (e # t) =
     ((case e of Act a \<Rightarrow> accepted P h a | _ \<Rightarrow> True) \<and> went_well P (h @ [e]) t)"

lemma went_well_append [simp]: "went_well P h (t @ u) \<longleftrightarrow> went_well P h t \<and> went_well P (h @ t) u"
  by (induction t arbitrary: h) auto

text \<open>
  \<open>follows P as h out\<close>: starting from \<open>h\<close>, the steps \<open>as\<close> are performed in this order, and \<open>out\<close> is
  what they lead to. Either all of them are accepted, and the process goes on; or the first
  one that is refused is the last one performed, its error is logged, and the process exits
  with code 1.
\<close>

definition refusedAt :: "platform \<Rightarrow> action list \<Rightarrow> history \<Rightarrow> history \<Rightarrow> action \<Rightarrow> go_error \<Rightarrow> bool" where
  "refusedAt P as h t a err \<longleftrightarrow>
     went_well P h t \<and> prefix (actions t @ [a]) as \<and> fallible a \<and> reply P (h @ t) a = Some err"

definition follows :: "platform \<Rightarrow> action list \<Rightarrow> history \<Rightarrow> history \<times> (nat + 'a) \<Rightarrow> bool" where
  "follows P as h out \<longleftrightarrow>
     (case out of
        (h', Inr b) \<Rightarrow> \<exists>t. h' = h @ t \<and> went_well P h t \<and> actions t = as
      | (h', Inl c) \<Rightarrow> c = 1 \<and>
          (\<exists>t a msg err. h' = h @ t @ [Act a, LogError msg err] \<and> refusedAt P as h t a err))"

text \<open>\<open>performs P p as a\<close>: from every history \<open>p\<close> follows the steps \<open>as\<close>, and the value it returns is \<open>a\<close>.\<close>

definition performs :: "platform \<Rightarrow> 'a proc \<Rightarrow> action list \<Rightarrow> 'a \<Rightarrow> bool" where
  "performs P p as a \<longleftrightarrow> (\<forall>h. follows P as h (p h) \<and> (\<forall>h' b. p h = (h', Inr b) \<longrightarrow> b = a))"

named_theorems performs_rules \<open>actions of the building blocks of the commands\<close>

lemma performs_follows: "performs P p as a \<Longrightarrow> follows P as h (p h)"
  by (simp add: performs_def)

lemma performs_Inr:
  assumes "performs P p as a" "p h = (h', Inr b)"
  obtains t where "b = a" "h' = h @ t" "went_well P h t" "actions t = as"
proof -
  have "b = a" using assms by (simp add: performs_def)
  then show thesis using performs_follows [OF assms(1), of h] assms(2) that by (auto simp: follows_def)
qed

lemma performs_Inl:
  assumes "performs P p as a" "p h = (h', Inl c)"
  obtains t x msg err where "c = 1" "h' = h @ t @ [Act x, LogError msg err]" "refusedAt P as h t x err"
  using performs_follows [OF assms(1), of h] assms(2) by (auto simp: follows_def)

lemma performsI:
  assumes "\<And>h h' b. p h = (h', Inr b) \<Longrightarrow> b = a \<and> (\<exists>t. h' = h @ t \<and> went_well P h t \<and> actions t = as)"
    and "\<And>h h' c. p h = (h', Inl c) \<Longrightarrow>
      c = 1 \<and> (\<exists>t x msg err. h' = h @ t @ [Act x, LogError msg err] \<and> refusedAt P as h t x err)"
  shows "performs P p as a"
  using assms by (auto simp: performs_def follows_def split: prod.split sum.split)

text \<open>A refusal in a first or in a second part is a refusal in the whole.\<close>

lemma refusedAt_first: "refusedAt P as h t x err \<Longrightarrow> refusedAt P (as @ bs) h t x err"
  by (auto simp: refusedAt_def intro: prefix_prefix)

lemma refusedAt_second:
  assumes "went_well P h t" "actions t = as" "refusedAt P bs (h @ t) u x err"
  shows "refusedAt P (as @ bs) h (t @ u) x err"
  using assms by (auto simp: refusedAt_def)

lemma performs_return [performs_rules]: "performs P (returnP a) [] a"
  by (auto intro!: performsI simp: returnP_def)

lemma performs_bind [performs_rules]:
  assumes p: "performs P p as a" and g: "performs P (g a) bs b"
  shows "performs P (bindP p g) (as @ bs) b"
proof (rule performsI)
  fix h h' x
  assume "bindP p g h = (h', Inr x)"
  then obtain h1 y where one: "p h = (h1, Inr y)" "g y h1 = (h', Inr x)"
    by (auto simp: bindP_def split: prod.splits sum.splits)
  from p one(1) obtain t where t: "y = a" "h1 = h @ t" "went_well P h t" "actions t = as"
    by (rule performs_Inr)
  from g one(2) [unfolded t(1)] obtain u where "x = b" "h' = h1 @ u" "went_well P h1 u" "actions u = bs"
    by (rule performs_Inr)
  with t show "x = b \<and> (\<exists>t. h' = h @ t \<and> went_well P h t \<and> actions t = as @ bs)"
    by (intro conjI exI [of _ "t @ u"]) simp_all
next
  fix h h' c
  assume "bindP p g h = (h', Inl c)"
  then consider "p h = (h', Inl c)" | h1 y where "p h = (h1, Inr y)" "g y h1 = (h', Inl c)"
    by (auto simp: bindP_def split: prod.splits sum.splits)
  then show "c = 1 \<and> (\<exists>t x msg err. h' = h @ t @ [Act x, LogError msg err] \<and> refusedAt P (as @ bs) h t x err)"
  proof cases
    case 1
    with p show ?thesis by (rule performs_Inl) (blast intro: refusedAt_first)
  next
    case (2 h1 y)
    from p 2(1) obtain t where t: "y = a" "h1 = h @ t" "went_well P h t" "actions t = as"
      by (rule performs_Inr)
    from g 2(2) [unfolded t(1)] obtain u x msg err where
      u: "c = 1" "h' = h1 @ u @ [Act x, LogError msg err]" "refusedAt P bs h1 u x err" by (rule performs_Inl)
    from refusedAt_second [OF t(3,4) u(3) [unfolded t(2)]] u(1,2) t(2) show ?thesis
      by (intro conjI exI [of _ "t @ u"] exI) simp_all
  qed
qed

lemma performs_then [performs_rules]:
  "performs P p as () \<Longrightarrow> performs P q bs b \<Longrightarrow> performs P (thenP p q) (as @ bs) b"
  unfolding thenP_def by (rule performs_bind)

lemma performs_log [performs_rules]: "performs P (emitP (LogInfo m)) [] ()"
  by (auto intro!: performsI simp: emitP_def)

lemma fallible_intros [performs_rules]:
  "fallible (NewCertWatcher c k)" "fallible (NewManager cfg opts)" "fallible (AddRunnable w)"
  "fallible (AddHealthzCheck n)" "fallible (AddReadyzCheck n)" "fallible StartManager"
  by simp_all

lemma performs_orDie [performs_rules]:
  assumes "fallible a"
  shows "performs P (orDie P a msg) [a] ()"
  using assms
  by (auto intro!: performsI simp: orDie_def accepted_def refusedAt_def split: option.splits)

lemma performs_cong: "performs P p as a \<Longrightarrow> as = bs \<Longrightarrow> a = b \<Longrightarrow> performs P p bs b"
  by simp

lemma performs_bind_pair:
  assumes "performs P p as (x, y)" "performs P (g x y) bs b"
  shows "performs P (bindP p (\<lambda>(x, y). g x y)) (as @ bs) b"
  by (rule performs_bind [OF assms(1)]) (simp add: assms(2))

text \<open>
  The same for a computation that returns the first error instead of exiting: \<open>attempts P p as\<close>
  says that \<open>p\<close> performs \<open>as\<close>, or stops at the first refused action and returns its error.
\<close>

definition attempts :: "platform \<Rightarrow> go_error option proc \<Rightarrow> action list \<Rightarrow> bool" where
  "attempts P p as \<longleftrightarrow> (\<forall>h.
     (\<exists>t. p h = (h @ t, Inr None) \<and> went_well P h t \<and> actions t = as) \<or>
     (\<exists>t x err. p h = (h @ t @ [Act x], Inr (Some err)) \<and> refusedAt P as h t x err))"

lemma attemptsE:
  assumes "attempts P p as"
  obtains (all) t where "p h = (h @ t, Inr None)" "went_well P h t" "actions t = as"
  | (stop) t x err where "p h = (h @ t @ [Act x], Inr (Some err))" "refusedAt P as h t x err"
  using assms unfolding attempts_def by blast

lemma attempts_call:
  assumes "fallible a"
  shows "attempts P (callP P a) [a]"
  unfolding attempts_def
proof
  fix h
  show "(\<exists>t. callP P a h = (h @ t, Inr None) \<and> went_well P h t \<and> actions t = [a]) \<or>
     (\<exists>t x err. callP P a h = (h @ t @ [Act x], Inr (Some err)) \<and> refusedAt P [a] h t x err)"
  proof (cases "reply P h a")
    case None
    then show ?thesis by (intro disjI1 exI [of _ "[Act a]"]) (simp add: callP_def accepted_def)
  next
    case (Some err)
    with assms show ?thesis by (intro disjI2 exI [of _ "[]"] exI [of _ a]) (simp add: callP_def refusedAt_def)
  qed
qed

lemma attempts_seq:
  assumes "attempts P p as" "attempts P q bs"
  shows "attempts P (bindP p (\<lambda>err. case err of None \<Rightarrow> q | Some e \<Rightarrow> returnP (Some e))) (as @ bs)"
    (is "attempts P ?pq _")
  unfolding attempts_def
proof
  fix h
  from assms(1) show "(\<exists>t. ?pq h = (h @ t, Inr None) \<and> went_well P h t \<and> actions t = as @ bs) \<or>
    (\<exists>t x err. ?pq h = (h @ t @ [Act x], Inr (Some err)) \<and> refusedAt P (as @ bs) h t x err)"
  proof (cases rule: attemptsE [where h = h])
    case (all t)
    from assms(2) show ?thesis
    proof (cases rule: attemptsE [where h = "h @ t"])
      case (all u)
      with \<open>p h = _\<close> \<open>went_well P h t\<close> \<open>actions t = as\<close> show ?thesis
        by (intro disjI1 exI [of _ "t @ u"]) (simp add: bindP_def)
    next
      case (stop u x err)
      with \<open>p h = _\<close> refusedAt_second [OF \<open>went_well P h t\<close> \<open>actions t = as\<close>] show ?thesis
        by (intro disjI2 exI [of _ "t @ u"] exI [of _ x]) (simp add: bindP_def)
    qed
  next
    case (stop t x err)
    then show ?thesis by (auto simp: bindP_def returnP_def intro: refusedAt_first)
  qed
qed

lemma performs_orFail [performs_rules]:
  assumes "attempts P p as"
  shows "performs P (orFail p msg) as ()"
proof -
  have "follows P as h (orFail p msg h)" for h
    using assms by (cases rule: attemptsE [where h = h])
      (auto simp: follows_def orFail_def bindP_def thenP_def returnP_def exitP_def emitP_def)
  then show ?thesis by (simp add: performs_def)
qed

end
