(* ===== verification/Registration.thy ===== *)
theory Registration
  imports StatusReconciler ConfigMapController MutateCommand Process
begin

text \<open>
  What the components hand to the libraries at start-up: the package initialisers (schemes in
  \<^verbatim>\<open>cmd/main.go\<close>, counters in the two \<^verbatim>\<open>metrics.go\<close>), the set-up functions of the three
  controllers and of the webhook, the accessors \<open>GVK\<close> and \<open>Object\<close> of the generic job, and the
  logger of an admission request.
\<close>

section \<open>Package initialisation\<close>

definition celMetricNames :: "string list" where
  "celMetricNames = [''tekton_kueue_cel_evaluations_total'', ''tekton_kueue_cel_mutations_total'']"

definition webhookMetricNames :: "string list" where
  "webhookMetricNames =
     [''tekton_kueue_config_reload_total'', ''tekton_kueue_config_reload_failure_total'']"

definition cel_init :: "platform \<Rightarrow> unit proc" where
  "cel_init P =
     thenP (mustP P (MustRegister (celMetricNames ! 0))) (mustP P (MustRegister (celMetricNames ! 1)))"

definition webhook_init :: "platform \<Rightarrow> unit proc" where
  "webhook_init P =
     thenP (mustP P (MustRegister (webhookMetricNames ! 0)))
       (mustP P (MustRegister (webhookMetricNames ! 1)))"

definition main_init :: "platform \<Rightarrow> unit proc" where
  "main_init P =
     thenP (mustP P (AddToScheme ''clientgoscheme''))
     (thenP (mustP P (AddToScheme ''kueue''))
       (mustP P (AddToScheme ''tekv1'')))"

text \<open>A package is initialised after those it imports.\<close>

definition initialise :: "platform \<Rightarrow> unit proc" where
  "initialise P = thenP (cel_init P) (thenP (webhook_init P) (main_init P))"


section \<open>The generic job\<close>

definition PLRGVK :: GroupVersionKind where
  "PLRGVK = \<lparr>GvkGroup = ''tekton.dev'', GvkVersion = ''v1'', GvkKind = ''PipelineRun''\<rparr>"

definition GVK :: "'r PipelineRun \<Rightarrow> GroupVersionKind" where
  "GVK p = PLRGVK"

definition Object :: "'r PipelineRun \<Rightarrow> 'r runtimeObject" where
  "Object p = PipelineRunObj p"

definition plrReconciler :: genericReconciler where
  "plrReconciler =
     \<lparr>ReconcilerName = ''PipelineRunWorkloads'', EventRecorder = ''kueue-plr'', WaitForPodsReady = None\<rparr>"

definition SetupWithManager :: "platform \<Rightarrow> go_error option proc" where
  "SetupWithManager P =
     bindP (callP P (NewReconciler plrReconciler)) (\<lambda>err. case err of
       None \<Rightarrow> callP P (SetupReconciler plrReconciler)
     | Some e \<Rightarrow> returnP (Some e))"

definition SetupIndexer :: "platform \<Rightarrow> go_error option proc" where
  "SetupIndexer P = callP P (SetupWorkloadOwnerIndex PLRGVK)"


section \<open>The reconcilers\<close>

definition pendingStatusController :: controllerSpec where
  "pendingStatusController =
     \<lparr>CtrlNamed = ''PipelineRunStatus'', CtrlFor = ''PipelineRun'', CtrlFilter = PendingStatusFilter\<rparr>"

definition SetupPendingStatusWithManager :: "platform \<Rightarrow> go_error option proc" where
  "SetupPendingStatusWithManager P = callP P (CompleteController pendingStatusController)"

definition configController :: "string \<Rightarrow> controllerSpec" where
  "configController namespace =
     \<lparr>CtrlNamed = ''webhook-config'', CtrlFor = ''ConfigMap'', CtrlFilter = ConfigMapFilter namespace\<rparr>"

definition ConfigMapReconciler_SetupWithManager :: "platform \<Rightarrow> go_error option proc" where
  "ConfigMapReconciler_SetupWithManager P =
     (case GetCurrentNamespace (files P) of
        Inl err \<Rightarrow> returnP (Some err)
      | Inr namespace \<Rightarrow> callP P (CompleteController (configController namespace)))"

text \<open>The objects whose events the filters see.\<close>

datatype 'r watched = WatchedRun "'r runtimeObject" | WatchedConfigMap configMap

fun filterAccepts :: "eventFilter \<Rightarrow> 'r watched \<Rightarrow> bool" where
  "filterAccepts PendingStatusFilter (WatchedRun o') = needsPendingStatusCondition o'"
| "filterAccepts (ConfigMapFilter namespace) (WatchedConfigMap cm) = configMapFilter namespace cm"
| "filterAccepts _ _ = False"


section \<open>The webhook\<close>

definition webhookPath :: string where
  "webhookPath = ''/mutate-tekton-dev-v1-pipelinerun''"

text \<open>\<open>SetupPipelineRunWebhookWithManager\<close> registers the handler and returns no error.\<close>

definition SetupPipelineRunWebhookWithManager :: "go_error option proc" where
  "SetupPipelineRunWebhookWithManager =
     thenP (emitP (Act (RegisterWebhook webhookPath))) (returnP None)"

text \<open>
  \<open>logConstructor\<close>: a logger is the list of its key and value pairs. \<open>accessor\<close> is
  \<open>meta.Accessor\<close>, which yields the name and the generated-name prefix of an object, or an error.
\<close>

datatype logValue = LogText string | LogRef string string | LogResource string string string

record admissionRequest =
  ReqNamespace :: string
  ReqName :: string
  ReqResource :: "string \<times> string \<times> string"
  ReqUsername :: string
  ReqUID :: string
  ReqObject :: bytes

type_synonym logger = "(string \<times> logValue) list"

definition logConstructor ::
    "(bytes \<Rightarrow> (string \<times> string) result) \<Rightarrow> logger \<Rightarrow> admissionRequest option \<Rightarrow> logger" where
  "logConstructor accessor base req =
     (let gvk = PLRGVK;
          log = base @ [(''webhookGroup'', LogText (GvkGroup gvk)), (''webhookKind'', LogText (GvkKind gvk))]
      in case req of
           None \<Rightarrow> log
         | Some r \<Rightarrow>
             (let log = log @
                [(''webhookGroup'', LogText (GvkGroup PLRGVK)),
                 (''webhookKind'', LogText (GvkKind gvk)),
                 (GvkKind gvk, LogRef (ReqNamespace r) (ReqName r)),
                 (''namespace'', LogText (ReqNamespace r)),
                 (''name'', LogText (ReqName r)),
                 (''resource'', case ReqResource r of (g, v, n) \<Rightarrow> LogResource g v n),
                 (''user'', LogText (ReqUsername r)),
                 (''requestID'', LogText (ReqUID r))]
              in case accessor (ReqObject r) of
                   Inl err \<Rightarrow> log
                 | Inr (name, generateName) \<Rightarrow>
                     if name = [] then log @ [(''generateName'', LogText generateName)] else log))"


section \<open>Lemmas\<close>

lemmas attempts_setup =
  attempts_call attempts_seq [OF attempts_call attempts_call, simplified]

lemma performs_setup [performs_rules]:
  "performs P (orFail (SetupWithManager P) msg) [NewReconciler plrReconciler, SetupReconciler plrReconciler] ()"
  "performs P (orFail (SetupIndexer P) msg) [SetupWorkloadOwnerIndex PLRGVK] ()"
  "performs P (orFail (SetupPendingStatusWithManager P) msg) [CompleteController pendingStatusController] ()"
  unfolding SetupWithManager_def SetupIndexer_def SetupPendingStatusWithManager_def
  by (rule performs_orFail, rule attempts_setup, simp_all)+

lemma performs_setupConfigMap:
  "GetCurrentNamespace (files P) = Inr ns \<Longrightarrow>
   performs P (orFail (ConfigMapReconciler_SetupWithManager P) msg)
     [CompleteController (configController ns)] ()"
  by (simp add: ConfigMapReconciler_SetupWithManager_def performs_orFail attempts_call)

lemma performs_setupWebhook [performs_rules]:
  "performs P (orFail SetupPipelineRunWebhookWithManager msg) [RegisterWebhook webhookPath] ()"
proof (rule performs_orFail)
  have "SetupPipelineRunWebhookWithManager h = (h @ [Act (RegisterWebhook webhookPath)], Inr None)" for h
    by (simp add: SetupPipelineRunWebhookWithManager_def thenP_def bindP_def emitP_def returnP_def)
  then show "attempts P SetupPipelineRunWebhookWithManager [RegisterWebhook webhookPath]"
    by (auto simp: attempts_def accepted_def)
qed

text \<open>
  The watcher of the configuration passes on exactly the events of the one ConfigMap, and the
  pending-status controller no event of a ConfigMap.
\<close>

lemma filters_select:
  "filterAccepts (CtrlFilter (configController ns)) (WatchedConfigMap cm) \<longleftrightarrow>
     CmName cm = ConfigMapName \<and> CmNamespace cm = ns"
  "\<not> filterAccepts (CtrlFilter (configController ns)) (WatchedRun run)"
  "\<not> filterAccepts (CtrlFilter pendingStatusController) (WatchedConfigMap cm)"
  by (simp_all add: configController_def pendingStatusController_def configMapFilter_def)

text \<open>
  A logger keeps what the base logger had, and names the generated-name prefix exactly for a
  request whose object can be read and has no name.
\<close>

lemma logConstructor_prefix: "prefix base (logConstructor accessor base req)"
  by (auto simp: logConstructor_def Let_def split: option.split sum.split prod.split)

lemma logConstructor_generateName:
  "''generateName'' \<in> set (map fst (logConstructor accessor [] req)) \<longleftrightarrow>
     (\<exists>r g. req = Some r \<and> accessor (ReqObject r) = Inr ([], g))"
  by (auto simp: logConstructor_def PLRGVK_def Let_def split: option.splits sum.splits prod.splits if_splits)

end
