(* ===== verification/Cmd.thy ===== *)
theory Cmd
  imports Registration
begin

text \<open>
  \<^verbatim>\<open>cmd/main.go\<close>: the sub-commands, their flags, the options they build and the order in which
  they set up and start the manager.

  A command is a process of theory \<open>Process\<close>; the set-up functions it calls are those of
  theory \<open>Registration\<close>, and the parser of the arguments that of theory \<open>GoFlag\<close>. The flags that
  the zap and client libraries declare are parameters. The logger and its options are left out.
\<close>

section \<open>Flags\<close>

definition Second :: int where
  "Second = 1000000000"

definition sharedDecls :: FlagSet where
  "sharedDecls =
     [(''config-dir'', StringVar []),
      (''metrics-bind-address'', StringVar ''0''),
      (''metrics-cert-path'', StringVar []),
      (''metrics-cert-name'', StringVar ''tls.crt''),
      (''metrics-cert-key'', StringVar ''tls.key''),
      (''metrics-secure'', BoolVar True),
      (''health-probe-bind-address'', StringVar '':8081''),
      (''enable-http2'', BoolVar False),
      (''qps'', Float64Var (Fin 0)),
      (''burst'', IntVar 0)]"

text \<open>\<open>zap\<close> and \<open>client\<close> are the flags that \<open>BindFlags\<close> and \<open>RegisterFlags\<close> of the libraries declare.\<close>

definition SharedFlags_AddFlags :: "FlagSet \<Rightarrow> FlagSet \<Rightarrow> FlagSet \<Rightarrow> FlagSet outcome" where
  "SharedFlags_AddFlags zap client fs = declare_all fs (sharedDecls @ zap @ client)"

definition controllerDecls :: FlagSet where
  "controllerDecls =
     [(''leader-elect'', BoolVar False),
      (''leader-elect-lease-duration'', DurationVar (15 * Second)),
      (''leader-elect-renew-deadline'', DurationVar (10 * Second)),
      (''leader-elect-retry-period'', DurationVar (2 * Second))]"

definition ControllerFlags_AddFlags :: "FlagSet \<Rightarrow> FlagSet \<Rightarrow> FlagSet \<Rightarrow> FlagSet outcome" where
  "ControllerFlags_AddFlags zap client fs =
     (case SharedFlags_AddFlags zap client fs of
        Panic msg \<Rightarrow> Panic msg
      | Ret fs' \<Rightarrow> declare_all fs' controllerDecls)"

definition webhookDecls :: FlagSet where
  "webhookDecls =
     [(''webhook-cert-path'', StringVar []),
      (''webhook-cert-name'', StringVar ''tls.crt''),
      (''webhook-cert-key'', StringVar ''tls.key'')]"

definition WebhookFlags_AddFlags :: "FlagSet \<Rightarrow> FlagSet \<Rightarrow> FlagSet \<Rightarrow> FlagSet outcome" where
  "WebhookFlags_AddFlags zap client fs =
     (case SharedFlags_AddFlags zap client fs of
        Panic msg \<Rightarrow> Panic msg
      | Ret fs' \<Rightarrow> declare_all fs' webhookDecls)"

definition mutateDecls :: FlagSet where
  "mutateDecls = [(''pipelinerun-file'', StringVar []), (''config-dir'', StringVar [])]"

definition MutateFlags_AddFlags :: "FlagSet \<Rightarrow> FlagSet \<Rightarrow> FlagSet outcome" where
  "MutateFlags_AddFlags zap fs = declare_all fs (mutateDecls @ zap)"

text \<open>
  The fields the flags are bound to, read from the values that parsing leaves; a flag of
  another type cannot be bound to a field, so the default of each case is never used.
\<close>

type_synonym flagValues = "string \<Rightarrow> flagval"

definition valuesOf :: "FlagSet \<Rightarrow> flagValues" where
  "valuesOf fs n = (case map_of fs n of None \<Rightarrow> StringVar [] | Some v \<Rightarrow> v)"

fun strVal :: "flagval \<Rightarrow> string" where
  "strVal (StringVar s) = s" | "strVal _ = []"

fun boolVal :: "flagval \<Rightarrow> bool" where
  "boolVal (BoolVar b) = b" | "boolVal _ = False"

fun floatVal :: "flagval \<Rightarrow> float64" where
  "floatVal (Float64Var x) = x" | "floatVal _ = Fin 0"

fun intVal :: "flagval \<Rightarrow> int64" where
  "intVal (IntVar i) = i" | "intVal _ = 0"

fun durVal :: "flagval \<Rightarrow> int" where
  "durVal (DurationVar d) = d" | "durVal _ = 0"

record SharedFlags =
  ConfigDir :: string
  MetricsAddr :: string
  MetricsCertPath :: string
  MetricsCertName :: string
  MetricsCertKey :: string
  SecureMetrics :: bool
  ProbeAddr :: string
  EnableHTTP2 :: bool
  QPS :: float64
  Burst :: int64

definition sharedFlags :: "flagValues \<Rightarrow> SharedFlags" where
  "sharedFlags v =
     \<lparr>ConfigDir = strVal (v ''config-dir''),
      MetricsAddr = strVal (v ''metrics-bind-address''),
      MetricsCertPath = strVal (v ''metrics-cert-path''),
      MetricsCertName = strVal (v ''metrics-cert-name''),
      MetricsCertKey = strVal (v ''metrics-cert-key''),
      SecureMetrics = boolVal (v ''metrics-secure''),
      ProbeAddr = strVal (v ''health-probe-bind-address''),
      EnableHTTP2 = boolVal (v ''enable-http2''),
      QPS = floatVal (v ''qps''),
      Burst = intVal (v ''burst'')\<rparr>"

record ControllerFlags =
  CtrlShared :: SharedFlags
  EnableLeaderElection :: bool
  LeaseDuration :: int
  RenewDeadline :: int
  RetryPeriod :: int

definition controllerFlags :: "flagValues \<Rightarrow> ControllerFlags" where
  "controllerFlags v =
     \<lparr>CtrlShared = sharedFlags v,
      EnableLeaderElection = boolVal (v ''leader-elect''),
      LeaseDuration = durVal (v ''leader-elect-lease-duration''),
      RenewDeadline = durVal (v ''leader-elect-renew-deadline''),
      RetryPeriod = durVal (v ''leader-elect-retry-period'')\<rparr>"

record WebhookFlags =
  HookShared :: SharedFlags
  WebhookCertPath :: string
  WebhookCertName :: string
  WebhookCertKey :: string

definition webhookFlags :: "flagValues \<Rightarrow> WebhookFlags" where
  "webhookFlags v =
     \<lparr>HookShared = sharedFlags v,
      WebhookCertPath = strVal (v ''webhook-cert-path''),
      WebhookCertName = strVal (v ''webhook-cert-name''),
      WebhookCertKey = strVal (v ''webhook-cert-key'')\<rparr>"

record MutateFlags =
  PipelineRunFile :: string
  MutConfigDir :: string

definition mutateFlags :: "flagValues \<Rightarrow> MutateFlags" where
  "mutateFlags v =
     \<lparr>PipelineRunFile = strVal (v ''pipelinerun-file''), MutConfigDir = strVal (v ''config-dir'')\<rparr>"



section \<open>Options\<close>

definition getTLSOpts :: "SharedFlags \<Rightarrow> tlsOpt list" where
  "getTLSOpts s = (if \<not> EnableHTTP2 s then [] @ [DisableHTTP2] else [])"

definition safeFloat64ToFloat32OrZero :: "float64 \<Rightarrow> rat \<times> bool" where
  "safeFloat64ToFloat32OrZero v =
     (if IsNaN v \<or> IsInf v \<or> float_less v (Fin (- MaxFloat32)) \<or> float_less (Fin MaxFloat32) v
      then (0, False)
      else case v of Fin x \<Rightarrow> (float32_of x, True) | _ \<Rightarrow> (0, True))"



text \<open>
  \<open>parseFlagsOrDie\<close> on a flag set with its error handling. Before \<open>Parse\<close> answers an error it
  prints it with the usage; under \<open>flag.ExitOnError\<close> it then ends the process itself.
\<close>

definition flagOutput :: "flag_error \<Rightarrow> unit proc" where
  "flagOutput err =
     (case err of
        ErrHelp \<Rightarrow> emitP Usage
      | FlagError e \<Rightarrow> thenP (emitP (FlagFailure e)) (emitP Usage))"

definition flagErr :: "flag_error \<Rightarrow> go_error" where
  "flagErr err = (case err of ErrHelp \<Rightarrow> LibError ''flag: help requested'' | FlagError e \<Rightarrow> e)"

definition parseFlagsOrDie :: "platform \<Rightarrow> errorHandling \<Rightarrow> FlagSet \<Rightarrow> string list \<Rightarrow> flagValues proc" where
  "parseFlagsOrDie P handling fs args =
     (case Parse (setters P) handling fs args of
        Parsed fs' \<Rightarrow> returnP (valuesOf fs')
      | ParseExit c err \<Rightarrow> thenP (flagOutput err) (exitP c)
      | ParsePanic err \<Rightarrow> thenP (flagOutput err) (exitP 2)
      | ParseError err \<Rightarrow>
          thenP (flagOutput err)
            (thenP (emitP (LogError ''Failed to parse CLI arguments'' (flagErr err))) (exitP 1)))"

definition getConfigOrDie :: "platform \<Rightarrow> restConfig proc" where
  "getConfigOrDie P = (case kubeConfig P of Some c \<Rightarrow> returnP c | None \<Rightarrow> exitP 1)"


section \<open>Server options and runnables\<close>

definition getMetricsServerOptions ::
    "platform \<Rightarrow> SharedFlags \<Rightarrow> tlsOpt list \<Rightarrow> (metricsOptions \<times> certWatcher option) proc" where
  "getMetricsServerOptions P s tlsOpts =
     (let opts = \<lparr>BindAddress = MetricsAddr s, SecureServing = SecureMetrics s,
                  MetricsTLSOpts = tlsOpts, FilterProvider = None\<rparr>;
          opts = (if SecureMetrics s
                  then opts\<lparr>FilterProvider := Some ''WithAuthenticationAndAuthorization''\<rparr> else opts)
      in if length (MetricsCertPath s) > 0 then
           let cert = path_Join [MetricsCertPath s, MetricsCertName s];
               key = path_Join [MetricsCertPath s, MetricsCertKey s]
           in thenP (emitP (LogInfo ''Initializing metrics certificate watcher using provided certificates''))
                (thenP (orDie P (NewCertWatcher cert key) ''to initialize metrics certificate watcher'')
                  (returnP (opts\<lparr>MetricsTLSOpts := MetricsTLSOpts opts @ [CertificateOf (cert, key)]\<rparr>,
                            Some (cert, key))))
         else returnP (opts, None))"

definition getWebhookServerOptions ::
    "platform \<Rightarrow> WebhookFlags \<Rightarrow> tlsOpt list \<Rightarrow> (webhookOptions \<times> certWatcher option) proc" where
  "getWebhookServerOptions P w tlsOpts =
     (if length (WebhookCertPath w) = 0 then returnP (\<lparr>WebhookTLSOpts = []\<rparr>, None)
      else
        let cert = path_Join [WebhookCertPath w, WebhookCertName w];
            key = path_Join [WebhookCertPath w, WebhookCertKey w]
        in thenP (emitP (LogInfo ''Initializing webhook certificate watcher using provided certificates''))
             (thenP (orDie P (NewCertWatcher cert key) ''Failed to initialize webhook certificate watcher'')
               (returnP (\<lparr>WebhookTLSOpts = tlsOpts @ [CertificateOf (cert, key)]\<rparr>, Some (cert, key)))))"

definition addReadyAndHealthChecksToMgrOrDie :: "platform \<Rightarrow> unit proc" where
  "addReadyAndHealthChecksToMgrOrDie P =
     thenP (orDie P (AddHealthzCheck ''healthz'') ''unable to set up health check'')
       (orDie P (AddReadyzCheck ''readyz'') ''unable to set up ready check'')"

definition addRunnableOrDie :: "platform \<Rightarrow> certWatcher option \<Rightarrow> string \<Rightarrow> string \<Rightarrow> unit proc" where
  "addRunnableOrDie P runnable infoMsg errMsg =
     (case runnable of
        None \<Rightarrow> returnP ()
      | Some w \<Rightarrow> thenP (emitP (LogInfo infoMsg)) (orDie P (AddRunnable w) errMsg))"

definition addMetricsCertWatcher :: "platform \<Rightarrow> certWatcher option \<Rightarrow> unit proc" where
  "addMetricsCertWatcher P runnable =
     addRunnableOrDie P runnable ''Adding metrics certificate watcher to manager''
       ''unable to add webhook certificate watcher to manager''"

definition addConfigWatcher :: "platform \<Rightarrow> unit proc" where
  "addConfigWatcher P =
     thenP (emitP (LogInfo ''Adding config watcher to manager''))
       (orFail (ConfigMapReconciler_SetupWithManager P) ''Failed to add watcher to config '')"

text \<open>The client configuration with the limits of the flags.\<close>

definition withLimits :: "SharedFlags \<Rightarrow> restConfig \<Rightarrow> restConfig proc" where
  "withLimits s cfg =
     (let cfg = cfg\<lparr>RestBurst := Burst s\<rparr>; (qps, ok) = safeFloat64ToFloat32OrZero (QPS s)
      in thenP (if \<not> ok then emitP (LogInfo ''provided QPS value is not a valid float32, using default'')
                else returnP ())
           (returnP (cfg\<lparr>RestQPS := qps\<rparr>)))"


section \<open>The sub-commands\<close>

definition leaderElectionId :: string where
  "leaderElectionId = ''f2ddafa2.konflux-ci.dev''"

definition controllerOptions :: "ControllerFlags \<Rightarrow> metricsOptions \<Rightarrow> managerOptions" where
  "controllerOptions f mo =
     \<lparr>MgrMetrics = mo, HealthProbeBindAddress = ProbeAddr (CtrlShared f),
      LeaderElection = EnableLeaderElection f, LeaderElectionID = leaderElectionId,
      MgrDurations = Some (LeaseDuration f, RenewDeadline f, RetryPeriod f),
      MgrWebhookServer = None, DefaultNamespaces = []\<rparr>"

text \<open>The part of \<open>runController\<close> after the flags have been parsed.\<close>

definition startController :: "platform \<Rightarrow> ControllerFlags \<Rightarrow> unit proc" where
  "startController P f =
     bindP (getMetricsServerOptions P (CtrlShared f) (getTLSOpts (CtrlShared f))) (\<lambda>(mo, watcher).
     thenP (emitP (LogInfo (if EnableLeaderElection f
       then ''Leader election enabled with lease configuration'' else ''Leader election disabled'')))
     (bindP (getConfigOrDie P) (\<lambda>cfg.
      bindP (withLimits (CtrlShared f) cfg) (\<lambda>cfg.
      thenP (orDie P (NewManager cfg (controllerOptions f mo)) ''unable to create manager'')
     (thenP (orFail (SetupWithManager P) ''Failed to setup the controller'')
     (thenP (orFail (SetupPendingStatusWithManager P) ''Failed to setup pending status controller'')
     (thenP (orFail (SetupIndexer P) ''Failed to setup the indexer'')
     (thenP (addMetricsCertWatcher P watcher)
     (thenP (addReadyAndHealthChecksToMgrOrDie P)
     (thenP (emitP (LogInfo ''starting manager''))
       (orDie P StartManager ''problem running manager'')))))))))))"

definition runController :: "platform \<Rightarrow> string list \<Rightarrow> unit proc" where
  "runController P args =
     bindP (orPanic (ControllerFlags_AddFlags (zapFlags P) (clientFlags P) [])) (\<lambda>fs.
     bindP (parseFlagsOrDie P ExitOnError fs args) (\<lambda>v. startController P (controllerFlags v)))"

definition webhookManagerOptions ::
    "WebhookFlags \<Rightarrow> metricsOptions \<Rightarrow> webhookOptions \<Rightarrow> string \<Rightarrow> managerOptions" where
  "webhookManagerOptions f mo wo namespace =
     \<lparr>MgrMetrics = mo, HealthProbeBindAddress = ProbeAddr (HookShared f),
      LeaderElection = False, LeaderElectionID = [], MgrDurations = None,
      MgrWebhookServer = Some wo, DefaultNamespaces = [namespace]\<rparr>"

text \<open>
  The part of \<open>runWebhook\<close> after the flags have been parsed. \<open>NewCustomDefaulter\<close> does not fail
  (theory \<open>Webhook\<close>); the store it is given is empty.
\<close>

definition startWebhook :: "platform \<Rightarrow> WebhookFlags \<Rightarrow> unit proc" where
  "startWebhook P f =
     (let tlsOpts = getTLSOpts (HookShared f) in
     bindP (getMetricsServerOptions P (HookShared f) tlsOpts) (\<lambda>(mo, metricsWatcher).
     bindP (getWebhookServerOptions P f tlsOpts) (\<lambda>(wo, webhookWatcher).
     (case GetCurrentNamespace (files P) of
        Inl err \<Rightarrow> thenP (emitP (LogError ''Exiting'' err)) (exitP 1)
      | Inr namespace \<Rightarrow>
     bindP (getConfigOrDie P) (\<lambda>cfg.
     bindP (withLimits (HookShared f) cfg) (\<lambda>cfg.
      thenP (orDie P (NewManager cfg (webhookManagerOptions f mo wo namespace)) ''unable to create manager'')
     (thenP (orFail SetupPipelineRunWebhookWithManager ''Failed to setup the webhook'')
     (thenP (addConfigWatcher P)
     (thenP (addRunnableOrDie P webhookWatcher ''Adding webhook certificate watcher to manager''
               ''unable to add webhook certificate watcher to manager'')
     (thenP (addMetricsCertWatcher P metricsWatcher)
     (thenP (addReadyAndHealthChecksToMgrOrDie P)
     (thenP (emitP (LogInfo ''starting manager''))
       (orDie P StartManager ''problem running manager'')))))))))))))"

definition runWebhook :: "platform \<Rightarrow> string list \<Rightarrow> unit proc" where
  "runWebhook P args =
     thenP (emitP (LogInfo ''starting webhook''))
     (bindP (orPanic (WebhookFlags_AddFlags (zapFlags P) (clientFlags P) [])) (\<lambda>fs.
      bindP (parseFlagsOrDie P ExitOnError fs args) (\<lambda>v. startWebhook P (webhookFlags v))))"

definition newline :: string where
  "newline = [CHR 0x0A]"

text \<open>\<open>mutatePlr\<close> is \<open>MutatePipelineRun\<close> with its libraries; \<open>fs.Usage()\<close> prints to standard error.\<close>

definition runMutate ::
    "platform \<Rightarrow> (string \<Rightarrow> string \<Rightarrow> (bytes result \<times> metrics) outcome) \<Rightarrow> string list \<Rightarrow> unit proc" where
  "runMutate P mutatePlr args =
     bindP (orPanic (MutateFlags_AddFlags (zapFlags P) [])) (\<lambda>fs.
     bindP (parseFlagsOrDie P ExitOnError fs args) (\<lambda>v.
       let f = mutateFlags v in
       if PipelineRunFile f = [] then
         thenP (emitP (Stderr (''Error: --pipelinerun-file is required'' @ newline))) (thenP (emitP Usage) (exitP 1))
       else if MutConfigDir f = [] then
         thenP (emitP (Stderr (''Error: --config-dir is required'' @ newline))) (thenP (emitP Usage) (exitP 1))
       else
         bindP (orPanic (mutatePlr (PipelineRunFile f) (MutConfigDir f))) (\<lambda>(r, m).
           case r of
             Inl err \<Rightarrow> thenP (emitP (LogError ''Failed to mutate PipelineRun'' err)) (exitP 1)
           | Inr mutatedData \<Rightarrow> emitP (Stdout mutatedData []))))"

definition expectedSubcommands :: string where
  "expectedSubcommands = ''expected 'controller', 'webhook', or 'mutate' subcommand''"

definition main ::
    "platform \<Rightarrow> (string \<Rightarrow> string \<Rightarrow> (bytes result \<times> metrics) outcome) \<Rightarrow> string list \<Rightarrow> unit proc" where
  "main P mutatePlr osArgs =
     (if length osArgs < 2 then thenP (emitP (Stdout (expectedSubcommands @ newline) [])) (exitP 1)
      else let cmd = osArgs ! 1 in
        if cmd = ''controller'' then runController P (drop 2 osArgs)
        else if cmd = ''webhook'' then runWebhook P (drop 2 osArgs)
        else if cmd = ''mutate'' then runMutate P mutatePlr (drop 2 osArgs)
        else thenP (emitP (Stdout ''Got subcommand %s, %s'' [ArgS cmd, ArgS expectedSubcommands])) (exitP 1))"





text \<open>The whole program: the initialisers of its packages run before \<open>main\<close>.\<close>

definition program ::
    "platform \<Rightarrow> (string \<Rightarrow> string \<Rightarrow> (bytes result \<times> metrics) outcome) \<Rightarrow> string list \<Rightarrow> unit proc" where
  "program P mutatePlr osArgs = thenP (initialise P) (main P mutatePlr osArgs)"

text \<open>The watchers and options that the flags ask for.\<close>

definition metricsWatcherOf :: "SharedFlags \<Rightarrow> certWatcher option" where
  "metricsWatcherOf s =
     (if MetricsCertPath s = [] then None
      else Some (path_Join [MetricsCertPath s, MetricsCertName s], path_Join [MetricsCertPath s, MetricsCertKey s]))"

definition webhookWatcherOf :: "WebhookFlags \<Rightarrow> certWatcher option" where
  "webhookWatcherOf w =
     (if WebhookCertPath w = [] then None
      else Some (path_Join [WebhookCertPath w, WebhookCertName w], path_Join [WebhookCertPath w, WebhookCertKey w]))"

definition certOpts :: "certWatcher option \<Rightarrow> tlsOpt list" where
  "certOpts w = (case w of None \<Rightarrow> [] | Some x \<Rightarrow> [CertificateOf x])"

definition metricsOptionsOf :: "SharedFlags \<Rightarrow> metricsOptions" where
  "metricsOptionsOf s =
     \<lparr>BindAddress = MetricsAddr s, SecureServing = SecureMetrics s,
      MetricsTLSOpts = getTLSOpts s @ certOpts (metricsWatcherOf s),
      FilterProvider = (if SecureMetrics s then Some ''WithAuthenticationAndAuthorization'' else None)\<rparr>"

definition webhookOptionsOf :: "WebhookFlags \<Rightarrow> webhookOptions" where
  "webhookOptionsOf w =
     \<lparr>WebhookTLSOpts = (if WebhookCertPath w = [] then []
        else getTLSOpts (HookShared w) @ certOpts (webhookWatcherOf w))\<rparr>"

definition openActions :: "certWatcher option \<Rightarrow> action list" where
  "openActions w = (case w of None \<Rightarrow> [] | Some (c, k) \<Rightarrow> [NewCertWatcher c k])"

definition addActions :: "certWatcher option \<Rightarrow> action list" where
  "addActions w = (case w of None \<Rightarrow> [] | Some x \<Rightarrow> [AddRunnable x])"

definition limited :: "SharedFlags \<Rightarrow> restConfig \<Rightarrow> restConfig" where
  "limited s cfg = cfg\<lparr>RestBurst := Burst s, RestQPS := fst (safeFloat64ToFloat32OrZero (QPS s))\<rparr>"

lemma performs_metricsOptions [performs_rules]:
  "performs P (getMetricsServerOptions P s (getTLSOpts s)) (openActions (metricsWatcherOf s))
     (metricsOptionsOf s, metricsWatcherOf s)"
proof (cases "MetricsCertPath s = []")
  case True
  then show ?thesis
    by (auto simp: getMetricsServerOptions_def metricsOptionsOf_def metricsWatcherOf_def certOpts_def
        openActions_def Let_def intro!: performs_return)
next
  case False
  then have len: "length (MetricsCertPath s) > 0" by simp
  show ?thesis
    unfolding getMetricsServerOptions_def Let_def if_P [OF len]
    by (rule performs_cong, (rule performs_rules)+)
      (use False in \<open>auto simp: metricsOptionsOf_def metricsWatcherOf_def certOpts_def openActions_def\<close>)
qed

lemma performs_webhookOptions [performs_rules]:
  "performs P (getWebhookServerOptions P w (getTLSOpts (HookShared w))) (openActions (webhookWatcherOf w))
     (webhookOptionsOf w, webhookWatcherOf w)"
proof (cases "WebhookCertPath w = []")
  case True
  then show ?thesis
    by (auto simp: getWebhookServerOptions_def webhookOptionsOf_def webhookWatcherOf_def openActions_def
        intro!: performs_return)
next
  case False
  then have len: "\<not> length (WebhookCertPath w) = 0" by simp
  show ?thesis
    unfolding getWebhookServerOptions_def Let_def if_not_P [OF len]
    by (rule performs_cong, (rule performs_rules)+)
      (use False in \<open>auto simp: webhookOptionsOf_def webhookWatcherOf_def certOpts_def openActions_def\<close>)
qed

lemma performs_checks [performs_rules]:
  "performs P (addReadyAndHealthChecksToMgrOrDie P) [AddHealthzCheck ''healthz'', AddReadyzCheck ''readyz''] ()"
  unfolding addReadyAndHealthChecksToMgrOrDie_def
  by (rule performs_cong, (rule performs_rules)+) simp_all

lemma performs_runnable [performs_rules]: "performs P (addRunnableOrDie P w i e) (addActions w) ()"
proof (cases w)
  case None
  then show ?thesis by (simp add: addRunnableOrDie_def addActions_def performs_return)
next
  case (Some x)
  show ?thesis
    unfolding addRunnableOrDie_def Some option.case
    by (rule performs_cong, (rule performs_rules)+) (simp_all add: addActions_def)
qed

lemma performs_metricsWatcher [performs_rules]: "performs P (addMetricsCertWatcher P w) (addActions w) ()"
  unfolding addMetricsCertWatcher_def by (rule performs_runnable)

lemma performs_limits [performs_rules]: "performs P (withLimits s cfg) [] (limited s cfg)"
proof -
  obtain q ok where q: "safeFloat64ToFloat32OrZero (QPS s) = (q, ok)" by (rule prod.exhaust)
  have "performs P (if \<not> ok then emitP (LogInfo ''provided QPS value is not a valid float32, using default'')
      else returnP ()) [] ()"
    by (auto intro: performs_rules)
  from performs_then [OF this performs_return [of P "limited s cfg"]] show ?thesis
    by (cases ok) (simp_all add: withLimits_def limited_def q Let_def)
qed

lemma performs_config: "kubeConfig P = Some cfg \<Longrightarrow> performs P (getConfigOrDie P) [] cfg"
  by (simp add: getConfigOrDie_def performs_return)

lemma performs_configWatcher:
  assumes "GetCurrentNamespace (files P) = Inr ns"
  shows "performs P (addConfigWatcher P) [CompleteController (configController ns)] ()"
  unfolding addConfigWatcher_def
  by (rule performs_cong, (rule performs_setupConfigMap [OF assms] performs_rules)+) simp_all

text \<open>The reference: the steps of each server, from its flags.\<close>

definition controllerSteps :: "ControllerFlags \<Rightarrow> restConfig \<Rightarrow> action list" where
  "controllerSteps f cfg =
     openActions (metricsWatcherOf (CtrlShared f)) @
     [NewManager (limited (CtrlShared f) cfg) (controllerOptions f (metricsOptionsOf (CtrlShared f))),
      NewReconciler plrReconciler, SetupReconciler plrReconciler,
      CompleteController pendingStatusController, SetupWorkloadOwnerIndex PLRGVK] @
     addActions (metricsWatcherOf (CtrlShared f)) @
     [AddHealthzCheck ''healthz'', AddReadyzCheck ''readyz'', StartManager]"

definition webhookSteps :: "WebhookFlags \<Rightarrow> restConfig \<Rightarrow> string \<Rightarrow> action list" where
  "webhookSteps f cfg ns =
     openActions (metricsWatcherOf (HookShared f)) @ openActions (webhookWatcherOf f) @
     [NewManager (limited (HookShared f) cfg)
        (webhookManagerOptions f (metricsOptionsOf (HookShared f)) (webhookOptionsOf f) ns),
      RegisterWebhook ''/mutate-tekton-dev-v1-pipelinerun'', CompleteController (configController ns)] @
     addActions (webhookWatcherOf f) @ addActions (metricsWatcherOf (HookShared f)) @
     [AddHealthzCheck ''healthz'', AddReadyzCheck ''readyz'', StartManager]"

lemma performs_startController:
  assumes "kubeConfig P = Some cfg"
  shows "performs P (startController P f) (controllerSteps f cfg) ()"
  unfolding startController_def
  by (rule performs_cong,
      (rule performs_config [OF assms] performs_bind_pair performs_rules)+)
    (simp_all add: controllerSteps_def)

lemma performs_startWebhook:
  assumes "kubeConfig P = Some cfg" and "GetCurrentNamespace (files P) = Inr ns"
  shows "performs P (startWebhook P f) (webhookSteps f cfg ns) ()"
  unfolding startWebhook_def Let_def assms(2) sum.case
  by (rule performs_cong,
      (rule performs_config [OF assms(1)] performs_configWatcher [OF assms(2)]
         performs_bind_pair performs_rules)+)
    (simp_all add: webhookSteps_def webhookPath_def)

section \<open>Properties\<close>

text \<open>A platform for the instances: every action is accepted, the flags keep their defaults.\<close>

definition sample_values :: flagValues where
  "sample_values n = (case map_of (sharedDecls @ controllerDecls @ webhookDecls) n of
     None \<Rightarrow> StringVar [] | Some v \<Rightarrow> v)"

definition sample_setters :: flagSetters where
  "sample_setters =
     \<lparr>ParseFloat = \<lambda>s. Inl ErrSyntax, ParseDuration = \<lambda>s. None, SetValue = \<lambda>n s. None\<rparr>"

definition sample_platform :: platform where
  "sample_platform =
     \<lparr>reply = \<lambda>h a. None, setters = sample_setters, zapFlags = [], clientFlags = [],
      kubeConfig = Some \<lparr>RestQPS = 0, RestBurst = 0\<rparr>, files = \<lambda>path. Inr ''tekton-kueue''\<rparr>"

lemma sample_namespace: "GetCurrentNamespace (files sample_platform) = Inr (TrimSpace ''tekton-kueue'')"
  by (simp add: GetCurrentNamespace_def readNamespace_def sample_platform_def)

text \<open>
  (C37) The order of start-up. Both servers follow a fixed sequence of steps that the flags
  determine: the controller registers its reconcilers and the index, the webhook its
  handler and the watcher of the ConfigMap in the namespace of the pod, each adds its
  certificate watchers and the health checks, and the manager is started last. The server
  goes through all steps exactly when every one of them is accepted at the point where it is
  performed; the first one that is refused there is the last one performed, its error is
  logged, and the process ends with code 1.
\<close>

theorem startup_order:
  assumes "kubeConfig P = Some cfg" and "GetCurrentNamespace (files P) = Inr ns"
  shows "(case startController P f h of
            (h', Inr u) \<Rightarrow> \<exists>t. h' = h @ t \<and> went_well P h t \<and> actions t = controllerSteps f cfg
          | (h', Inl c) \<Rightarrow> c = 1 \<and> (\<exists>t a msg err. h' = h @ t @ [Act a, LogError msg err] \<and>
              went_well P h t \<and> reply P (h @ t) a = Some err \<and>
              prefix (actions t @ [a]) (controllerSteps f cfg))) \<and>
         (case startWebhook P g h of
            (h', Inr u) \<Rightarrow> \<exists>t. h' = h @ t \<and> went_well P h t \<and> actions t = webhookSteps g cfg ns
          | (h', Inl c) \<Rightarrow> c = 1 \<and> (\<exists>t a msg err. h' = h @ t @ [Act a, LogError msg err] \<and>
              went_well P h t \<and> reply P (h @ t) a = Some err \<and>
              prefix (actions t @ [a]) (webhookSteps g cfg ns)))"
proof -
  have "case p h of
      (h', Inr u) \<Rightarrow> \<exists>t. h' = h @ t \<and> went_well P h t \<and> actions t = steps
    | (h', Inl c) \<Rightarrow> c = 1 \<and> (\<exists>t a msg err. h' = h @ t @ [Act a, LogError msg err] \<and>
        went_well P h t \<and> reply P (h @ t) a = Some err \<and> prefix (actions t @ [a]) steps)"
    if "performs P p steps ()" for p steps
    using performs_follows [OF that, of h] by (auto simp: follows_def refusedAt_def split: prod.splits sum.splits)
  note run = this [OF performs_startController [OF assms(1)]] this [OF performs_startWebhook [OF assms]]
  show ?thesis by (intro conjI run)
qed

theorem startup_order_witness:
  "\<exists>h. startWebhook sample_platform (webhookFlags sample_values) [] = (h, Inr ()) \<and>
       last (actions h) = StartManager \<and> went_well sample_platform [] h"
proof -
  obtain h r where w: "startWebhook sample_platform (webhookFlags sample_values) [] = (h, r)"
    by (rule prod.exhaust)
  have k: "kubeConfig sample_platform = Some \<lparr>RestQPS = 0, RestBurst = 0\<rparr>"
    by (simp add: sample_platform_def)
  have "reply sample_platform h a = None" for h a by (simp add: sample_platform_def)
  with startup_order [OF k sample_namespace, where h = "[]" and g = "webhookFlags sample_values"] w
  show ?thesis by (cases r) (auto simp: webhookSteps_def)
qed

text \<open>
  HTTP/2 on the webhook server. With \<open>--enable-http2\<close> off the option that disables it is
  passed to the webhook server only when \<open>--webhook-cert-path\<close> is set: without that path the
  server's TLS configuration is left as it is, although the flag says that HTTP/2 is enabled
  for the metrics and webhook servers only if it is set.
\<close>

lemma webhook_http2_without_cert_path:
  assumes "getWebhookServerOptions P w (getTLSOpts (HookShared w)) h = (h', Inr (wo, watcher))"
    and "\<not> EnableHTTP2 (HookShared w)"
  shows "NextProtos (fold applyTLSOpt (WebhookTLSOpts wo) c) =
    (if WebhookCertPath w = [] then NextProtos c else [''http/1.1''])"
proof -
  have "wo = webhookOptionsOf w"
    using performs_webhookOptions [of P w] assms(1) unfolding performs_def by blast
  with assms(2) show ?thesis
    by (simp add: webhookOptionsOf_def getTLSOpts_def certOpts_def webhookWatcherOf_def)
qed

text \<open>
  (C40) The client's rate limit. A \<open>--qps\<close> value is refused, and zero used in its place, exactly
  when it is no number, infinite or past the largest \<open>float32\<close>; otherwise the value used is in
  the range of \<open>float32\<close> and differs from the given one by at most one part in \<open>2 ^ 24\<close>, or by
  less than the smallest positive \<open>float32\<close>.
\<close>

theorem qps_conversion:
  assumes "safeFloat64ToFloat32OrZero v = (r, ok)"
  shows "(ok \<longleftrightarrow> (\<exists>x. v = Fin x \<and> \<bar>x\<bar> \<le> MaxFloat32)) \<and> (\<not> ok \<longrightarrow> r = 0) \<and>
    (\<forall>x. ok \<and> v = Fin x \<longrightarrow> \<bar>r\<bar> \<le> MaxFloat32 \<and> \<bar>r - x\<bar> \<le> max (\<bar>x\<bar> / 2 ^ 24) (1 / 2 ^ 150))"
proof (cases v)
  case (Fin x)
  show ?thesis
  proof (cases "\<bar>x\<bar> \<le> MaxFloat32")
    case True
    with assms Fin have "r = float32_of x" "ok"
      by (auto simp: safeFloat64ToFloat32OrZero_def IsNaN_def IsInf_def abs_le_iff split: if_splits)
    with Fin True float32_of_in_range [OF True] order_trans [OF float32_of_error ulp32_relative, of x]
    show ?thesis by simp
  next
    case False
    with assms Fin show ?thesis
      by (auto simp: safeFloat64ToFloat32OrZero_def IsNaN_def IsInf_def abs_le_iff split: if_splits)
  qed
qed (use assms in \<open>auto simp: safeFloat64ToFloat32OrZero_def IsNaN_def IsInf_def\<close>)

theorem qps_conversion_witness:
  "\<exists>r. safeFloat64ToFloat32OrZero (Fin 50) = (r, True) \<and> \<bar>r\<bar> \<le> MaxFloat32"
proof -
  obtain r ok where q: "safeFloat64ToFloat32OrZero (Fin 50) = (r, ok)" by (rule prod.exhaust)
  have "\<bar>50 :: rat\<bar> \<le> MaxFloat32" by (simp add: MaxFloat32_def)
  with qps_conversion [OF q] q show ?thesis by auto
qed

end
