(* ===== verification/CommandLine.thy ===== *)
theory CommandLine
  imports Cmd
begin

text \<open>
  What the arguments of \<^verbatim>\<open>tekton-kueue\<close> do: which flags the servers start with, how a wrong command
  line ends, and the preview of the \<open>mutate\<close> sub-command. The definitions are references for the
  declarations of \<^verbatim>\<open>cmd/main.go\<close> in theory \<open>Cmd\<close>.
\<close>

section \<open>Command lines\<close>

lemma Parse_exit_settings:
  assumes "list_all (\<lambda>kv. flag_name (fst kv) \<and> fst kv \<noteq> ''help'' \<and> fst kv \<noteq> ''h'') kvs"
  shows "Parse S ExitOnError fs (map setting kvs) =
    (case set_all S fs kvs of Inr fs' \<Rightarrow> Parsed fs' | Inl err \<Rightarrow> ParseExit (if err = ErrHelp then 0 else 2) err)"
  by (simp add: Parse_def Parse_settings [OF assms] split: sum.split)

lemma set_all_error: "set_all S fs kvs = Inl err \<Longrightarrow> \<exists>e. err = FlagError e"
  by (induction S fs kvs rule: set_all.induct) (auto split: option.splits sum.splits)

lemma parseFlagsOrDie_settings:
  assumes "list_all (\<lambda>kv. flag_name (fst kv) \<and> fst kv \<noteq> ''help'' \<and> fst kv \<noteq> ''h'') kvs"
  shows "set_all (setters P) fs kvs = Inr fs' \<Longrightarrow>
      parseFlagsOrDie P ExitOnError fs (map setting kvs) h = (h, Inr (valuesOf fs'))"
    and "set_all (setters P) fs kvs = Inl err \<Longrightarrow>
      \<exists>e. parseFlagsOrDie P ExitOnError fs (map setting kvs) h = (h @ [FlagFailure e, Usage], Inl 2)"
  using set_all_error [of "setters P" fs kvs err]
  by (auto simp: parseFlagsOrDie_def Parse_exit_settings [OF assms] flagOutput_def thenP_def
      bindP_def emitP_def exitP_def returnP_def)

text \<open>
  The reference for the flags of the servers: the last text given for a name, read as its
  type demands, or the default.
\<close>

definition given :: "(string \<times> string) list \<Rightarrow> string \<Rightarrow> (string \<Rightarrow> 'a) \<Rightarrow> 'a \<Rightarrow> 'a" where
  "given kvs n read d = (case last_setting kvs n of None \<Rightarrow> d | Some x \<Rightarrow> read x)"

definition givenShared :: "platform \<Rightarrow> (string \<times> string) list \<Rightarrow> SharedFlags" where
  "givenShared P kvs =
     \<lparr>ConfigDir = given kvs ''config-dir'' (\<lambda>x. x) [],
      MetricsAddr = given kvs ''metrics-bind-address'' (\<lambda>x. x) ''0'',
      MetricsCertPath = given kvs ''metrics-cert-path'' (\<lambda>x. x) [],
      MetricsCertName = given kvs ''metrics-cert-name'' (\<lambda>x. x) ''tls.crt'',
      MetricsCertKey = given kvs ''metrics-cert-key'' (\<lambda>x. x) ''tls.key'',
      SecureMetrics = given kvs ''metrics-secure'' (\<lambda>x. the (ParseBool x)) True,
      ProbeAddr = given kvs ''health-probe-bind-address'' (\<lambda>x. x) '':8081'',
      EnableHTTP2 = given kvs ''enable-http2'' (\<lambda>x. the (ParseBool x)) False,
      QPS = given kvs ''qps'' (\<lambda>x. projr (ParseFloat (setters P) x)) (Fin 0),
      Burst = given kvs ''burst'' (\<lambda>x. projr (ParseInt0 x)) 0\<rparr>"

definition givenController :: "platform \<Rightarrow> (string \<times> string) list \<Rightarrow> ControllerFlags" where
  "givenController P kvs =
     \<lparr>CtrlShared = givenShared P kvs,
      EnableLeaderElection = given kvs ''leader-elect'' (\<lambda>x. the (ParseBool x)) False,
      LeaseDuration = given kvs ''leader-elect-lease-duration'' (\<lambda>x. the (ParseDuration (setters P) x)) 15000000000,
      RenewDeadline = given kvs ''leader-elect-renew-deadline'' (\<lambda>x. the (ParseDuration (setters P) x)) 10000000000,
      RetryPeriod = given kvs ''leader-elect-retry-period'' (\<lambda>x. the (ParseDuration (setters P) x)) 2000000000\<rparr>"

definition givenWebhook :: "platform \<Rightarrow> (string \<times> string) list \<Rightarrow> WebhookFlags" where
  "givenWebhook P kvs =
     \<lparr>HookShared = givenShared P kvs,
      WebhookCertPath = given kvs ''webhook-cert-path'' (\<lambda>x. x) [],
      WebhookCertName = given kvs ''webhook-cert-name'' (\<lambda>x. x) ''tls.crt'',
      WebhookCertKey = given kvs ''webhook-cert-key'' (\<lambda>x. x) ''tls.key''\<rparr>"

text \<open>The settings that are accepted: a known name with a text of the type of its flag.\<close>

definition acceptsShared :: "platform \<Rightarrow> string \<Rightarrow> string \<Rightarrow> bool" where
  "acceptsShared P n v \<longleftrightarrow>
     n \<in> {''config-dir'', ''metrics-bind-address'', ''metrics-cert-path'', ''metrics-cert-name'',
          ''metrics-cert-key'', ''health-probe-bind-address''} \<or>
     n \<in> {''metrics-secure'', ''enable-http2''} \<and> ParseBool v \<noteq> None \<or>
     n = ''qps'' \<and> (\<exists>x. ParseFloat (setters P) v = Inr x) \<or>
     n = ''burst'' \<and> (\<exists>i. ParseInt0 v = Inr i) \<or>
     (\<exists>w. (n, w) \<in> set (zapFlags P @ clientFlags P) \<and> is_ok (Value_Set (setters P) n w v))"

definition acceptsController :: "platform \<Rightarrow> string \<times> string \<Rightarrow> bool" where
  "acceptsController P kv \<longleftrightarrow>
     acceptsShared P (fst kv) (snd kv) \<or>
     fst kv = ''leader-elect'' \<and> ParseBool (snd kv) \<noteq> None \<or>
     fst kv \<in> {''leader-elect-lease-duration'', ''leader-elect-renew-deadline'', ''leader-elect-retry-period''} \<and>
       ParseDuration (setters P) (snd kv) \<noteq> None"

definition acceptsWebhook :: "platform \<Rightarrow> string \<times> string \<Rightarrow> bool" where
  "acceptsWebhook P kv \<longleftrightarrow>
     acceptsShared P (fst kv) (snd kv) \<or>
     fst kv \<in> {''webhook-cert-path'', ''webhook-cert-name'', ''webhook-cert-key''}"

text \<open>The flags of the servers as their \<open>AddFlags\<close> declare them, when the libraries' flags have other names.\<close>

abbreviation controllerFlagSet :: "platform \<Rightarrow> FlagSet" where
  "controllerFlagSet P \<equiv> sharedDecls @ zapFlags P @ clientFlags P @ controllerDecls"

abbreviation webhookFlagSet :: "platform \<Rightarrow> FlagSet" where
  "webhookFlagSet P \<equiv> sharedDecls @ zapFlags P @ clientFlags P @ webhookDecls"

lemma servers_AddFlags:
  shows "distinct (map fst (controllerFlagSet P)) \<Longrightarrow>
      ControllerFlags_AddFlags (zapFlags P) (clientFlags P) [] = Ret (controllerFlagSet P)"
    and "distinct (map fst (webhookFlagSet P)) \<Longrightarrow>
      WebhookFlags_AddFlags (zapFlags P) (clientFlags P) [] = Ret (webhookFlagSet P)"
proof -
  let ?fs = "sharedDecls @ zapFlags P @ clientFlags P"
  have split: "SharedFlags_AddFlags (zapFlags P) (clientFlags P) [] = Ret ?fs" "declare_all ?fs ds = Ret (?fs @ ds)"
    if "distinct (map fst (?fs @ ds))" for ds
  proof -
    from that have "distinct (map fst ([] @ ?fs))" by auto
    from declare_all_distinct [OF this] show "SharedFlags_AddFlags (zapFlags P) (clientFlags P) [] = Ret ?fs"
      by (simp add: SharedFlags_AddFlags_def)
    from declare_all_distinct [OF that] show "declare_all ?fs ds = Ret (?fs @ ds)" .
  qed
  show "ControllerFlags_AddFlags (zapFlags P) (clientFlags P) [] = Ret (controllerFlagSet P)"
    if "distinct (map fst (controllerFlagSet P))"
    using split [of controllerDecls] that by (simp add: ControllerFlags_AddFlags_def)
  show "WebhookFlags_AddFlags (zapFlags P) (clientFlags P) [] = Ret (webhookFlagSet P)"
    if "distinct (map fst (webhookFlagSet P))"
    using split [of webhookDecls] that by (simp add: WebhookFlags_AddFlags_def)
qed

text \<open>The value of a flag after its settings, for each type of flag.\<close>

lemma given_value:
  assumes "set_all (setters P) fs kvs = Inr fs'" "distinct (map fst fs)"
  shows "(n, StringVar s) \<in> set fs \<Longrightarrow> strVal (valuesOf fs' n) = given kvs n (\<lambda>x. x) s"
    "(n, BoolVar b) \<in> set fs \<Longrightarrow> boolVal (valuesOf fs' n) = given kvs n (\<lambda>x. the (ParseBool x)) b"
    "(n, Float64Var y) \<in> set fs \<Longrightarrow>
       floatVal (valuesOf fs' n) = given kvs n (\<lambda>x. projr (ParseFloat (setters P) x)) y"
    "(n, IntVar i) \<in> set fs \<Longrightarrow> intVal (valuesOf fs' n) = given kvs n (\<lambda>x. projr (ParseInt0 x)) i"
    "(n, DurationVar d) \<in> set fs \<Longrightarrow>
       durVal (valuesOf fs' n) = given kvs n (\<lambda>x. the (ParseDuration (setters P) x)) d"
  by (drule set_all_value [OF assms(1) map_of_is_SomeI [OF assms(2)]],
      force simp: valuesOf_def given_def split: option.splits sum.splits)+

lemma servers_flags:
  shows "set_all (setters P) (controllerFlagSet P) kvs = Inr fs \<Longrightarrow> distinct (map fst (controllerFlagSet P)) \<Longrightarrow>
      controllerFlags (valuesOf fs) = givenController P kvs"
    and "set_all (setters P) (webhookFlagSet P) kvs = Inr fs \<Longrightarrow> distinct (map fst (webhookFlagSet P)) \<Longrightarrow>
      webhookFlags (valuesOf fs) = givenWebhook P kvs"
  subgoal premises p
    unfolding controllerFlags_def givenController_def sharedFlags_def givenShared_def
    using given_value [OF p] by (simp add: sharedDecls_def controllerDecls_def Second_def)
  subgoal premises p
    unfolding webhookFlags_def givenWebhook_def sharedFlags_def givenShared_def
    using given_value [OF p] by (simp add: sharedDecls_def webhookDecls_def)
  done

lemma Value_Set_ok [simp]:
  "is_ok (Value_Set S n (StringVar s) v)"
  "is_ok (Value_Set S n (BoolVar b) v) \<longleftrightarrow> ParseBool v \<noteq> None"
  "is_ok (Value_Set S n (Float64Var x) v) \<longleftrightarrow> (\<exists>y. ParseFloat S v = Inr y)"
  "is_ok (Value_Set S n (IntVar i) v) \<longleftrightarrow> (\<exists>j. ParseInt0 v = Inr j)"
  "is_ok (Value_Set S n (DurationVar d) v) \<longleftrightarrow> ParseDuration S v \<noteq> None"
  by (auto simp: is_ok_iff split: option.splits sum.splits)

lemma declared_ok_append:
  "(\<exists>w. (n, w) \<in> set (fs @ gs) \<and> P w) \<longleftrightarrow> (\<exists>w. (n, w) \<in> set fs \<and> P w) \<or> (\<exists>w. (n, w) \<in> set gs \<and> P w)"
  by auto

lemma declared_ok_Cons:
  "(\<exists>w. (n, w) \<in> set ((m, u) # fs) \<and> P w) \<longleftrightarrow> n = m \<and> P u \<or> (\<exists>w. (n, w) \<in> set fs \<and> P w)"
  "(\<exists>w. (n, w) \<in> set [] \<and> P w) \<longleftrightarrow> False"
  by auto

lemma servers_accept:
  shows "distinct (map fst (controllerFlagSet P)) \<Longrightarrow>
      (\<exists>w. map_of (controllerFlagSet P) n = Some w \<and> is_ok (Value_Set (setters P) n w v)) \<longleftrightarrow> acceptsController P (n, v)"
    and "distinct (map fst (webhookFlagSet P)) \<Longrightarrow>
      (\<exists>w. map_of (webhookFlagSet P) n = Some w \<and> is_ok (Value_Set (setters P) n w v)) \<longleftrightarrow> acceptsWebhook P (n, v)"
  subgoal premises p
    unfolding map_of_eq_Some_iff [OF p]
    unfolding acceptsController_def acceptsShared_def declared_ok_append
      sharedDecls_def controllerDecls_def declared_ok_Cons Value_Set_ok fst_conv snd_conv insert_iff empty_iff
    by (simp only: Value_Set_ok conj_disj_distribR simp_thms disj_ac)
  subgoal premises p
    unfolding map_of_eq_Some_iff [OF p]
    unfolding acceptsWebhook_def acceptsShared_def declared_ok_append
      sharedDecls_def webhookDecls_def declared_ok_Cons Value_Set_ok fst_conv snd_conv insert_iff empty_iff
    by (simp only: Value_Set_ok conj_disj_distribR simp_thms disj_ac)
  done

lemma servers_settings:
  shows "distinct (map fst (controllerFlagSet P)) \<Longrightarrow>
      (\<exists>fs. set_all (setters P) (controllerFlagSet P) kvs = Inr fs) \<longleftrightarrow> list_all (acceptsController P) kvs"
    and "distinct (map fst (webhookFlagSet P)) \<Longrightarrow>
      (\<exists>fs. set_all (setters P) (webhookFlagSet P) kvs = Inr fs) \<longleftrightarrow> list_all (acceptsWebhook P) kvs"
  subgoal premises p
    unfolding set_all_ok_iff list_all_iff servers_accept(1) [OF p] by auto
  subgoal premises p
    unfolding set_all_ok_iff list_all_iff servers_accept(2) [OF p] by auto
  done

text \<open>
  (C38) The command lines of the servers. On \<open>--name=value\<close> arguments with known names and readable
  values the controller and the webhook start with the flags that the arguments give: each
  flag of \<open>main.go\<close> has the last value given under its name, or its default. A name that is not
  declared, or a value that its flag cannot read, is reported with the usage, and the
  process exits with code 2 before it has done anything.
\<close>

theorem server_command_lines:
  assumes "list_all (\<lambda>kv. flag_name (fst kv) \<and> fst kv \<noteq> ''help'' \<and> fst kv \<noteq> ''h'') kvs"
    and "distinct (map fst (controllerFlagSet P))" and "distinct (map fst (webhookFlagSet P))"
  shows "(if list_all (acceptsController P) kvs
          then runController P (map setting kvs) h = startController P (givenController P kvs) h
          else \<exists>e. runController P (map setting kvs) h = (h @ [FlagFailure e, Usage], Inl 2)) \<and>
    (if list_all (acceptsWebhook P) kvs
     then runWebhook P (map setting kvs) h = startWebhook P (givenWebhook P kvs) (h @ [LogInfo ''starting webhook''])
     else \<exists>e. runWebhook P (map setting kvs) h =
       (h @ [LogInfo ''starting webhook'', FlagFailure e, Usage], Inl 2))"
proof (rule conjI)
  note parse = parseFlagsOrDie_settings [OF assms(1), of P]
  show "if list_all (acceptsController P) kvs
      then runController P (map setting kvs) h = startController P (givenController P kvs) h
      else \<exists>e. runController P (map setting kvs) h = (h @ [FlagFailure e, Usage], Inl 2)"
  proof (cases "set_all (setters P) (controllerFlagSet P) kvs")
    case (Inl err)
    with servers_settings(1) [OF assms(2), of kvs] parse(2) [OF Inl, of h] show ?thesis
      by (auto simp: runController_def servers_AddFlags(1) [OF assms(2)] orPanic_def bindP_def returnP_def)
  next
    case (Inr fs)
    with servers_settings(1) [OF assms(2), of kvs] parse(1) [OF Inr, of h] show ?thesis
      by (auto simp: runController_def servers_AddFlags(1) [OF assms(2)] orPanic_def bindP_def returnP_def
          servers_flags(1) [OF Inr assms(2)])
  qed
  show "if list_all (acceptsWebhook P) kvs
     then runWebhook P (map setting kvs) h = startWebhook P (givenWebhook P kvs) (h @ [LogInfo ''starting webhook''])
     else \<exists>e. runWebhook P (map setting kvs) h =
       (h @ [LogInfo ''starting webhook'', FlagFailure e, Usage], Inl 2)"
  proof (cases "set_all (setters P) (webhookFlagSet P) kvs")
    case (Inl err)
    with servers_settings(2) [OF assms(3), of kvs] parse(2) [OF Inl, of "h @ [LogInfo ''starting webhook'']"]
    show ?thesis
      by (auto simp: runWebhook_def servers_AddFlags(2) [OF assms(3)] orPanic_def thenP_def emitP_def
          bindP_def returnP_def)
  next
    case (Inr fs)
    with servers_settings(2) [OF assms(3), of kvs] parse(1) [OF Inr, of "h @ [LogInfo ''starting webhook'']"]
    show ?thesis
      by (auto simp: runWebhook_def servers_AddFlags(2) [OF assms(3)] orPanic_def thenP_def emitP_def
          bindP_def returnP_def servers_flags(2) [OF Inr assms(3)])
  qed
qed

definition sample_settings :: "(string \<times> string) list" where
  "sample_settings =
     [(''metrics-bind-address'', '':1''), (''burst'', ''0x20''), (''metrics-bind-address'', '':2''), (''leader-elect'', ''true'')]"

theorem server_command_lines_witness:
  "runController sample_platform (map setting sample_settings) [] =
     startController sample_platform (givenController sample_platform sample_settings) [] \<and>
   MetricsAddr (CtrlShared (givenController sample_platform sample_settings)) = '':2'' \<and>
   (\<exists>e. runWebhook sample_platform (map setting sample_settings) [] =
     ([LogInfo ''starting webhook'', FlagFailure e, Usage], Inl 2))"
proof -
  have names: "list_all (\<lambda>kv. flag_name (fst kv) \<and> fst kv \<noteq> ''help'' \<and> fst kv \<noteq> ''h'') sample_settings"
    by (simp add: flag_name_def sample_settings_def)
  have flags: "distinct (map fst (controllerFlagSet sample_platform))" "distinct (map fst (webhookFlagSet sample_platform))"
    by (simp_all add: sharedDecls_def controllerDecls_def webhookDecls_def sample_platform_def)
  have burst: "ParseInt0 ''0x20'' = Inr 32"
    by (simp add: ParseInt0_def ParseUint0_def split_sign_def lower_byte_def base_digit_def byte_def)
  have "list_all (acceptsController sample_platform) sample_settings"
    by (simp add: sample_settings_def acceptsController_def acceptsShared_def burst ParseBool_def)
  moreover have "\<not> list_all (acceptsWebhook sample_platform) sample_settings"
    by (simp add: sample_settings_def acceptsWebhook_def acceptsShared_def sample_platform_def)
  moreover have "MetricsAddr (CtrlShared (givenController sample_platform sample_settings)) = '':2''"
    by (simp add: givenController_def givenShared_def given_def last_setting_def sample_settings_def)
  ultimately show ?thesis using server_command_lines [OF names flags, of "[]"] by simp
qed














section \<open>The mutate command\<close>

text \<open>What \<open>main\<close> does for the \<open>mutate\<close> sub-command with both flags given once.\<close>

definition mutateArgs :: "string \<Rightarrow> string \<Rightarrow> string \<Rightarrow> string list" where
  "mutateArgs prog file dir =
     [prog, ''mutate'', setting (''pipelinerun-file'', file), setting (''config-dir'', dir)]"

lemma mutate_flags_parsed:
  assumes "distinct (map fst (mutateDecls @ zapFlags P))"
  shows "\<exists>v. parseFlagsOrDie P ExitOnError (mutateDecls @ zapFlags P)
      [setting (''pipelinerun-file'', file), setting (''config-dir'', dir)] h = (h, Inr v) \<and>
      mutateFlags v = \<lparr>PipelineRunFile = file, MutConfigDir = dir\<rparr>"
proof -
  let ?kvs = "[(''pipelinerun-file'', file), (''config-dir'', dir)]"
  let ?fs = "mutateDecls @ zapFlags P"
  have names: "list_all (\<lambda>kv. flag_name (fst kv) \<and> fst kv \<noteq> ''help'' \<and> fst kv \<noteq> ''h'') ?kvs"
    by (simp add: flag_name_def)
  have decl: "map_of ?fs ''pipelinerun-file'' = Some (StringVar [])"
      "map_of ?fs ''config-dir'' = Some (StringVar [])"
    by (simp_all add: mutateDecls_def)
  obtain fs' where fs': "set_all (setters P) ?fs ?kvs = Inr fs'"
    by (simp add: decl map_of_set_flag del: map_of_append)
  from set_all_string [OF fs' decl(1)] set_all_string [OF fs' decl(2)]
  have "mutateFlags (valuesOf fs') = \<lparr>PipelineRunFile = file, MutConfigDir = dir\<rparr>"
    by (simp add: mutateFlags_def valuesOf_def last_setting_def)
  then show ?thesis
    using fs' Parse_exit_settings [OF names, of "setters P" ?fs]
    by (simp add: parseFlagsOrDie_def returnP_def)
qed

lemma main_mutate:
  assumes "distinct (map fst (mutateDecls @ zapFlags P))" "file \<noteq> []" "dir \<noteq> []"
  shows "main P mp (mutateArgs prog file dir) h =
    (case mp file dir of
       Panic msg \<Rightarrow> (h, Inl 2)
     | Ret (Inl err, m) \<Rightarrow> (h @ [LogError ''Failed to mutate PipelineRun'' err], Inl 1)
     | Ret (Inr out, m) \<Rightarrow> (h @ [Stdout out []], Inr ()))"
proof -
  obtain v where v: "parseFlagsOrDie P ExitOnError (mutateDecls @ zapFlags P)
      [setting (''pipelinerun-file'', file), setting (''config-dir'', dir)] h = (h, Inr v)"
    "mutateFlags v = \<lparr>PipelineRunFile = file, MutConfigDir = dir\<rparr>"
    using mutate_flags_parsed [OF assms(1)] by blast
  have decl: "declare_all [] (mutateDecls @ zapFlags P) = Ret (mutateDecls @ zapFlags P)"
    using declare_all_distinct [of "[]" "mutateDecls @ zapFlags P"] assms(1) by simp
  show ?thesis
    using v assms(2,3)
    by (simp add: main_def mutateArgs_def runMutate_def MutateFlags_AddFlags_def decl orPanic_def
        thenP_def bindP_def returnP_def exitP_def emitP_def split: outcome.split prod.split sum.split)
qed

text \<open>
  (C29) The preview from the shell. \<open>tekton-kueue mutate --pipelinerun-file=f --config-dir=d\<close>
  prints one document and succeeds exactly when both files can be read and parsed, the
  configuration is accepted by an empty store and the webhook's \<open>Default\<close> on that store admits
  the run; the document is the YAML of the run as the webhook would admit it. In every other
  case nothing is printed, one error is logged and the exit code is 1; it never panics.
\<close>

theorem mutate_command_previews_webhook:
  assumes "distinct (map fst (mutateDecls @ zapFlags P))" "file \<noteq> []" "dir \<noteq> []"
  shows "case main P (\<lambda>f d. MutatePipelineRun C V T Y PY (files P) f d m) (mutateArgs prog file dir) h of
      (h', Inr u) \<Rightarrow>
        (\<exists>out bs plr data s m1 q m'.
           h' = h @ [Stdout out []] \<and>
           files P file = Inr bs \<and> plr_Unmarshal PY bs = Inr plr \<and>
           files P (path_Join [dir, ''config.yaml'']) = Inr data \<and>
           Update C V T Y data emptyStore m = (None, s, m1) \<and>
           Default \<lparr>configStore = s\<rparr> (PipelineRunObj plr) m1 = Ret (None, PipelineRunObj q, m') \<and>
           plr_Marshal PY q = Inr out)
    | (h', Inl c) \<Rightarrow>
        c = 1 \<and> (\<exists>err. h' = h @ [LogError ''Failed to mutate PipelineRun'' err]) \<and>
        (\<nexists>out bs plr data s m1 q m'.
           files P file = Inr bs \<and> plr_Unmarshal PY bs = Inr plr \<and>
           files P (path_Join [dir, ''config.yaml'']) = Inr data \<and>
           Update C V T Y data emptyStore m = (None, s, m1) \<and>
           Default \<lparr>configStore = s\<rparr> (PipelineRunObj plr) m1 = Ret (None, PipelineRunObj q, m') \<and>
           plr_Marshal PY q = Inr out)"
proof -
  note spec = MutatePipelineRun_previews_webhook
    [of C V T Y PY "files P" "file" dir m]
  obtain r m' where run: "MutatePipelineRun C V T Y PY (files P) file dir m = Ret (r, m')"
    using spec by blast
  show ?thesis
  proof (cases r)
    case (Inl err)
    have "\<not> (\<exists>bs plr data s m1 q.
        files P file = Inr bs \<and> plr_Unmarshal PY bs = Inr plr \<and>
        files P (path_Join [dir, ''config.yaml'']) = Inr data \<and>
        Update C V T Y data emptyStore m = (None, s, m1) \<and>
        Default \<lparr>configStore = s\<rparr> (PipelineRunObj plr) m1 = Ret (None, PipelineRunObj q, m'') \<and>
        plr_Marshal PY q = Inr out)" for out m''
      using spec [THEN conjunct2, of out m''] assms(2,3) run Inl by simp
    then show ?thesis
      unfolding main_mutate [OF assms] by (simp add: run Inl) blast
  next
    case (Inr out)
    with spec [THEN conjunct2, of out m'] run show ?thesis
      unfolding main_mutate [OF assms] by auto
  qed
qed

definition preview_yaml :: yaml where
  "preview_yaml b = Inr \<lparr>QueueName = b, MultiKueueOverride = False, CfgCEL = \<lparr>Expressions = []\<rparr>\<rparr>"

definition preview_plr_yaml :: "unit plr_yaml" where
  "preview_plr_yaml = \<lparr>plr_Unmarshal = \<lambda>b. Inr sample_run, plr_Marshal = \<lambda>q. Inr (SpecStatus q)\<rparr>"

theorem mutate_command_previews_webhook_witness:
  "\<exists>out. main sample_platform
      (\<lambda>f d. MutatePipelineRun sample_cel sample_validation sample_tekton preview_yaml preview_plr_yaml
               (files sample_platform) f d zero_metrics) (mutateArgs ''tekton-kueue'' ''run.yaml'' ''/etc'') [] =
     ([Stdout out []], Inr ()) \<and> out = PipelineRunSpecStatusPending"
proof -
  let ?main = "main sample_platform
      (\<lambda>f d. MutatePipelineRun sample_cel sample_validation sample_tekton preview_yaml preview_plr_yaml
               (files sample_platform) f d zero_metrics) (mutateArgs ''tekton-kueue'' ''run.yaml'' ''/etc'') []"
  have flags: "distinct (map fst (mutateDecls @ zapFlags sample_platform))"
    by (simp add: mutateDecls_def sample_platform_def)
  let ?cfg = "\<lparr>QueueName = ''tekton-kueue'', MultiKueueOverride = False, CfgCEL = \<lparr>Expressions = []\<rparr>\<rparr>"
  let ?s = "\<lparr>config = Some ?cfg, mutators = []\<rparr>"
  let ?m = "RecordReloadSuccess zero_metrics"
  have read: "files sample_platform path = Inr ''tekton-kueue''" for path
    by (simp add: sample_platform_def)
  have upd: "Update sample_cel sample_validation sample_tekton preview_yaml ''tekton-kueue'' emptyStore zero_metrics =
      (None, ?s, ?m)"
    by (simp add: Update_def prepareUpdate_def parseConfig_def validateConfig_def preview_yaml_def emptyStore_def)
  have def: "Default \<lparr>configStore = ?s\<rparr> (PipelineRunObj sample_run) ?m =
      Ret (None, PipelineRunObj (applyConfig ?cfg sample_run), ?m)"
    by (simp add: Default_def)
  obtain h r where run: "?main = (h, r)" by (rule prod.exhaust)
  note preview = mutate_command_previews_webhook [where P = sample_platform and C = sample_cel and
      V = sample_validation and T = sample_tekton and Y = preview_yaml and PY = preview_plr_yaml and
      m = zero_metrics and prog = "''tekton-kueue''" and h = "[]", OF flags, of "''run.yaml''" "''/etc''"]
  show ?thesis
  proof (cases r)
    case (Inl c)
    with preview run read upd def show ?thesis by (auto simp: preview_plr_yaml_def)
  next
    case (Inr u)
    with preview run read upd def show ?thesis by (auto simp: preview_plr_yaml_def)
  qed
qed

end
