(* ===== verification/Spec2Isabelle.thy ===== *)
theory Spec2Isabelle
  imports ConfigStoreConcurrency Admission Quota MutationTypesJson DeepCopy CommandLine
begin

text \<open>
  A verification development for tekton-kueue, the controller that queues Tekton PipelineRuns
  with Kueue.

  \<^bold>\<open>The program.\<close> One binary (\<^verbatim>\<open>cmd/main.go\<close>) has three sub-commands. The \<^emph>\<open>webhook\<close> answers the
  creation of a PipelineRun: it suspends the run, gives it a queue and applies the mutations
  that the CEL expressions of the configuration ask for (\<^verbatim>\<open>internal/webhook/v1\<close>, \<^verbatim>\<open>internal/cel\<close>);
  its configuration lives in a store that a ConfigMap reconciler keeps up to date
  (\<^verbatim>\<open>internal/controller/configmap_controller.go\<close>). The \<^emph>\<open>controller\<close> presents PipelineRuns to Kueue as
  jobs that can be started and stopped and that request resources, and reports runs handed
  to MultiKueue as pending (\<^verbatim>\<open>internal/controller\<close>). The \<^emph>\<open>mutate\<close> command applies the webhook's
  defaulting to a file (\<^verbatim>\<open>pkg/mutate\<close>).

  \<^bold>\<open>The theories\<close>, each after the ones it uses:

  \<^item> \<open>Prelude\<close>: Go errors and their wrapping (\<open>errors.As\<close>), results and panics, maps that may be
    nil, iteration over a map as an arbitrary enumeration, \<open>last_some\<close>, and the locale
    \<open>simulation\<close> for refinement proofs.
  \<^item> \<open>GoStrings\<close>, \<open>GoStrconv\<close>, \<open>GoFloat\<close>: the routines of Go's standard library that the code
    calls, with \<open>int\<close> as \<open>64 word\<close>: the round trip of \<open>Itoa\<close> and \<open>Atoi\<close>, the specification of
    \<open>TrimSpace\<close>, the rounding error of the conversion to \<open>float32\<close>. \<open>GoJson\<close> adds JSON strings with
    the scanner of \<^verbatim>\<open>encoding/json\<close>, \<open>GoFlag\<close> the flag sets and the argument parser of \<^verbatim>\<open>flag\<close>.
  \<^item> \<open>PipelineRun\<close>, \<open>Metrics\<close>: the objects (\<^verbatim>\<open>pkg/common/constants.go\<close>; the fields of a run that the
    code reads or writes by name, all others in \<open>Rest\<close>) and the Prometheus counters, which
    every operation that records one takes and returns.
  \<^item> \<open>MutationTypes\<close>, \<open>CelCompiler\<close>, \<open>CelEvaluator\<close>, \<open>CelMutator\<close>: \<^verbatim>\<open>internal/cel\<close>, one theory per file.
    The locale \<open>mutation_function\<close> is what the evaluator relies on of the functions of the
    CEL environment; it is interpreted for all seven. \<open>MutationTypesJson\<close> has the JSON methods of
    \<open>MutationType\<close>.
  \<^item> \<open>MutatorInterface\<close>: the Go interface \<open>PipelineRunMutator\<close> as the locale \<open>pipeline_run_mutator\<close>,
    interpreted for \<open>CELMutator\<close> and used by the chain of mutators of the webhook.
  \<^item> \<open>ConfigStore\<close>: \<^verbatim>\<open>config_store.go\<close> and \<^verbatim>\<open>pkg/config\<close>, with the invariant \<open>store_ok\<close> and the locale
    \<open>config_source\<close> for the clients of the store. \<open>ConfigStoreConcurrency\<close> takes both methods apart
    into the single accesses that goroutines interleave under the read-write lock, with the
    counters that a writer moves before it releases the lock. \<open>DeepCopy\<close> is the generated
    \<^verbatim>\<open>zz_generated.deepcopy.go\<close> over an explicit memory, in which slices can share arrays.
  \<^item> \<open>Webhook\<close>: \<^verbatim>\<open>pipelinerun_webhook.go\<close>, the defaulter and the filter of patches, which is modelled
    as the in-place compaction it is. \<open>JsonPatch\<close> states what patches mean, after RFC 6901 and
    RFC 6902, with the locale \<open>member_filter\<close> for a filter of paths by members of a document;
    \<open>Admission\<close> interprets it for the allowlist and follows a request to the stored document.
  \<^item> \<open>Controller\<close>, \<open>StatusReconciler\<close>, \<open>ConfigMapController\<close>: \<^verbatim>\<open>internal/controller\<close>, with the locale
    \<open>generic_job\<close> for what Kueue's job framework relies on, interpreted for PipelineRuns.
  \<^item> \<open>Cluster\<close>: the components composed, as a step relation over the stored runs, the webhook's
    store and counters and what Kueue has started. \<open>Ledger\<close> is the abstract specification of
    queueing, a ledger of runs that hold resources within limits, and \<open>Quota\<close> the proof that
    the composed system refines it when Kueue starts runs within its quota.
  \<^item> \<open>MutateCommand\<close>: \<^verbatim>\<open>pkg/mutate\<close> and \<^verbatim>\<open>pkg/common/common_utils.go\<close>.
  \<^item> \<open>Process\<close>, \<open>Registration\<close>, \<open>Cmd\<close>: \<^verbatim>\<open>cmd/main.go\<close> as computations over the history of the
    process. \<open>Process\<close> has these computations and the options of the manager, \<open>Registration\<close> what
    the packages hand to the libraries at start-up (initialisers, set-up functions, the logger
    of a request), \<open>Cmd\<close> the flags, the sub-commands and the order of start-up, \<open>CommandLine\<close>
    the effect of the arguments.

  \<^bold>\<open>State and effects.\<close> A method that changes its receiver or argument returns the changed value
  with its result; an error is \<open>Inl\<close> or a \<open>Some\<close> of \<open>go_error\<close>, where a formatted message keeps its
  format and operands; a call that may panic returns an \<open>outcome\<close>. Loops are recursive
  functions that terminate, so there is no fuel, except the search for a \<open>float32\<close> exponent,
  which visits the 254 exponents there are.

  \<^bold>\<open>Parameters.\<close> Code outside the repository is an argument of the definitions that use it: cel-go
  (\<open>cel_go\<close>) and the Kubernetes name validation (\<open>validation\<close>), the Tekton API (\<open>tekton\<close>,
  \<open>tekton_status\<close>), Kubernetes quantities (\<open>quantities\<close>), the YAML and JSON codecs, the admission handler of
  controller-runtime that the patch filter wraps, the answers of
  the API server and of the manager, the flags that the logging and client libraries declare,
  and the texts of floating-point numbers and durations on the command line. Where a property
  needs something of one of them, it is a premise of the property, and its witness
  instantiates the parameter with a concrete function.

  \<^bold>\<open>What is shown.\<close> For the webhook: every admitted run is suspended and has a queue, which queue
  and manager it gets, how errors are answered, when the defaulter panics, that the filter of
  patches is a filter, and that what the API server stores of a request is what the defaulter
  computed for the four fields and what the user submitted for everything else. For the store: last known good, agreement of configuration and
  mutators in every interleaving, linearisability of updates with their counters, that no
  request uses a stale configuration, progress and termination of the calls; that deep
  copies of a configuration share nothing. For the CEL
  package: what compiles, that the bindings agree with the declared signatures, what the functions accept, that results are valid requests and come
  in order, that resource requests add up within the \<open>int\<close> range, that the last writer wins,
  what the counters count, and that the JSON form of a mutation type round trips and guards
  the type. For the controller: the pod set in terms of the annotations and its independence
  of the order of the map, the effect of a stop, the life of a job, the status reports. For the
  composed system: no stored run is without a queue, none runs that Kueue has not started,
  which runs Kueue can start, what the counters tell of the state, that under quota the system
  refines the ledger, in which runs arrive queued and only move forward, and so that quotas bound the number and the requests of the runs that
  Tekton executes. For the commands: with which flags the servers start and how a wrong command line ends, that the
  preview is what the webhook does, the order of start-up, the limits of the client. This
  theory adds the properties that cross components.

  \<^bold>\<open>Not modelled\<close>: the content of log lines beyond the keys of a request's logger, and the
  configuration of the logger itself; the text of usage messages; the package comment
  \<^verbatim>\<open>internal/cel/doc.go\<close>, the import that makes up the coverage build (\<^verbatim>\<open>cmd/coverage_init.go\<close>) and
  the helpers of the end-to-end tests (\<^verbatim>\<open>test/utils\<close>).
\<close>

section \<open>Properties that span components\<close>

text \<open>Quantities for the instances: the decimal numbers, of any size.\<close>

definition decimal_value :: "string \<Rightarrow> nat" where
  "decimal_value ds = foldl (\<lambda>n c. n * 10 + digit_val c) 0 ds"

definition int_quantities :: "int quantities" where
  "int_quantities =
     \<lparr>ParseQuantity = \<lambda>s. (case split_sign s of (neg, ds) \<Rightarrow>
        Inr (if neg then - int (decimal_value ds) else int (decimal_value ds))),
      MustParse = \<lambda>s. 1, Sign = sgn\<rparr>"

definition big :: int64 where
  "big = 2 ^ 62"

definition big_request :: MutationRequest where
  "big_request = \<lparr>Type = MutationTypeResource, Key = annotationResourcesRequests @ ''vm'', Value = Itoa big\<rparr>"

definition big_run :: "unit PipelineRun" where
  "big_run = sample_run\<lparr>Annotations := Some [annotationResourcesRequests @ ''vm'' \<mapsto> Itoa big]\<rparr>"

lemma sint_big [simp]: "sint big = 2 ^ 62"
  using sint_of_int64 [of "2 ^ 62"] by (simp add: big_def)

lemma int_quantities_simps [simp]:
  "MustParse int_quantities s = 1" "Sign int_quantities q = sgn q"
  by (simp_all add: int_quantities_def)

lemma decimal_value_decimal [simp]: "decimal_value (decimal n) = n"
proof (induction n rule: decimal.induct)
  case (1 n)
  then show ?case
    by (auto simp: decimal.simps [of n] decimal_value_def digit_char_props)
qed

lemma int_quantities_format [simp]: "ParseQuantity int_quantities (format_int j) = Inr j"
  by (simp add: int_quantities_def format_int_def split_sign_decimal)

lemma request_prefixes_agree: "resourceKeyPrefix = annotationResourcesRequests"
  by (simp add: resourceKeyPrefix_def annotationResourcesRequests_def annotationDomain_def)

lemma resource_request:
  assumes "\<not> is_Err (resourceBinding V ''resource'' MutationTypeResource (RefVal (GoString k)) (RefVal (GoInt64 i)))"
  obtains mr where
    "convertSingleMutation (native (resourceBinding V ''resource'' MutationTypeResource
       (RefVal (GoString k)) (RefVal (GoInt64 i)))) = Inr mr"
    "is_resource mr" "numeric_request mr" "amount mr = sint i" "Key mr = resourceKeyPrefix @ k" "k \<noteq> []"
    "0 \<le> sint i"
proof (rule resourceBinding_ok [OF assms])
  fix k' i'
  assume "native (RefVal (GoString k)) = GoString k'" "native (RefVal (GoInt64 i)) = GoInt64 i'"
    "k' \<noteq> []" "0 \<le> sint i'" "resourceBinding V ''resource'' MutationTypeResource (RefVal (GoString k))
       (RefVal (GoInt64 i)) = mutationMap MutationTypeResource (resourceKeyPrefix @ k') (Itoa i')"
  then show thesis
    by (intro that [of "\<lparr>Type = MutationTypeResource, Key = resourceKeyPrefix @ k, Value = Itoa i\<rparr>"])
      (simp_all add: is_resource_def numeric_request_def amount_def)
qed

text \<open>
  (C13) A CEL call \<open>resource(k, i)\<close> reaches Kueue. On a run whose annotation for \<open>k\<close> stands for
  the quantity \<open>n\<close>, the call's request is converted and applied without error, and the pod
  set built from the annotations afterwards, in whatever order, requests \<open>n + i\<close> of \<open>k\<close>: the
  key prefix that the compiler writes is the one that the controller cuts off.
\<close>

theorem resource_call_reaches_pod_set:
  assumes "\<And>j. 0 \<le> j \<Longrightarrow> ParseQuantity Q (format_int j) = Inr (qty j) \<and> 0 \<le> Sign Q (qty j)"
    and "\<not> is_Err (resourceBinding V ''resource'' MutationTypeResource (RefVal (GoString k)) (RefVal (GoInt64 i)))"
    and "k \<noteq> ResourcePipelineRunCount"
    and "quantity p (resourceKeyPrefix @ k) = Some n" and "n + sint i < 2 ^ 63"
    and "\<And>k' v. map_get (Annotations p) k' = Some v \<Longrightarrow> k' \<noteq> resourceKeyPrefix @ k \<Longrightarrow>
           is_ok (parseResourcesRequestsAnnotation Q k' v)"
  shows "\<exists>mr q. convertSingleMutation (native (resourceBinding V ''resource'' MutationTypeResource
             (RefVal (GoString k)) (RefVal (GoInt64 i)))) = Inr mr \<and>
           mutate p mr = (None, q) \<and>
           (\<forall>kvs. enumerates kvs (Annotations q) \<longrightarrow>
              (\<exists>ps. PodSets Q kvs = Inr [ps] \<and>
                    map (\<lambda>c. Requests c k) (Containers ps) = [Some (qty (n + sint i))]))"
proof -
  obtain mr where mr: "convertSingleMutation (native (resourceBinding V ''resource'' MutationTypeResource
       (RefVal (GoString k)) (RefVal (GoInt64 i)))) = Inr mr"
    "is_resource mr" "numeric_request mr" "amount mr = sint i" "Key mr = resourceKeyPrefix @ k" "k \<noteq> []"
    "0 \<le> sint i"
    using assms(2) by (rule resource_request)
  from assms(4) mr(5) have "quantity p (Key mr) = Some n" by simp
  from mutate_resource [OF mr(2,3) this] mr(4,5) assms(5) obtain q where q: "mutate p mr = (None, q)"
    "map_get (Annotations q) (resourceKeyPrefix @ k) = Some (format_int (n + sint i))"
    "\<And>k'. k' \<noteq> resourceKeyPrefix @ k \<Longrightarrow> map_get (Annotations q) k' = map_get (Annotations p) k'"
    by auto
  have nonneg: "0 \<le> n + sint i" using quantity_nonneg [OF assms(4)] mr(7) by simp
  have all_ok: "is_ok (parseResourcesRequestsAnnotation Q k' v)" if "map_get (Annotations q) k' = Some v" for k' v
  proof (cases "k' = resourceKeyPrefix @ k")
    case True
    with that q(2) have v: "v = format_int (n + sint i)" by simp
    from True mr(6) assms(3) assms(1) [OF nonneg] show ?thesis
      by (simp add: parse_ok_iff v request_prefixes_agree)
  next
    case False
    with that q(3) assms(6) show ?thesis by simp
  qed
  have "\<exists>ps. PodSets Q kvs = Inr [ps] \<and> map (\<lambda>c. Requests c k) (Containers ps) = [Some (qty (n + sint i))]"
    if kvs: "enumerates kvs (Annotations q)" for kvs
  proof -
    have "is_ok (resourcesRequests Q kvs)" unfolding resourcesRequests_ok_iff [OF kvs] using all_ok by blast
    then obtain r where r: "resourcesRequests Q kvs = Inr r" by (auto simp: is_ok_iff)
    from resourcesRequests_value [OF kvs r] q(2) assms(1) [OF nonneg] assms(3)
    have "r k = Some (qty (n + sint i))" by (simp add: requests_of_def request_prefixes_agree)
    with r show ?thesis by (simp add: PodSets_def)
  qed
  with mr(1) q(1) show ?thesis by blast
qed

theorem resource_call_reaches_pod_set_witness:
  "\<exists>mr q. convertSingleMutation (native (resourceBinding sample_validation ''resource'' MutationTypeResource
       (RefVal (GoString ''vm'')) (RefVal (GoInt64 big)))) = Inr mr \<and>
     mutate sample_run mr = (None, q) \<and>
     (\<forall>kvs. enumerates kvs (Annotations q) \<longrightarrow>
        (\<exists>ps. PodSets int_quantities kvs = Inr [ps] \<and>
              map (\<lambda>c. Requests c ''vm'') (Containers ps) = [Some (0 + sint big)]))"
proof (rule resource_call_reaches_pod_set [where qty = "\<lambda>j. j"])
  show "\<not> is_Err (resourceBinding sample_validation ''resource'' MutationTypeResource
      (RefVal (GoString ''vm'')) (RefVal (GoInt64 big)))"
    by (simp add: resourceBinding_def validateKey_None sample_validation_def format_int_fits Let_def
        del: sint_big split: option.split) simp
qed (simp_all add: ResourcePipelineRunCount_def quantity_def sgn_if)

text \<open>
  (C14) A sum that overflows. When a run already asks for \<open>n\<close> of a resource and a \<open>resource\<close>
  request adds an amount that takes the sum past the largest \<open>int64\<close>, the mutator reports no
  error and stores a negative number; the run is admitted, and Kueue's controller then
  rejects it for good when it builds the pod set.
\<close>

theorem resource_overflow_rejected_later:
  assumes "\<And>j x. j < 0 \<Longrightarrow> ParseQuantity Q (format_int j) = Inr x \<Longrightarrow> Sign Q x < 0"
    and "Type mr = MutationTypeResource" and "numeric_request mr"
    and "Key mr = annotationResourcesRequests @ name"
    and "quantity p (Key mr) = Some n" and "2 ^ 63 \<le> n + amount mr"
  shows "\<exists>q. mutate p mr = (None, q) \<and>
     map_get (Annotations q) (Key mr) = Some (format_int (n + amount mr - 2 ^ 64)) \<and>
     n + amount mr - 2 ^ 64 < 0 \<and>
     (\<forall>kvs. enumerates kvs (Annotations q) \<longrightarrow> (\<exists>msg. PodSets Q kvs = Inl (UnretryableError msg)))"
proof -
  have res: "is_resource mr" using assms(2) by (simp add: is_resource_def)
  obtain q where q: "mutate p mr = (None, q)"
    "map_get (Annotations q) (Key mr) = Some (format_int (n + amount mr - 2 ^ 64))"
    using mutate_resource [OF res assms(3,5)] assms(6) by auto
  have "n < 2 ^ 63" "amount mr < 2 ^ 63"
    using assms(3,5) sint_bounds(2)
    by (auto simp: quantity_def numeric_request_def amount_def split: option.splits sum.splits if_splits)
  then have neg: "n + amount mr - 2 ^ 64 < 0" by simp
  have bad: "\<not> is_ok (parseResourcesRequestsAnnotation Q (Key mr) (format_int (n + amount mr - 2 ^ 64)))"
    using assms(1) [OF neg] by (fastforce simp: parse_ok_iff assms(4))
  have "\<exists>msg. PodSets Q kvs = Inl (UnretryableError msg)" if kvs: "enumerates kvs (Annotations q)" for kvs
  proof -
    have "\<not> is_ok (resourcesRequests Q kvs)"
      unfolding resourcesRequests_ok_iff [OF kvs] using bad q(2) by blast
    then obtain e where e: "resourcesRequests Q kvs = Inl e" by (auto simp: is_ok_def split: sum.splits)
    then obtain msg where "e = UnretryableError msg"
      using requestsLoop_error unfolding resourcesRequests_def by blast
    with e show ?thesis by (simp add: PodSets_def)
  qed
  with q neg show ?thesis by blast
qed

theorem resource_overflow_rejected_later_witness:
  "\<exists>q. mutate big_run big_request = (None, q) \<and>
     map_get (Annotations q) (Key big_request) = Some (format_int (- (2 ^ 63)))"
proof -
  have prems: "numeric_request big_request" "amount big_request = 2 ^ 62"
      "quantity big_run (Key big_request) = Some (2 ^ 62)"
    by (simp_all add: numeric_request_def amount_def big_request_def quantity_def big_run_def)
  have req: "Type big_request = MutationTypeResource" "Key big_request = annotationResourcesRequests @ ''vm''"
    by (simp_all add: big_request_def)
  have "\<exists>q. mutate big_run big_request = (None, q) \<and>
     map_get (Annotations q) (Key big_request) = Some (format_int (2 ^ 62 + amount big_request - 2 ^ 64)) \<and>
     2 ^ 62 + amount big_request - 2 ^ 64 < 0 \<and>
     (\<forall>kvs. enumerates kvs (Annotations q) \<longrightarrow>
        (\<exists>msg. PodSets int_quantities kvs = Inl (UnretryableError msg)))"
    by (rule resource_overflow_rejected_later [OF _ req(1) prems(1) req(2) prems(3)])
      (simp_all add: prems(2))
  then show ?thesis by (auto simp: prems(2))
qed

text \<open>
  (C19) When the webhook is ready. After any history of reconciliations from the start of the
  process, the defaulter panics on a PipelineRun exactly when no ConfigMap of the history
  could be loaded: one good configuration is enough, and nothing that follows undoes it.
\<close>

theorem webhook_ready_iff_loaded:
  "(\<exists>msg. Default \<lparr>configStore = fst (reconcileAll C V T Y nf rs emptyStore m)\<rparr> (PipelineRunObj p) m' = Panic msg)
     \<longleftrightarrow> filter (\<lambda>r. loads C V T Y r \<noteq> None) rs = []"
proof (cases "last_some (loads C V T Y) rs")
  case None
  then have "filter (\<lambda>r. loads C V T Y r \<noteq> None) rs = []" by (simp add: last_some_None filter_empty_conv)
  with None show ?thesis by (simp add: reconcileAll_store Default_def emptyStore_def)
next
  case (Some cm)
  obtain r where "r \<in> set rs" "loads C V T Y r = Some cm" using last_some_Some [OF Some] by blast
  then have "r \<in> set (filter (\<lambda>r. loads C V T Y r \<noteq> None) rs)" by simp
  then have "filter (\<lambda>r. loads C V T Y r \<noteq> None) rs \<noteq> []" by (metis empty_iff list.set(1))
  with Some show ?thesis
    by (cases cm) (auto simp: reconcileAll_store Default_def split: prod.splits)
qed

text \<open>
  (C10) Admission never uses a stale configuration. However readers and writers of the store are
  interleaved, a request that begins to read the store after state \<open>s0\<close> is defaulted exactly
  as it would be on the store left by a sequence of whole updates, one that contains every
  update that had returned in \<open>s0\<close> and none that has not returned when the read ends.
\<close>

theorem admission_not_stale:
  assumes "creachable C V T Y s0" and "pcs s0 i = Idle"
    and "csteps C V T Y s0 s" and "pcs s i = RDone c muts"
  shows "\<exists>n. length (updates s0) \<le> n \<and> n \<le> length (updates s) \<and>
    (\<forall>p m. Default \<lparr>configStore = \<lparr>config = c, mutators = muts\<rparr>\<rparr> (PipelineRunObj p) m =
       Default \<lparr>configStore = fst (sequential C V T Y (take n (updates s)))\<rparr> (PipelineRunObj p) m)"
proof -
  obtain n where n: "length (updates s0) \<le> n" "n \<le> length (updates s)"
    and read: "GetConfigAndMutators (fst (sequential C V T Y (take n (updates s)))) = (c, muts)"
    using csteps_reads [OF assms(3,1,2,4)] by blast
  have "Default \<lparr>configStore = \<lparr>config = c, mutators = muts\<rparr>\<rparr> (PipelineRunObj p) m =
      Default \<lparr>configStore = fst (sequential C V T Y (take n (updates s)))\<rparr> (PipelineRunObj p) m" for p m
    using read by (simp add: Default_def DefaultRun_def GetConfigAndMutators_def)
  with n show ?thesis by blast
qed

theorem admission_not_stale_witness:
  "\<exists>s. sample_reachable s \<and> updates s = [''good''] \<and>
     (\<forall>p m. Default \<lparr>configStore = sample_store\<rparr> (PipelineRunObj p) m =
        Default \<lparr>configStore = fst (sequential sample_cel sample_validation sample_tekton sample_yaml [''good''])\<rparr>
          (PipelineRunObj p) m)"
proof -
  obtain s0 where s0: "sample_reachable s0" "pcs s0 = (\<lambda>_. Idle)" "writer s0 = None" "updates s0 = [''good'']"
    "store s0 = \<lparr>config = Some sample_config, mutators = sample_mutators\<rparr>" by (rule sample_updated)
  have idle: "pcs s0 1 = Idle" by (simp add: s0(2))
  then obtain s where s: "sample_steps s0 s" "pcs s 1 = RDone (config (store s0)) (mutators (store s0))"
      "updates s = updates s0"
    using s0(3) by (rule read_steps)
  from admission_not_stale [OF s0(1) idle s(1,2)] s(3) s0(1,4,5) show ?thesis
    by (intro exI [of _ s0]) (auto simp: sample_store_def)
qed

text \<open>
  (C33) A run that is handed to MultiKueue is reported as pending, once. Of the admitted runs
  without a \<open>Succeeded\<close> condition the status reconciler updates exactly those whose
  \<open>spec.managedBy\<close> is MultiKueue; among them are all runs admitted while the override is on
  and no expressions are configured. Called again on what it has written, it sends nothing.
  Of \<open>SetCondition\<close> it is used that a condition of the type that was set is present afterwards.
\<close>

theorem multikueue_run_reported_once:
  assumes "store_ok C V T s" and "config s = Some cfg"
    and "Default \<lparr>configStore = s\<rparr> (PipelineRunObj p) m = Ret (None, PipelineRunObj q, m')"
    and "GetCondition TS q ConditionSucceeded = None"
    and "\<And>c p. GetCondition TS (SetCondition TS c p) (CondType c) \<noteq> None"
  shows "ReconcileStatus TS nf now upd (Inr q) =
      (if ManagedBy q = Some ManagedByMultiKueueLabel
       then (upd (SetCondition TS (pendingCondition now) q), [SetCondition TS (pendingCondition now) q])
       else (None, [])) \<and>
    needsPendingStatusCondition (PipelineRunObj q) = (ManagedBy q = Some ManagedByMultiKueueLabel) \<and>
    ReconcileStatus TS nf now' upd' (Inr (SetCondition TS (pendingCondition now) q)) = (None, []) \<and>
    (MultiKueueOverride cfg \<and> Expressions (CfgCEL cfg) = [] \<longrightarrow> ManagedBy q = Some ManagedByMultiKueueLabel)"
proof (intro conjI impI)
  have "SpecStatus q = PipelineRunSpecStatusPending"
    using Default_accepted [of C V T "\<lparr>configStore = s\<rparr>", OF _ assms(3)] assms(1) by auto
  then show sel: "needsPendingStatusCondition (PipelineRunObj q) = (ManagedBy q = Some ManagedByMultiKueueLabel)"
    by (auto simp: needsPendingStatusCondition_def)
  with assms(4) show "ReconcileStatus TS nf now upd (Inr q) =
      (if ManagedBy q = Some ManagedByMultiKueueLabel
       then (upd (SetCondition TS (pendingCondition now) q), [SetCondition TS (pendingCondition now) q])
       else (None, []))"
    by (cases rule: ReconcileStatus_cases [of q TS nf now upd]) simp_all
  let ?q = "SetCondition TS (pendingCondition now) q"
  have "GetCondition TS ?q ConditionSucceeded \<noteq> None"
    using assms(5) [of "pendingCondition now" q] by (simp add: pendingCondition_def)
  then show "ReconcileStatus TS nf now' upd' (Inr ?q) = (None, [])"
    by (cases rule: ReconcileStatus_cases [of ?q TS nf now' upd']) simp_all
  assume "MultiKueueOverride cfg \<and> Expressions (CfgCEL cfg) = []"
  moreover from this have "mutators s = []"
    using assms(1,2) by (simp add: store_ok_def consistent_pair_def mutators_for_def)
  ultimately show "ManagedBy q = Some ManagedByMultiKueueLabel"
    using assms(2,3) by (auto simp: Default_PipelineRun)
qed

theorem multikueue_run_reported_once_witness:
  "\<exists>q. snd (ReconcileStatus sample_status (\<lambda>_. False) 7 (\<lambda>_. None) (Inr q)) =
       [SetCondition sample_status (pendingCondition 7) q] \<and>
     ReconcileStatus sample_status (\<lambda>_. False) 8 (\<lambda>_. None) (Inr (SetCondition sample_status (pendingCondition 7) q)) =
       (None, [])"
proof -
  let ?cfg = "\<lparr>QueueName = ''pipelines'', MultiKueueOverride = True, CfgCEL = \<lparr>Expressions = []\<rparr>\<rparr>"
  let ?s = "\<lparr>config = Some ?cfg, mutators = []\<rparr>"
  let ?q = "applyConfig ?cfg sample_run"
  have ok: "store_ok sample_cel sample_validation sample_tekton ?s"
    by (simp add: store_ok_def consistent_pair_def mutators_for_def)
  have d: "Default \<lparr>configStore = ?s\<rparr> (PipelineRunObj sample_run) zero_metrics =
      Ret (None, PipelineRunObj ?q, zero_metrics)"
    by (simp add: Default_def)
  have c: "GetCondition sample_status ?q ConditionSucceeded = None"
    "GetCondition sample_status (SetCondition sample_status c p) (CondType c) \<noteq> None" for c p
    by (simp_all add: sample_status_def)
  from multikueue_run_reported_once [OF ok _ d c, of ?cfg "\<lambda>_. False" 7 "\<lambda>_. None" 8 "\<lambda>_. None"]
  show ?thesis by (intro exI [of _ ?q]) simp
qed

end
